(* ===== verification/Cube_Prelude.thy ===== *)
theory Cube_Prelude
  imports Main "HOL-Library.State_Monad" "HOL-Library.Word"
begin

text \<open>
  Shared vocabulary of the development: state-passing computations with Go-style error results,
  the weakest-precondition calculus the component proofs run on, ownership of handles, counting
  of open handles, and the width of C integers.

  A Go method that returns \<open>error\<close> or \<open>(value, error)\<close> is a computation whose result is a
  sum: \<open>Inl e\<close> is a non-nil error, \<open>Inr v\<close> a nil error with the value.
\<close>

named_theorems wp_simps \<open>equations that push the weakest precondition through a program\<close>

section \<open>Computations over a state\<close>

definition gets :: "('s \<Rightarrow> 'a) \<Rightarrow> ('s, 'a) state" where
  "gets f = State (\<lambda>s. (f s, s))"

definition modify :: "('s \<Rightarrow> 's) \<Rightarrow> ('s, unit) state" where
  "modify f = State (\<lambda>s. ((), f s))"

text \<open>A lower layer's computation run on the part of the state that belongs to it.\<close>

definition zoom :: "('s \<Rightarrow> 't) \<Rightarrow> (('t \<Rightarrow> 't) \<Rightarrow> 's \<Rightarrow> 's) \<Rightarrow> ('t, 'a) state \<Rightarrow> ('s, 'a) state" where
  "zoom sel upd m = State (\<lambda>s. case run_state m (sel s) of (r, t) \<Rightarrow> (r, upd (\<lambda>_. t) s))"

definition throw :: "'e \<Rightarrow> ('s, 'e + 'a) state" where
  "throw e = State_Monad.return (Inl e)"

definition ok :: "'a \<Rightarrow> ('s, 'e + 'a) state" where
  "ok v = State_Monad.return (Inr v)"

text \<open>\<^verbatim>\<open>v, err := m; if err != nil { return ..., err }; k(v)\<close>\<close>

definition tryE :: "('s, 'e + 'a) state \<Rightarrow> ('a \<Rightarrow> ('s, 'e + 'b) state) \<Rightarrow> ('s, 'e + 'b) state" where
  "tryE m k = do { r \<leftarrow> m; (case r of Inl e \<Rightarrow> State_Monad.return (Inl e) | Inr v \<Rightarrow> k v) }"

text \<open>\<^verbatim>\<open>v, err := m; if err != nil { h(err) }; k(v)\<close>\<close>

definition catchE ::
  "('s, 'e + 'a) state \<Rightarrow> ('e \<Rightarrow> ('s, 'e + 'b) state) \<Rightarrow> ('a \<Rightarrow> ('s, 'e + 'b) state) \<Rightarrow> ('s, 'e + 'b) state"
  where
  "catchE m h k = do { r \<leftarrow> m; (case r of Inl e \<Rightarrow> h e | Inr v \<Rightarrow> k v) }"

text \<open>\<^verbatim>\<open>v, err := m; return v, f(err)\<close>\<close>

definition mapE :: "('e \<Rightarrow> 'e) \<Rightarrow> ('s, 'e + 'a) state \<Rightarrow> ('s, 'e + 'a) state" where
  "mapE f m = do { r \<leftarrow> m; State_Monad.return (case r of Inl e \<Rightarrow> Inl (f e) | Inr v \<Rightarrow> Inr v) }"

text \<open>\<^verbatim>\<open>defer cleanup(); return m()\<close>, the cleanup's own result being dropped.\<close>

definition deferE :: "('s, 'b) state \<Rightarrow> ('s, 'a) state \<Rightarrow> ('s, 'a) state" where
  "deferE cleanup m = do { r \<leftarrow> m; _ \<leftarrow> cleanup; State_Monad.return r }"

text \<open>\<^verbatim>\<open>for index, value := range xs { if err := f(index, value); err != nil { return err } }\<close>\<close>

fun eachE :: "(nat \<Rightarrow> 'x \<Rightarrow> ('s, 'e + unit) state) \<Rightarrow> nat \<Rightarrow> 'x list \<Rightarrow> ('s, 'e + unit) state" where
  "eachE f i [] = ok ()"
| "eachE f i (x # xs) = tryE (f i x) (\<lambda>_. eachE f (Suc i) xs)"

section \<open>Weakest preconditions\<close>

definition wp :: "('s, 'a) state \<Rightarrow> ('a \<Rightarrow> 's \<Rightarrow> bool) \<Rightarrow> 's \<Rightarrow> bool" where
  "wp m Q s \<longleftrightarrow> (case run_state m s of (r, t) \<Rightarrow> Q r t)"

lemma wp_run: "wp m Q s \<longleftrightarrow> Q (fst (run_state m s)) (snd (run_state m s))"
  by (simp add: wp_def split: prod.splits)

lemma wpD: "wp m Q s \<Longrightarrow> run_state m s = (r, t) \<Longrightarrow> Q r t"
  by (simp add: wp_def)

lemma wpI: "(\<And>r t. run_state m s = (r, t) \<Longrightarrow> Q r t) \<Longrightarrow> wp m Q s"
  by (simp add: wp_def split: prod.splits)

lemma wp_mono: "wp m P s \<Longrightarrow> (\<And>r t. P r t \<Longrightarrow> Q r t) \<Longrightarrow> wp m Q s"
  by (auto simp: wp_def split: prod.splits)

lemma wp_conj: "wp m P s \<Longrightarrow> wp m Q s \<Longrightarrow> wp m (\<lambda>r t. P r t \<and> Q r t) s"
  by (auto simp: wp_def split: prod.splits)

lemma run_state_simps [simp]:
  "run_state (gets f) s = (f s, s)"
  "run_state (modify g) s = ((), g s)"
  "run_state (zoom sel upd m) s = (case run_state m (sel s) of (r, t) \<Rightarrow> (r, upd (\<lambda>_. t) s))"
  "run_state (throw e) s = (Inl e, s)"
  "run_state (ok v) s = (Inr v, s)"
  by (simp_all add: gets_def modify_def zoom_def throw_def ok_def split: prod.splits)

text \<open>
  The equations are stated without the state argument, so that the simplifier can use them under
  the binder of a postcondition.
\<close>

lemma wp_basic [wp_simps]:
  "wp (State_Monad.return a) Q = Q a"
  "wp (gets f) Q1 = (\<lambda>s. Q1 (f s) s)"
  "wp (modify g) Q2 = (\<lambda>s. Q2 () (g s))"
  "wp (throw e) R = R (Inl e)"
  "wp (ok v) R = R (Inr v)"
  by (simp_all add: wp_def fun_eq_iff)

lemma wp_bind [wp_simps]: "wp (State_Monad.bind m f) Q = wp m (\<lambda>r. wp (f r) Q)"
  by (simp add: wp_def fun_eq_iff split: prod.splits)

lemma wp_zoom [wp_simps]:
  "wp (zoom sel upd m) Q = (\<lambda>s. wp m (\<lambda>r t. Q r (upd (\<lambda>_. t) s)) (sel s))"
  by (simp add: wp_def fun_eq_iff split: prod.splits)

lemma wp_tryE [wp_simps]:
  "wp (tryE m k) Q = wp m (\<lambda>r. case r of Inl e \<Rightarrow> Q (Inl e) | Inr v \<Rightarrow> wp (k v) Q)"
  by (auto simp: tryE_def wp_def fun_eq_iff split: prod.splits sum.splits)

lemma wp_catchE [wp_simps]:
  "wp (catchE m h k) Q = wp m (\<lambda>r. case r of Inl e \<Rightarrow> wp (h e) Q | Inr v \<Rightarrow> wp (k v) Q)"
  by (auto simp: catchE_def wp_def fun_eq_iff split: prod.splits sum.splits)

lemma wp_mapE [wp_simps]:
  "wp (mapE f m) Q = wp m (\<lambda>r. Q (case r of Inl e \<Rightarrow> Inl (f e) | Inr v \<Rightarrow> Inr v))"
  by (simp add: mapE_def wp_simps)

lemma wp_deferE [wp_simps]: "wp (deferE c m) Q = wp m (\<lambda>r. wp c (\<lambda>_. Q r))"
  by (simp add: deferE_def wp_simps)

lemma wp_if [wp_simps]: "wp (if b then m else n) Q = (if b then wp m Q else wp n Q)"
  by simp

lemma wp_case:
  "wp (case p of (a, b) \<Rightarrow> f a b) Q = (case p of (a, b) \<Rightarrow> wp (f a b) Q)"
  "wp (case x of Inl c \<Rightarrow> g c | Inr d \<Rightarrow> h d) Q = (case x of Inl c \<Rightarrow> wp (g c) Q | Inr d \<Rightarrow> wp (h d) Q)"
  "wp (case y of None \<Rightarrow> k | Some e \<Rightarrow> l e) Q = (case y of None \<Rightarrow> wp k Q | Some e \<Rightarrow> wp (l e) Q)"
  by (simp_all split: prod.splits sum.splits option.splits)

text \<open>A loop with a loop invariant, in the style of a total-correctness rule.\<close>

lemma wp_eachE:
  assumes "I s"
    and step: "\<And>i x t. I t \<Longrightarrow> wp (f i x) (\<lambda>r t'. (case r of Inl e \<Rightarrow> E e | Inr _ \<Rightarrow> True) \<and> I t') t"
    and fail: "\<And>e t. E e \<Longrightarrow> I t \<Longrightarrow> Q (Inl e) t"
    and finish: "\<And>t. I t \<Longrightarrow> Q (Inr ()) t"
  shows "wp (eachE f i xs) Q s"
  using \<open>I s\<close>
proof (induction xs arbitrary: i s)
  case Nil
  then show ?case by (simp add: wp_simps finish)
next
  case (Cons x xs)
  show ?case
    unfolding eachE.simps wp_tryE
    by (rule wp_mono [OF step [OF Cons.prems]])
      (auto split: sum.splits intro: fail Cons.IH)
qed

section \<open>Invariants and error classes of programs\<close>

text \<open>\<open>stays I m\<close>: \<open>m\<close> keeps \<open>I\<close>. \<open>fails_in E m\<close>: every error of \<open>m\<close> satisfies \<open>E\<close>.\<close>

definition stays :: "('s \<Rightarrow> bool) \<Rightarrow> ('s, 'a) state \<Rightarrow> bool" where
  "stays I m \<longleftrightarrow> (\<forall>s. I s \<longrightarrow> wp m (\<lambda>_. I) s)"

definition fails_in :: "('e \<Rightarrow> bool) \<Rightarrow> ('s, 'e + 'a) state \<Rightarrow> bool" where
  "fails_in E m \<longleftrightarrow> (\<forall>s. wp m (\<lambda>r _. case r of Inl e \<Rightarrow> E e | Inr _ \<Rightarrow> True) s)"

lemma staysI: "(\<And>s. I s \<Longrightarrow> wp m (\<lambda>_. I) s) \<Longrightarrow> stays I m"
  by (simp add: stays_def)

lemma stays_basic: "stays I (State_Monad.return v)" "stays I (ok v')" "stays I (throw e)" "stays I (gets f)"
  by (simp_all add: stays_def wp_simps)

lemma stays_bind: "stays I m \<Longrightarrow> (\<And>v. stays I (k v)) \<Longrightarrow> stays I (State_Monad.bind m k)"
  by (auto simp: stays_def wp_simps intro: wp_mono)

lemma stays_tryE: "stays I m \<Longrightarrow> (\<And>v. stays I (k v)) \<Longrightarrow> stays I (tryE m k)"
  by (auto simp: tryE_def intro!: stays_bind stays_basic split: sum.split)

lemma stays_catchE: "stays I m \<Longrightarrow> (\<And>e. stays I (h e)) \<Longrightarrow> (\<And>v. stays I (k v)) \<Longrightarrow> stays I (catchE m h k)"
  by (auto simp: catchE_def intro!: stays_bind split: sum.split)

lemma stays_if: "(b \<Longrightarrow> stays I m) \<Longrightarrow> (\<not> b \<Longrightarrow> stays I n) \<Longrightarrow> stays I (if b then m else n)"
  by simp

lemma stays_case:
  "stays I m \<Longrightarrow> (\<And>v. stays I (f v)) \<Longrightarrow> stays I (case x of None \<Rightarrow> m | Some v \<Rightarrow> f v)"
  "(\<And>e. stays I (g e)) \<Longrightarrow> (\<And>v. stays I (h v)) \<Longrightarrow> stays I (case r of Inl e \<Rightarrow> g e | Inr v \<Rightarrow> h v)"
  "(\<And>a b. stays I (k a b)) \<Longrightarrow> stays I (case p of (a, b) \<Rightarrow> k a b)"
  by (auto split: option.split sum.split prod.split)

lemmas stays_control = stays_basic stays_bind stays_tryE stays_catchE stays_if stays_case

lemma fails_basic: "fails_in E (ok v)" "E e \<Longrightarrow> fails_in E (throw e)"
  by (simp_all add: fails_in_def wp_simps)

lemma fails_bind: "(\<And>v. fails_in E (k v)) \<Longrightarrow> fails_in E (State_Monad.bind m k)"
  by (simp add: fails_in_def wp_simps wp_run)

lemma fails_return: "(\<And>e. r = Inl e \<Longrightarrow> E e) \<Longrightarrow> fails_in E (State_Monad.return r)"
  by (simp add: fails_in_def wp_simps split: sum.split)

lemma fails_tryE: "fails_in E m \<Longrightarrow> (\<And>v. fails_in E (k v)) \<Longrightarrow> fails_in E (tryE m k)"
  by (simp add: fails_in_def wp_simps wp_run split: sum.splits)

lemma fails_catchE: "fails_in D m \<Longrightarrow> (\<And>e. D e \<Longrightarrow> fails_in E (h e)) \<Longrightarrow> (\<And>v. fails_in E (k v)) \<Longrightarrow>
    fails_in E (catchE m h k)"
  unfolding fails_in_def wp_catchE
  by (intro allI, rule wp_mono [where P = "\<lambda>r _. case r of Inl e \<Rightarrow> D e | Inr _ \<Rightarrow> True"]) (auto split: sum.splits)

lemma fails_mapE: "fails_in D m \<Longrightarrow> (\<And>e. D e \<Longrightarrow> E (f e)) \<Longrightarrow> fails_in E (mapE f m)"
  by (simp add: fails_in_def wp_simps wp_run split: sum.splits)

lemma fails_deferE: "fails_in E m \<Longrightarrow> fails_in E (deferE c m)"
  by (simp add: fails_in_def wp_simps wp_run)

lemma fails_zoom: "fails_in E m \<Longrightarrow> fails_in E (zoom sel upd m)"
  by (simp add: fails_in_def wp_simps wp_run)

lemma fails_eachE: "(\<And>i x. fails_in E (f i x)) \<Longrightarrow> fails_in E (eachE f i xs)"
  by (induction xs arbitrary: i) (simp_all add: fails_basic fails_tryE)

lemma fails_mono: "fails_in D m \<Longrightarrow> (\<And>e. D e \<Longrightarrow> E e) \<Longrightarrow> fails_in E m"
  by (simp add: fails_in_def wp_run split: sum.splits)

lemma fails_if: "(b \<Longrightarrow> fails_in E m) \<Longrightarrow> (\<not> b \<Longrightarrow> fails_in E n) \<Longrightarrow> fails_in E (if b then m else n)"
  by simp

lemma fails_case:
  "fails_in E m \<Longrightarrow> (\<And>v. fails_in E (f v)) \<Longrightarrow> fails_in E (case x of None \<Rightarrow> m | Some v \<Rightarrow> f v)"
  "(\<And>e. r = Inl e \<Longrightarrow> fails_in E (g e)) \<Longrightarrow> (\<And>v. fails_in E (h v)) \<Longrightarrow>
     fails_in E (case r of Inl e \<Rightarrow> g e | Inr v \<Rightarrow> h v)"
  "(\<And>a b. fails_in E (k a b)) \<Longrightarrow> fails_in E (case p of (a, b) \<Rightarrow> k a b)"
  by (auto split: option.split sum.split prod.split)

section \<open>Ownership of handles\<close>

text \<open>
  \<open>owns f L\<close>: the handles stored by \<open>f\<close> are exactly the live ones, and no two owners hold the
  same one. A live handle without an owner is a leak, a stored handle that is not live is a use
  after free waiting to happen, and two owners of one handle are a double free.
\<close>

definition owns :: "('a \<Rightarrow> 'p option) \<Rightarrow> ('p \<Rightarrow> bool) \<Rightarrow> bool" where
  "owns f L \<longleftrightarrow> (\<forall>p. L p \<longleftrightarrow> (\<exists>a. f a = Some p)) \<and> (\<forall>a b p. f a = Some p \<longrightarrow> f b = Some p \<longrightarrow> a = b)"

lemma owns_live: "owns f L \<Longrightarrow> f a = Some p \<Longrightarrow> L p"
  by (auto simp: owns_def)

lemma owns_inj: "owns f L \<Longrightarrow> f a = Some p \<Longrightarrow> f b = Some p \<Longrightarrow> a = b"
  by (auto simp: owns_def)

lemma owns_owner: "owns f L \<Longrightarrow> L p \<Longrightarrow> \<exists>a. f a = Some p"
  by (auto simp: owns_def)

lemma owns_give:
  assumes "owns f L" and "f a = None" and "\<not> L p"
  shows "owns (f(a := Some p)) (L(p := True))"
proof -
  from assms have live: "L q = (\<exists>b. f b = Some q)" for q
    unfolding owns_def by blast
  have inj: "b = c" if "f b = Some q" "f c = Some q" for b c q
    using assms(1) that unfolding owns_def by blast
  have no: "f b \<noteq> Some p" for b
    using live assms(3) by blast
  have "(L(p := True)) q = (\<exists>b. (f(a := Some p)) b = Some q)" for q
  proof (cases "q = p")
    case True
    then have "(f(a := Some p)) a = Some q" by simp
    with True show ?thesis by auto
  next
    case False
    have "(f(a := Some p)) b = Some q \<longleftrightarrow> f b = Some q" for b
      using False assms(2) by simp
    with False live show ?thesis by simp
  qed
  moreover have "b = c" if "(f(a := Some p)) b = Some q" "(f(a := Some p)) c = Some q" for b c q
    using that no inj by (auto split: if_splits)
  ultimately show ?thesis unfolding owns_def by blast
qed

lemma owns_drop:
  assumes "owns f L" and "f a = Some p"
  shows "owns (f(a := None)) (L(p := False))"
proof -
  from assms(1) have live: "L q = (\<exists>b. f b = Some q)" for q
    unfolding owns_def by blast
  have inj: "b = c" if "f b = Some q" "f c = Some q" for b c q
    using assms(1) that unfolding owns_def by blast
  have "(L(p := False)) q = (\<exists>b. (f(a := None)) b = Some q)" for q
  proof (cases "q = p")
    case True
    have "(f(a := None)) b \<noteq> Some q" for b
      using inj [OF assms(2)] True by auto
    with True show ?thesis by simp
  next
    case False
    have "(f(a := None)) b = Some q \<longleftrightarrow> f b = Some q" for b
      using False assms(2) by simp
    with False live show ?thesis by simp
  qed
  moreover have "b = c" if "(f(a := None)) b = Some q" "(f(a := None)) c = Some q" for b c q
    using that inj by (auto split: if_splits)
  ultimately show ?thesis unfolding owns_def by blast
qed

lemma owns_empty: "owns (\<lambda>_. None) (\<lambda>_. False)"
  by (simp add: owns_def)

section \<open>Counting open handles\<close>

definition count_upto :: "nat \<Rightarrow> (nat \<Rightarrow> bool) \<Rightarrow> int" where
  "count_upto n P = int (length (filter P [0..<n]))"

lemma count_upto_0 [simp]: "count_upto 0 P = 0"
  by (simp add: count_upto_def)

lemma count_upto_Suc: "count_upto (Suc n) P = count_upto n P + (if P n then 1 else 0)"
  by (simp add: count_upto_def)

lemma count_upto_cong: "(\<And>i. i < n \<Longrightarrow> P i = Q i) \<Longrightarrow> count_upto n P = count_upto n Q"
  by (auto simp: count_upto_def intro!: arg_cong [where f = length] filter_cong)

lemma count_upto_nonneg [simp]: "0 \<le> count_upto n P"
  by (simp add: count_upto_def)

lemma count_upto_none: "(\<And>i. i < n \<Longrightarrow> \<not> P i) \<Longrightarrow> count_upto n P = 0"
  by (simp add: count_upto_def)

lemma count_upto_zero_iff: "count_upto n P = 0 \<longleftrightarrow> (\<forall>i < n. \<not> P i)"
  by (auto simp: count_upto_def filter_empty_conv)

lemma count_upto_change:
  assumes "k < n" and "\<And>i. i \<noteq> k \<Longrightarrow> P' i = P i"
  shows "count_upto n P' = count_upto n P - (if P k then 1 else 0) + (if P' k then 1 else 0)"
  using assms(1)
proof (induction n)
  case 0
  then show ?case by simp
next
  case (Suc n)
  show ?case
  proof (cases "k = n")
    case True
    have "count_upto n P' = count_upto n P"
      using True assms(2) by (intro count_upto_cong) auto
    with True show ?thesis by (simp add: count_upto_Suc)
  next
    case False
    with Suc.prems have "k < n" by simp
    with Suc.IH False assms(2) show ?thesis by (simp add: count_upto_Suc)
  qed
qed

section \<open>C and Go integers\<close>

text \<open>\<^verbatim>\<open>C.int(x)\<close> of a Go \<^verbatim>\<open>int\<close>: the low 32 bits, read as two's complement.\<close>

definition c_int :: "int \<Rightarrow> int" where
  "c_int x = sint (word_of_int x :: 32 word)"

lemma c_int_id: "- (2 ^ 31) \<le> x \<Longrightarrow> x < 2 ^ 31 \<Longrightarrow> c_int x = x"
  by (simp add: c_int_def signed_take_bit_int_eq_self_iff sint_sbintrunc')

lemma c_int_range: "- (2 ^ 31) \<le> c_int x \<and> c_int x < 2 ^ 31"
  using sint_range_size [of "word_of_int x :: 32 word"] by (simp add: c_int_def word_size)

definition in_int64 :: "int \<Rightarrow> bool" where
  "in_int64 v \<longleftrightarrow> - (2 ^ 63) \<le> v \<and> v < 2 ^ 63"

text \<open>\<^verbatim>\<open>float64\<close> values are kept as their IEEE 754 bit patterns.\<close>

definition float_special :: "64 word \<Rightarrow> bool" where
  "float_special w \<longleftrightarrow> take_bit 11 (drop_bit 52 w) = 0x7FF"

text \<open>\<^verbatim>\<open>math.IsNaN(value)\<close> and \<^verbatim>\<open>math.IsInf(value, 0)\<close>\<close>

definition is_nan :: "64 word \<Rightarrow> bool" where
  "is_nan w \<longleftrightarrow> float_special w \<and> take_bit 52 w \<noteq> 0"

definition is_inf :: "64 word \<Rightarrow> bool" where
  "is_inf w \<longleftrightarrow> float_special w \<and> take_bit 52 w = 0"

end
