(* ===== verification/Cube_Text.thy ===== *)
theory Cube_Text
  imports Cube_Prelude
begin

text \<open>
  What the driver uses of Go's \<^verbatim>\<open>strings\<close> and \<^verbatim>\<open>strconv\<close> packages and of C strings. A Go string is a
  sequence of bytes, so it is modelled by \<^typ>\<open>string\<close>, a list of 8-bit characters; no decoding
  is implied.
\<close>

section \<open>Searching and NUL bytes\<close>

definition nul :: char where
  "nul = CHR 0x00"

text \<open>\<^verbatim>\<open>strings.IndexByte(s, 0) >= 0\<close>\<close>

definition has_nul :: "string \<Rightarrow> bool" where
  "has_nul s \<longleftrightarrow> List.member s nul"

text \<open>What a C callee reads from \<^verbatim>\<open>C.CString(s)\<close>, and Go from \<^verbatim>\<open>C.GoString\<close>: the bytes before the first NUL.\<close>

definition c_string :: "string \<Rightarrow> string" where
  "c_string s = takeWhile (\<lambda>c. c \<noteq> nul) s"

lemma c_string_id [simp]: "\<not> has_nul s \<Longrightarrow> c_string s = s"
  by (auto simp: has_nul_def c_string_def)

lemma c_string_no_nul [simp]: "\<not> has_nul (c_string s)"
  by (auto simp: has_nul_def c_string_def dest: set_takeWhileD)

lemma c_string_cut: "\<not> has_nul pre \<Longrightarrow> c_string (pre @ nul # post) = pre"
  by (auto simp: has_nul_def c_string_def takeWhile_append)

lemma c_string_idem [simp]: "c_string (c_string s) = c_string s"
  by simp

text \<open>\<^verbatim>\<open>strings.Contains(s, needle)\<close>\<close>

fun str_contains :: "string \<Rightarrow> string \<Rightarrow> bool" where
  "str_contains [] needle \<longleftrightarrow> needle = []"
| "str_contains (c # cs) needle \<longleftrightarrow> take (length needle) (c # cs) = needle \<or> str_contains cs needle"

lemma str_contains_iff: "str_contains s needle \<longleftrightarrow> (\<exists>pre post. s = pre @ needle @ post)"
proof (induction s)
  case Nil
  then show ?case by auto
next
  case (Cons c cs)
  have "take (length needle) (c # cs) = needle \<longleftrightarrow> (\<exists>post. c # cs = needle @ post)"
    by (metis append_take_drop_id append_eq_conv_conj)
  moreover have "(\<exists>pre post. c # cs = pre @ needle @ post) \<longleftrightarrow>
      (\<exists>post. c # cs = needle @ post) \<or> (\<exists>pre post. cs = pre @ needle @ post)"
    by (metis append_Cons append_Nil list.sel(3) neq_Nil_conv)
  ultimately show ?case using Cons.IH by simp
qed

section \<open>Lower case\<close>

definition lower_char :: "char \<Rightarrow> char" where
  "lower_char c = (if 65 \<le> (of_char c :: nat) \<and> (of_char c :: nat) \<le> 90
     then char_of (of_char c + 32 :: nat) else c)"

text \<open>
  \<^verbatim>\<open>strings.ToLower\<close> as far as a search for ASCII text can see it. Go maps rune by rune; the only
  non-ASCII runes whose lower case is ASCII are U+0130 (bytes C4 B0, to \<open>i\<close>) and U+212A (bytes
  E2 84 AA, to \<open>k\<close>). Every other non-ASCII rune maps to a non-ASCII rune, which no ASCII needle
  matches, and is left alone here.
\<close>

fun to_lower :: "string \<Rightarrow> string" where
  "to_lower [] = []"
| "to_lower (c # cs) =
     (if c = CHR 0xC4 \<and> take 1 cs = [CHR 0xB0] then CHR ''i'' # to_lower (drop 1 cs)
      else if c = CHR 0xE2 \<and> take 2 cs = [CHR 0x84, CHR 0xAA] then CHR ''k'' # to_lower (drop 2 cs)
      else lower_char c # to_lower cs)"

section \<open>Decimal integers\<close>

definition digit_char :: "nat \<Rightarrow> char" where
  "digit_char d = char_of (48 + d)"

definition digit_value :: "char \<Rightarrow> nat option" where
  "digit_value c = (if 48 \<le> (of_char c :: nat) \<and> (of_char c :: nat) \<le> 57
     then Some (of_char c - 48) else None)"

text \<open>\<^verbatim>\<open>snprintf(buffer, size, "%lld", value)\<close>\<close>

fun show_nat :: "nat \<Rightarrow> string" where
  "show_nat n = (if n < 10 then [digit_char n] else show_nat (n div 10) @ [digit_char (n mod 10)])"

declare show_nat.simps [simp del]

definition show_int :: "int \<Rightarrow> string" where
  "show_int v = (if v < 0 then CHR ''-'' # show_nat (nat (- v)) else show_nat (nat v))"

fun digits_value :: "nat \<Rightarrow> string \<Rightarrow> nat option" where
  "digits_value acc [] = Some acc"
| "digits_value acc (c # cs) =
     (case digit_value c of None \<Rightarrow> None | Some d \<Rightarrow> digits_value (acc * 10 + d) cs)"

text \<open>\<^verbatim>\<open>strconv.ParseUint(s, 10, 64)\<close> without its range check, which the callers subsume.\<close>

definition parse_uint :: "string \<Rightarrow> nat option" where
  "parse_uint s = (if s = [] then None else digits_value 0 s)"

text \<open>
  \<^verbatim>\<open>strconv.ParseInt(s, 10, 64)\<close> and, on a 64-bit platform, \<^verbatim>\<open>strconv.Atoi(s)\<close>; \<open>None\<close> is any error.
\<close>

definition parse_int64 :: "string \<Rightarrow> int option" where
  "parse_int64 s =
     (if s = [] then None
      else if hd s = CHR ''-'' then
        (case parse_uint (tl s) of None \<Rightarrow> None
         | Some u \<Rightarrow> if int u > 2 ^ 63 then None else Some (- int u))
      else
        (case parse_uint (if hd s = CHR ''+'' then tl s else s) of None \<Rightarrow> None
         | Some u \<Rightarrow> if int u \<ge> 2 ^ 63 then None else Some (int u)))"

lemma digit_value_char: "d < 10 \<Longrightarrow> digit_value (digit_char d) = Some d"
  by (simp add: digit_value_def digit_char_def)

lemma of_char_digit [simp]: "d < 10 \<Longrightarrow> (of_char (digit_char d) :: nat) = 48 + d"
  by (simp add: digit_char_def)

lemma digit_char_no_sign:
  assumes "d < 10"
  shows "digit_char d \<noteq> CHR ''-''" and "digit_char d \<noteq> CHR ''+''"
proof -
  have "(of_char (CHR ''-'') :: nat) = 45" "(of_char (CHR ''+'') :: nat) = 43"
    by simp_all
  with of_char_digit [OF assms] show "digit_char d \<noteq> CHR ''-''" "digit_char d \<noteq> CHR ''+''"
    by (auto dest!: arg_cong [where f = "of_char :: char \<Rightarrow> nat"])
qed

lemma digits_value_append:
  "digits_value acc (xs @ ys) =
     (case digits_value acc xs of None \<Rightarrow> None | Some v \<Rightarrow> digits_value v ys)"
  by (induction xs arbitrary: acc) (auto split: option.splits)

lemma show_nat_nonempty: "show_nat n \<noteq> []"
  by (subst show_nat.simps) simp

lemma digits_value_show_nat: "digits_value 0 (show_nat n) = Some n"
proof (induction n rule: show_nat.induct)
  case (1 n)
  show ?case
  proof (cases "n < 10")
    case True
    then show ?thesis by (subst show_nat.simps) (simp add: digit_value_char)
  next
    case False
    then have "digits_value 0 (show_nat (n div 10)) = Some (n div 10)"
      by (rule "1.IH")
    with False show ?thesis
      by (subst show_nat.simps) (simp add: digits_value_append digit_value_char)
  qed
qed

lemma hd_show_nat: "\<exists>d < 10. hd (show_nat n) = digit_char d"
proof (induction n rule: show_nat.induct)
  case (1 n)
  show ?case
  proof (cases "n < 10")
    case True
    then show ?thesis by (subst show_nat.simps) auto
  next
    case False
    then show ?thesis
      using "1.IH" by (subst show_nat.simps) (simp add: show_nat_nonempty)
  qed
qed

lemma hd_show_nat_no_sign: "hd (show_nat n) \<noteq> CHR ''-''" "hd (show_nat n) \<noteq> CHR ''+''"
  using hd_show_nat [of n] digit_char_no_sign by metis+

lemma parse_uint_show_nat: "parse_uint (show_nat n) = Some n"
  by (simp add: parse_uint_def show_nat_nonempty digits_value_show_nat)

text \<open>What is printed for a 64-bit integer parses back to it.\<close>

lemma parse_show_int: "in_int64 v \<Longrightarrow> parse_int64 (show_int v) = Some v"
  by (auto simp: in_int64_def parse_int64_def show_int_def parse_uint_show_nat
      show_nat_nonempty hd_show_nat_no_sign)

text \<open>Whatever the input, an accepted integer fits 64 bits.\<close>

lemma parse_int64_range: "parse_int64 s = Some v \<Longrightarrow> in_int64 v"
  by (auto simp: parse_int64_def in_int64_def split: if_splits option.splits)

section \<open>The text codec as an interface\<close>

text \<open>
  A value crosses to the server as text and comes back as text. The client of such a codec relies
  on one law only: decoding what was encoded gives the value back.
\<close>

locale text_codec =
  fixes dom_ok :: "'v \<Rightarrow> bool"
    and enc :: "'v \<Rightarrow> string"
    and dec :: "string \<Rightarrow> 'v option"
  assumes dec_enc: "dom_ok v \<Longrightarrow> dec (enc v) = Some v"
begin

lemma enc_inj: "dom_ok v \<Longrightarrow> dom_ok w \<Longrightarrow> enc v = enc w \<Longrightarrow> v = w"
  using dec_enc by (metis option.inject)

lemma dec_enc_map: "(\<And>v. v \<in> set vs \<Longrightarrow> dom_ok v) \<Longrightarrow> map (dec \<circ> enc) vs = map Some vs"
  by (simp add: dec_enc)

end

interpretation int64_codec: text_codec in_int64 show_int parse_int64
  by unfold_locales (rule parse_show_int)

lemma show_nat_chars: "list_all (\<lambda>c. (of_char c :: nat) \<ge> 48) (show_nat n)"
proof (induction n rule: show_nat.induct)
  case (1 n)
  then show ?case
    by (cases "n < 10") (simp_all add: show_nat.simps [of n])
qed

lemma show_int_no_nul: "\<not> has_nul (show_int v)"
proof -
  have "nul \<notin> set (show_nat n)" for n
    using show_nat_chars [of n] by (auto simp: list_all_iff nul_def)
  then show ?thesis by (auto simp: has_nul_def show_int_def nul_def)
qed

end
