(* ===== verification/Cube_Errors.thy ===== *)
theory Cube_Errors
  imports Cube_Text
begin

text \<open>
  The error values of all three packages (\<^verbatim>\<open>internal/csdk/errors.go\<close>, \<^verbatim>\<open>cubesql/errors.go\<close> and the
  sentinels of \<^verbatim>\<open>database/cubesql\<close>), Go's \<^verbatim>\<open>errors.Is\<close> and \<^verbatim>\<open>errors.As\<close> on them, the translation of
  native errors to public ones and the classification of SDK errors.
\<close>

section \<open>Error values\<close>

text \<open>\<^verbatim>\<open>type ErrorKind uint8\<close> and its constants\<close>

datatype error_kind =
    ErrorUnknown
  | ErrorAuthentication
  | ErrorAuthorization
  | ErrorNetwork
  | ErrorProtocol
  | ErrorServer
  | ErrorTimeout

text \<open>\<^verbatim>\<open>func (kind ErrorKind) String() string\<close>\<close>

fun kind_string :: "error_kind \<Rightarrow> string" where
  "kind_string ErrorAuthentication = ''authentication''"
| "kind_string ErrorAuthorization = ''authorization''"
| "kind_string ErrorNetwork = ''network''"
| "kind_string ErrorProtocol = ''protocol''"
| "kind_string ErrorServer = ''server''"
| "kind_string ErrorTimeout = ''timeout''"
| "kind_string ErrorUnknown = ''unknown''"

text \<open>
  A non-nil Go \<^verbatim>\<open>error\<close>. \<open>Cs...\<close> are the values of package csdk, \<open>Err...\<close> the sentinels of package
  cubesql, \<open>SdkError\<close> is \<^verbatim>\<open>*cubesql.Error\<close>, \<open>Ctx...\<close> are the values of \<^verbatim>\<open>ctx.Err()\<close>, \<open>Joined\<close> is the
  result of \<^verbatim>\<open>errors.Join\<close>, and the rest belongs to the \<^verbatim>\<open>database/sql\<close> adapter: \<open>InvalidDSN t\<close> is
  \<^verbatim>\<open>fmt.Errorf("%w: t", ErrInvalidDSN)\<close>, \<open>ErrConvert\<close> an error of
  \<^verbatim>\<open>driver.DefaultParameterConverter\<close> and \<open>ErrParameterType\<close> the unsupported-type error.
\<close>

datatype gerror =
    CsClosed | CsBusy | CsInvalidArgument | CsUnsupported
  | CsError int string
  | ErrClosed | ErrBusy | ErrInvalidArgument | ErrUnsupported | ErrScan | ErrTxDone
  | ErrAuthentication | ErrAuthorization | ErrNetwork | ErrProtocol | ErrServer | ErrTimeout
  | SdkError int string error_kind
  | CtxCanceled | CtxDeadlineExceeded
  | Joined "gerror list"
  | ErrInvalidDSN | InvalidDSN string
  | ErrBadConn | ErrReadOnlyTransaction | ErrTransactionIsolation | ErrNamedParameters
  | ErrConvert | ErrParameterType | IoEOF

text \<open>\<^verbatim>\<open>func (e *Error) Unwrap() error\<close>, for an error of the given kind\<close>

fun kind_sentinel :: "error_kind \<Rightarrow> gerror option" where
  "kind_sentinel ErrorAuthentication = Some ErrAuthentication"
| "kind_sentinel ErrorAuthorization = Some ErrAuthorization"
| "kind_sentinel ErrorNetwork = Some ErrNetwork"
| "kind_sentinel ErrorProtocol = Some ErrProtocol"
| "kind_sentinel ErrorServer = Some ErrServer"
| "kind_sentinel ErrorTimeout = Some ErrTimeout"
| "kind_sentinel ErrorUnknown = None"

text \<open>
  \<^verbatim>\<open>errors.Is(err, target)\<close> for a sentinel target: the error itself, or one reached by unwrapping.
  (A pointer error such as \<open>SdkError\<close> is never a target.)
\<close>

fun err_is :: "gerror \<Rightarrow> gerror \<Rightarrow> bool" where
  "err_is (SdkError c m k) t \<longleftrightarrow> kind_sentinel k = Some t"
| "err_is (Joined es) t \<longleftrightarrow> list_ex (\<lambda>e. err_is e t) es"
| "err_is (InvalidDSN m) t \<longleftrightarrow> t = ErrInvalidDSN \<or> t = InvalidDSN m"
| "err_is e t \<longleftrightarrow> e = t"

text \<open>\<^verbatim>\<open>errors.As(err, &native)\<close> for \<^verbatim>\<open>*csdk.Error\<close>, and for \<^verbatim>\<open>*cubesql.Error\<close>: the first in the tree\<close>

fun as_cs_error :: "gerror \<Rightarrow> (int \<times> string) option" where
  "as_cs_error (CsError c m) = Some (c, m)"
| "as_cs_error (Joined es) = foldr (\<lambda>e r. case as_cs_error e of None \<Rightarrow> r | Some x \<Rightarrow> Some x) es None"
| "as_cs_error _ = None"

fun as_sdk_error :: "gerror \<Rightarrow> (int \<times> string \<times> error_kind) option" where
  "as_sdk_error (SdkError c m k) = Some (c, m, k)"
| "as_sdk_error (Joined es) = foldr (\<lambda>e r. case as_sdk_error e of None \<Rightarrow> r | Some x \<Rightarrow> Some x) es None"
| "as_sdk_error _ = None"

text \<open>\<^verbatim>\<open>errors.Join(a, b)\<close>: nil when both are nil, else an error holding the non-nil ones in order\<close>

definition join_errors :: "gerror option \<Rightarrow> gerror option \<Rightarrow> gerror option" where
  "join_errors a b =
     (case (case a of None \<Rightarrow> [] | Some x \<Rightarrow> [x]) @ (case b of None \<Rightarrow> [] | Some y \<Rightarrow> [y]) of
        [] \<Rightarrow> None
      | es \<Rightarrow> Some (Joined es))"

section \<open>Texts of SDK errors\<close>

text \<open>\<^verbatim>\<open>func (e *Error) Error() string\<close>, the same in both packages\<close>

definition sdk_error_text :: "int \<Rightarrow> string \<Rightarrow> string" where
  "sdk_error_text code message =
     (if message = [] then ''cubesql: SDK error '' @ show_int code
      else ''cubesql: SDK error '' @ show_int code @ '': '' @ message)"

section \<open>Classification\<close>

definition classifyError :: "int \<Rightarrow> string \<Rightarrow> error_kind" where
  "classifyError code message =
     (let lower = to_lower message in
      if code = 7056 \<or> str_contains lower ''authentication failed'' \<or>
         str_contains lower ''invalid password'' \<or> str_contains lower ''invalid username''
      then ErrorAuthentication
      else if code = 810 \<or> str_contains lower ''timeout'' \<or> str_contains lower ''timed out''
      then ErrorTimeout
      else if code = 800 \<or> code = 802 \<or> code = 805 \<or> code = 820 \<or> code = 830 \<or> code = 888 \<or>
         code = -6 \<or> code = -7 \<or> code = -8 \<or> str_contains lower ''csql_socket'' \<or>
         str_contains lower ''sock_read'' \<or> str_contains lower ''sock_write'' \<or>
         str_contains lower ''getaddrinfo'' \<or> str_contains lower ''connection reset'' \<or>
         str_contains lower ''connection refused'' \<or> str_contains lower ''broken pipe''
      then ErrorNetwork
      else if (code \<ge> 835 \<and> code \<le> 870) \<or> code = -4 \<or> code = -5 \<or>
         str_contains lower ''protocol'' \<or> str_contains lower ''signature header''
      then ErrorProtocol
      else if code > 0
      then (if str_contains lower ''not authorized'' \<or> str_contains lower ''permission'' \<or>
               str_contains lower ''privilege'' \<or> str_contains lower ''access denied''
            then ErrorAuthorization else ErrorServer)
      else ErrorUnknown)"

section \<open>Translation of native errors\<close>

text \<open>\<^verbatim>\<open>func publicError(err error) error\<close> for a non-nil error; nil stays nil\<close>

definition publicError :: "gerror \<Rightarrow> gerror" where
  "publicError err =
     (if err_is err CsClosed then ErrClosed
      else if err_is err CsBusy then ErrBusy
      else if err_is err CsInvalidArgument then ErrInvalidArgument
      else if err_is err CsUnsupported then ErrUnsupported
      else (case as_cs_error err of
              Some (code, message) \<Rightarrow> SdkError code message (classifyError code message)
            | None \<Rightarrow> err))"

section \<open>Lemmas\<close>

text \<open>Errors that mention a value of the private package anywhere in their tree.\<close>

fun mentions_csdk :: "gerror \<Rightarrow> bool" where
  "mentions_csdk (Joined es) \<longleftrightarrow> list_ex mentions_csdk es"
| "mentions_csdk (CsError c m) \<longleftrightarrow> True"
| "mentions_csdk e \<longleftrightarrow> e = CsClosed \<or> e = CsBusy \<or> e = CsInvalidArgument \<or> e = CsUnsupported"

lemma foldr_first_None:
  "foldr (\<lambda>e r. case f e of None \<Rightarrow> r | Some x \<Rightarrow> Some x) es None = None \<longleftrightarrow>
     (\<forall>e \<in> set es. f e = None)"
  by (induction es) (auto split: option.splits)

lemma kind_sentinel_public [simp]:
  "kind_sentinel k \<noteq> Some CsClosed" "kind_sentinel k \<noteq> Some CsBusy"
  "kind_sentinel k \<noteq> Some CsInvalidArgument" "kind_sentinel k \<noteq> Some CsUnsupported"
  by (cases k; simp)+

lemma mentions_csdk_iff:
  "mentions_csdk e \<longleftrightarrow>
     err_is e CsClosed \<or> err_is e CsBusy \<or> err_is e CsInvalidArgument \<or> err_is e CsUnsupported \<or>
     as_cs_error e \<noteq> None"
proof (induction e rule: mentions_csdk.induct)
  case (1 es)
  then show ?case
    by (simp only: mentions_csdk.simps err_is.simps as_cs_error.simps list_ex_iff foldr_first_None)
      blast
qed simp_all

lemma classify_unknown_only:
  "classifyError code message = ErrorUnknown \<Longrightarrow> code \<le> 0 \<and> code \<notin> {-8 .. -4}"
  by (auto simp: classifyError_def Let_def split: if_splits)

lemma kind_sentinel_inj: "kind_sentinel k = Some s \<Longrightarrow> kind_sentinel k' = Some s \<Longrightarrow> k = k'"
  by (cases k; cases k') auto

lemma publicError_sentinels [simp]:
  "publicError CsClosed = ErrClosed"
  "publicError CsBusy = ErrBusy"
  "publicError CsInvalidArgument = ErrInvalidArgument"
  "publicError CsUnsupported = ErrUnsupported"
  by (simp_all add: publicError_def)

lemma publicError_CsError [simp]:
  "publicError (CsError c m) = SdkError c m (classifyError c m)"
  by (simp add: publicError_def)

lemma publicError_public: "\<not> mentions_csdk e \<Longrightarrow> publicError e = e"
  by (auto simp: mentions_csdk_iff publicError_def split: option.splits)

text \<open>C37: No error of the private package ever reaches a caller of the public one:
  whatever error goes in, the translated error mentions no csdk sentinel and no csdk error
  anywhere in its tree; and translating twice changes nothing.\<close>

theorem publicError_hides_csdk:
  "\<not> mentions_csdk (publicError e) \<and> publicError (publicError e) = publicError e"
proof -
  have "\<not> mentions_csdk (publicError e)"
  proof (cases "mentions_csdk e")
    case True
    then show ?thesis
      by (auto simp: mentions_csdk_iff publicError_def split: option.splits)
  next
    case False
    then show ?thesis by (simp add: publicError_public)
  qed
  then show ?thesis by (simp add: publicError_public)
qed

text \<open>
  The categories as a table, in order of precedence: a sentinel, the codes that mean it whatever the
  message says, and the phrases that mean it in a message, in any case of letters. A positive code no row
  matches is the server's: an authorization failure when the message says so, else an SQL failure.
\<close>

definition category_rules :: "(gerror \<times> int list \<times> string list) list" where
  "category_rules =
    [(ErrAuthentication, [7056], [''authentication failed'', ''invalid password'', ''invalid username'']),
     (ErrTimeout, [810], [''timeout'', ''timed out'']),
     (ErrNetwork, [800, 802, 805, 820, 830, 888, -6, -7, -8],
        [''csql_socket'', ''sock_read'', ''sock_write'', ''getaddrinfo'', ''connection reset'', ''connection refused'',
         ''broken pipe'']),
     (ErrProtocol, [835..870] @ [-4, -5], [''protocol'', ''signature header''])]"

definition server_rules :: "(gerror \<times> int list \<times> string list) list" where
  "server_rules =
    [(ErrAuthorization, [], [''not authorized'', ''permission'', ''privilege'', ''access denied''])]"

definition rule_matches :: "int \<Rightarrow> string \<Rightarrow> gerror \<times> int list \<times> string list \<Rightarrow> bool" where
  "rule_matches code message = (\<lambda>(_, codes, phrases). code \<in> set codes \<or> list_ex (str_contains (to_lower message)) phrases)"

definition category :: "int \<Rightarrow> string \<Rightarrow> gerror option" where
  "category code message =
     (case filter (rule_matches code message) (category_rules @ (if code > 0 then server_rules else [])) of
        (s, _) # _ \<Rightarrow> Some s
      | [] \<Rightarrow> if code > 0 then Some ErrServer else None)"

lemma kind_of_category: "kind_sentinel (classifyError code message) = category code message"
proof -
  have codes: "code \<in> set [835..870] \<longleftrightarrow> 835 \<le> code \<and> code \<le> 870" by (simp only: set_upto atLeastAtMost_iff)
  show ?thesis
    unfolding category_def category_rules_def server_rules_def classifyError_def Let_def rule_matches_def
    by (simp only: append.simps filter.simps prod.case list_ex_Nil_iff list_ex_Cons_iff list.set codes set_append
        Un_iff insert_iff empty_iff simp_thms if_distrib [of kind_sentinel] kind_sentinel.simps disj_assoc)
      (auto simp: codes split: if_splits)
qed

text \<open>C38: A copied SDK error keeps its code and message, and \<^verbatim>\<open>errors.Is\<close> finds in it exactly the one
  sentinel the table of categories gives for them, or none: for every code and message, whether the code
  or a phrase decides, and with the table's precedence when several match.\<close>

theorem publicError_category:
  "let e = publicError (CsError code message) in
   map_option (\<lambda>(c, m, _). (c, m)) (as_sdk_error e) = Some (code, message) \<and>
   {s. err_is e s} = set_option (category code message)"
  by (simp add: Let_def kind_of_category set_eq_iff elem_set)

text \<open>C39: Classification leaves an SDK error without a category only when its code is not
  positive and is none of the client codes -4 to -8; a positive (server or socket) code always gets
  a category, and an authentication code always the authentication one whatever the message says.\<close>

theorem classify_total:
  "(classifyError code message = ErrorUnknown \<longrightarrow> code \<le> 0 \<and> code \<notin> {-8 .. -4}) \<and>
   (code > 0 \<longrightarrow> kind_sentinel (classifyError code message) \<noteq> None) \<and>
   classifyError 7056 message = ErrorAuthentication"
proof -
  have "kind_sentinel (classifyError code message) \<noteq> None" if "code > 0"
    using classify_unknown_only [of code message] that
    by (cases "classifyError code message") auto
  then show ?thesis
    using classify_unknown_only [of code message] by (simp add: classifyError_def)
qed

theorem classify_total_witness:
  "classifyError (-1) ''boom'' = ErrorUnknown \<and> (-1::int) \<notin> {-8 .. -4} \<and>
   kind_sentinel (classifyError 1 ''SQL error'') \<noteq> None"
proof -
  have "classifyError (-1) ''boom'' = ErrorUnknown" by code_simp
  with classify_total [of "-1" "''boom''"] classify_total [of 1 "''SQL error''"]
  show ?thesis by simp
qed

end
