(* ===== verification/Cube_Native.thy ===== *)
theory Cube_Native
  imports Cube_Errors
begin

text \<open>
  The C bridge \<^verbatim>\<open>internal/csdk/bridge.c\<close>: its four structs on a heap of C allocations, and one
  definition per \<^verbatim>\<open>csqlgo_*\<close> function. The vendored CubeSQL SDK behind it (\<^verbatim>\<open>cubesql_*\<close>) and
  \<^verbatim>\<open>malloc\<close> are a parameter \<open>S\<close>: each call is appended to the history and its result is read from
  \<open>S\<close> at that history, so a fixed but arbitrary \<open>S\<close> stands for every behaviour of SDK, server
  and allocator. Dereferencing or freeing an address that is not allocated, and passing the SDK a
  handle it has already destroyed, sets \<open>fault\<close>.
\<close>

section \<open>Calls that leave the bridge\<close>

text \<open>A value handed to \<^verbatim>\<open>cubesql_vmbind_*\<close>; texts and BLOBs are the bytes the SDK may read.\<close>

datatype vm_value =
    VmInt64 int
  | VmDouble "64 word"
  | VmText string
  | VmBlob string
  | VmNull
  | VmZeroBlob int

text \<open>
  Calls of the SDK with their arguments, newest first in a history. Handles are addresses.
  \<open>EAlloc\<close> is one \<^verbatim>\<open>malloc\<close> or \<^verbatim>\<open>calloc\<close>.
\<close>

datatype event =
    EConnect string int string string int int
  | EDisconnect nat bool
  | EPing nat
  | EExecute nat string
  | ESetDatabase nat "string option"
  | EBegin nat
  | ECommit nat
  | ERollback nat
  | EChanges nat
  | EAffectedRows nat
  | ELastRowID nat
  | EErrcode nat
  | EErrmsg nat
  | ESelect nat string
  | EBind nat string "(int \<times> int \<times> string option) list"
  | EVmPrepare nat string
  | EVmBind nat int vm_value
  | EVmExecute nat
  | EVmSelect nat
  | EVmClose nat
  | ECursorRows nat
  | ECursorColumns nat
  | ECursorType nat int
  | ECursorSeek nat int
  | ECursorField nat int int
  | ECursorFree nat
  | EAlloc

text \<open>The calls that talk to the server; the others read or free local memory.\<close>

fun remote :: "event \<Rightarrow> bool" where
  "remote (EErrcode _) = False"
| "remote (EErrmsg _) = False"
| "remote (ECursorRows _) = False"
| "remote (ECursorColumns _) = False"
| "remote (ECursorType _ _) = False"
| "remote (ECursorSeek _ _) = False"
| "remote (ECursorField _ _ _) = False"
| "remote (ECursorFree _) = False"
| "remote EAlloc = False"
| "remote _ = True"

text \<open>
  What the SDK answers to the newest call of a history: an \<^verbatim>\<open>int\<close>, an \<^verbatim>\<open>int64\<close>, whether a pointer
  result is non-NULL, a C string, and a cursor field (\<open>Inr\<close> the bytes, or \<open>Inl n\<close> for NULL with
  the length out-parameter \<open>n\<close>). The length of a non-NULL field is that of its bytes: a negative one,
  on which \<^verbatim>\<open>C.GoBytes\<close> would panic, is left out of the model. \<open>fmt_g17\<close> is the C library's \<^verbatim>\<open>"%.17g"\<close> rendering.
\<close>

record sdk =
  r_int :: "event list \<Rightarrow> int"
  r_int64 :: "event list \<Rightarrow> int"
  r_ptr :: "event list \<Rightarrow> bool"
  r_text :: "event list \<Rightarrow> string"
  r_field :: "event list \<Rightarrow> int + string"
  fmt_g17 :: "64 word \<Rightarrow> string"

section \<open>State\<close>

text \<open>The structs of the bridge. \<^verbatim>\<open>csqldb*\<close>, \<^verbatim>\<open>csqlc*\<close> and \<^verbatim>\<open>csqlvm*\<close> are addresses; NULL is \<open>None\<close>.\<close>

record csqlgo_conn =
  db :: "nat option"

record csqlgo_cursor =
  cursor :: "nat option"

record csqlgo_stmt =
  vm :: "nat option"
  owner :: nat

record csqlgo_bind =
  bind_count :: int
  bind_values :: "string option list"
  bind_sizes :: "int list"
  bind_types :: "int list"

text \<open>The Go mutexes of all layers, by the address of the object that embeds them.\<close>

datatype lock =
    LCsConn nat | LCsBind nat
  | LConn nat | LRows nat | LStmt nat | LTx nat
  | LAdConn nat | LAdStmt nat | LAdTx nat

text \<open>
  The process below the Go code: the history, a clock that every server call and every context
  check advances, the C heap (addresses from \<open>brk\<close> on have never been handed out), the handles
  the SDK has created and not destroyed (a VM with the database it belongs to), and the locks the
  running goroutine holds.
\<close>

record native =
  hist :: "event list"
  clock :: nat
  brk :: nat
  c_conns :: "nat \<Rightarrow> csqlgo_conn option"
  c_cursors :: "nat \<Rightarrow> csqlgo_cursor option"
  c_stmts :: "nat \<Rightarrow> csqlgo_stmt option"
  c_binds :: "nat \<Rightarrow> csqlgo_bind option"
  dbs :: "nat \<Rightarrow> bool"
  cursors :: "nat \<Rightarrow> bool"
  vms :: "nat \<Rightarrow> nat option"
  fault :: bool
  held :: "lock list"
  stuck :: bool

definition native_init :: native where
  "native_init = \<lparr> hist = [], clock = 0, brk = 0, c_conns = (\<lambda>_. None), c_cursors = (\<lambda>_. None),
     c_stmts = (\<lambda>_. None), c_binds = (\<lambda>_. None), dbs = (\<lambda>_. False), cursors = (\<lambda>_. False),
     vms = (\<lambda>_. None), fault = False, held = [], stuck = False \<rparr>"

section \<open>Mutexes\<close>

text \<open>
  Go mutexes are not reentrant: locking one the goroutine already holds never returns. The model
  notes it in \<open>stuck\<close> (a read lock counts like a write lock, which is the stricter reading).
\<close>

definition acquire :: "lock \<Rightarrow> (native, unit) state" where
  "acquire l = modify (\<lambda>n. n\<lparr>held := l # held n, stuck := stuck n \<or> List.member (held n) l\<rparr>)"

definition release :: "lock \<Rightarrow> (native, unit) state" where
  "release l = modify (\<lambda>n. n\<lparr>held := remove1 l (held n)\<rparr>)"

section \<open>SDK and memory primitives\<close>

definition fail_ub :: "'a \<Rightarrow> (native, 'a) state" where
  "fail_ub x = do { _ \<leftarrow> modify (\<lambda>n. n\<lparr>fault := True\<rparr>); State_Monad.return x }"

text \<open>Append a call to the history and return the history to read the answer from.\<close>

definition log_call :: "event \<Rightarrow> (native, event list) state" where
  "log_call e = do {
     _ \<leftarrow> modify (\<lambda>n. n\<lparr>hist := e # hist n, clock := (if remote e then Suc (clock n) else clock n)\<rparr>);
     gets hist
   }"

definition malloc_ok :: "sdk \<Rightarrow> (native, bool) state" where
  "malloc_ok S = do { h \<leftarrow> log_call EAlloc; State_Monad.return (r_ptr S h) }"

definition new_addr :: "(native, nat) state" where
  "new_addr = do { p \<leftarrow> gets brk; _ \<leftarrow> modify (\<lambda>n. n\<lparr>brk := Suc p\<rparr>); State_Monad.return p }"

text \<open>An SDK call on a database, cursor or VM handle, which must not have been destroyed.\<close>

definition db_call :: "nat \<Rightarrow> event \<Rightarrow> (native, event list) state" where
  "db_call d e = do {
     alive \<leftarrow> gets (\<lambda>n. dbs n d);
     (if alive then log_call e else do { h \<leftarrow> log_call e; fail_ub h })
   }"

definition cursor_call :: "nat \<Rightarrow> event \<Rightarrow> (native, event list) state" where
  "cursor_call k e = do {
     alive \<leftarrow> gets (\<lambda>n. cursors n k);
     (if alive then log_call e else do { h \<leftarrow> log_call e; fail_ub h })
   }"

definition vm_call :: "nat \<Rightarrow> event \<Rightarrow> (native, event list) state" where
  "vm_call v e = do {
     alive \<leftarrow> gets (\<lambda>n. case vms n v of None \<Rightarrow> False | Some d \<Rightarrow> dbs n d);
     (if alive then log_call e else do { h \<leftarrow> log_call e; fail_ub h })
   }"

section \<open>Result codes\<close>

abbreviation (input) CSQLGO_OK :: int where "CSQLGO_OK \<equiv> 0"
abbreviation (input) CSQLGO_FIELD_NULL :: int where "CSQLGO_FIELD_NULL \<equiv> 1"
abbreviation (input) CSQLGO_ERR_INVALID :: int where "CSQLGO_ERR_INVALID \<equiv> - 10000"
abbreviation (input) CSQLGO_ERR_MEMORY :: int where "CSQLGO_ERR_MEMORY \<equiv> - 10001"
abbreviation (input) CUBESQL_NOERR :: int where "CUBESQL_NOERR \<equiv> 0"
abbreviation (input) CUBESQL_ERR :: int where "CUBESQL_ERR \<equiv> - 1"

abbreviation (input) BIND_DOUBLE :: int where "BIND_DOUBLE \<equiv> 2"
abbreviation (input) BIND_TEXT :: int where "BIND_TEXT \<equiv> 3"
abbreviation (input) BIND_BLOB :: int where "BIND_BLOB \<equiv> 4"
abbreviation (input) BIND_NULL :: int where "BIND_NULL \<equiv> 5"
abbreviation (input) BIND_INT64 :: int where "BIND_INT64 \<equiv> 8"

section \<open>Dereferencing the structs\<close>

text \<open>
  \<^verbatim>\<open>if (!csqlgo_valid_conn(conn)) return bad;\<close> followed by a use of \<^verbatim>\<open>conn->db\<close>: a NULL connection or
  one with a NULL database is refused, a freed one is undefined behaviour.
\<close>

definition with_conn :: "nat option \<Rightarrow> 'a \<Rightarrow> (nat \<Rightarrow> (native, 'a) state) \<Rightarrow> (native, 'a) state" where
  "with_conn conn bad k =
     (case conn of
        None \<Rightarrow> State_Monad.return bad
      | Some p \<Rightarrow> do {
          c \<leftarrow> gets (\<lambda>n. c_conns n p);
          (case c of
             None \<Rightarrow> fail_ub bad
           | Some s \<Rightarrow> (case db s of None \<Rightarrow> State_Monad.return bad | Some d \<Rightarrow> k d))
        })"

text \<open>\<^verbatim>\<open>if (cursor == NULL || cursor->cursor == NULL) return bad;\<close>\<close>

definition with_cursor :: "nat option \<Rightarrow> 'a \<Rightarrow> (nat \<Rightarrow> (native, 'a) state) \<Rightarrow> (native, 'a) state" where
  "with_cursor cur bad k =
     (case cur of
        None \<Rightarrow> State_Monad.return bad
      | Some p \<Rightarrow> do {
          c \<leftarrow> gets (\<lambda>n. c_cursors n p);
          (case c of
             None \<Rightarrow> fail_ub bad
           | Some s \<Rightarrow> (case cursor s of None \<Rightarrow> State_Monad.return bad | Some h \<Rightarrow> k h))
        })"

text \<open>\<^verbatim>\<open>if (stmt == NULL || stmt->vm == NULL) return bad;\<close>; the continuation also gets \<^verbatim>\<open>stmt->owner\<close>.\<close>

definition with_stmt ::
  "nat option \<Rightarrow> 'a \<Rightarrow> (nat \<Rightarrow> nat \<Rightarrow> (native, 'a) state) \<Rightarrow> (native, 'a) state" where
  "with_stmt stmt bad k =
     (case stmt of
        None \<Rightarrow> State_Monad.return bad
      | Some p \<Rightarrow> do {
          c \<leftarrow> gets (\<lambda>n. c_stmts n p);
          (case c of
             None \<Rightarrow> fail_ub bad
           | Some s \<Rightarrow> (case vm s of None \<Rightarrow> State_Monad.return bad | Some v \<Rightarrow> k v (owner s)))
        })"

text \<open>\<^verbatim>\<open>if (bind == NULL) return bad;\<close> followed by a use of the struct.\<close>

definition with_bind ::
  "nat option \<Rightarrow> 'a \<Rightarrow> (nat \<Rightarrow> csqlgo_bind \<Rightarrow> (native, 'a) state) \<Rightarrow> (native, 'a) state" where
  "with_bind bnd bad k =
     (case bnd of
        None \<Rightarrow> State_Monad.return bad
      | Some p \<Rightarrow> do {
          b \<leftarrow> gets (\<lambda>n. c_binds n p);
          (case b of None \<Rightarrow> fail_ub bad | Some s \<Rightarrow> k p s)
        })"

lemmas with_defs = with_conn_def with_cursor_def with_stmt_def with_bind_def

section \<open>Calls that create or destroy SDK handles\<close>

text \<open>\<^verbatim>\<open>cubesql_disconnect\<close>, \<^verbatim>\<open>cubesql_cursor_free\<close> and \<^verbatim>\<open>cubesql_vmclose\<close> free their handle.\<close>

definition sdk_disconnect :: "nat \<Rightarrow> bool \<Rightarrow> (native, unit) state" where
  "sdk_disconnect d gracefully = do {
     _ \<leftarrow> db_call d (EDisconnect d gracefully);
     modify (\<lambda>n. n\<lparr>dbs := (dbs n)(d := False)\<rparr>)
   }"

definition sdk_cursor_free :: "nat \<Rightarrow> (native, unit) state" where
  "sdk_cursor_free k = do {
     _ \<leftarrow> cursor_call k (ECursorFree k);
     modify (\<lambda>n. n\<lparr>cursors := (cursors n)(k := False)\<rparr>)
   }"

definition sdk_vmclose :: "sdk \<Rightarrow> nat \<Rightarrow> (native, int) state" where
  "sdk_vmclose S v = do {
     h \<leftarrow> vm_call v (EVmClose v);
     _ \<leftarrow> modify (\<lambda>n. n\<lparr>vms := (vms n)(v := None)\<rparr>);
     State_Monad.return (r_int S h)
   }"

text \<open>A database call whose \<^verbatim>\<open>int\<close> (\<^verbatim>\<open>int64\<close>) result the bridge returns as it is.\<close>

definition db_int :: "sdk \<Rightarrow> nat \<Rightarrow> event \<Rightarrow> (native, int) state" where
  "db_int S d e = do { h \<leftarrow> db_call d e; State_Monad.return (r_int S h) }"

definition db_int64 :: "sdk \<Rightarrow> nat \<Rightarrow> event \<Rightarrow> (native, int) state" where
  "db_int64 S d e = do { h \<leftarrow> db_call d e; State_Monad.return (r_int64 S h) }"

definition cursor_int :: "sdk \<Rightarrow> nat \<Rightarrow> event \<Rightarrow> (native, int) state" where
  "cursor_int S k e = do { h \<leftarrow> cursor_call k e; State_Monad.return (r_int S h) }"

definition vm_int :: "sdk \<Rightarrow> nat \<Rightarrow> event \<Rightarrow> (native, int) state" where
  "vm_int S v e = do { h \<leftarrow> vm_call v e; State_Monad.return (r_int S h) }"

section \<open>Connections\<close>

definition csqlgo_copy_string :: "sdk \<Rightarrow> string option \<Rightarrow> (native, string option) state" where
  "csqlgo_copy_string S v =
     (case v of
        None \<Rightarrow> State_Monad.return None
      | Some s \<Rightarrow> do { m \<leftarrow> malloc_ok S; State_Monad.return (if m then Some s else None) })"

text \<open>
  Results: the code, \<^verbatim>\<open>*out\<close> and \<^verbatim>\<open>*error_message\<close>. The callers pass non-NULL out-parameters.
\<close>

definition csqlgo_conn_open ::
  "sdk \<Rightarrow> string \<Rightarrow> int \<Rightarrow> string \<Rightarrow> string \<Rightarrow> int \<Rightarrow> int \<Rightarrow>
     (native, int \<times> nat option \<times> string option) state" where
  "csqlgo_conn_open S host port username password timeout encryption = do {
     m \<leftarrow> malloc_ok S;
     (if \<not> m then State_Monad.return (CSQLGO_ERR_MEMORY, None, None)
      else do {
        p \<leftarrow> new_addr;
        _ \<leftarrow> modify (\<lambda>n. n\<lparr>c_conns := (c_conns n)(p \<mapsto> \<lparr>db = None\<rparr>)\<rparr>);
        h \<leftarrow> log_call (EConnect host port username password timeout encryption);
        d \<leftarrow> (if r_ptr S h then do {
               d \<leftarrow> new_addr;
               _ \<leftarrow> modify (\<lambda>n. n\<lparr>dbs := (dbs n)(d := True), c_conns := (c_conns n)(p \<mapsto> \<lparr>db = Some d\<rparr>)\<rparr>);
               State_Monad.return (Some d) }
             else State_Monad.return None);
        (if r_int S h \<noteq> CUBESQL_NOERR then do {
           r \<leftarrow> (case d of
               None \<Rightarrow> State_Monad.return (r_int S h, None)
             | Some d \<Rightarrow> do {
                 code \<leftarrow> db_int S d (EErrcode d);
                 hm \<leftarrow> db_call d (EErrmsg d);
                 msg \<leftarrow> csqlgo_copy_string S (Some (c_string (r_text S hm)));
                 _ \<leftarrow> sdk_disconnect d False;
                 State_Monad.return (if code \<noteq> CUBESQL_NOERR then code else r_int S h, msg) });
           _ \<leftarrow> modify (\<lambda>n. n\<lparr>c_conns := (c_conns n)(p := None)\<rparr>);
           State_Monad.return (fst r, None, snd r) }
         else State_Monad.return (CSQLGO_OK, Some p, None))
      })
   }"

definition csqlgo_conn_close :: "nat option \<Rightarrow> bool \<Rightarrow> (native, unit) state" where
  "csqlgo_conn_close conn gracefully =
     (case conn of
        None \<Rightarrow> State_Monad.return ()
      | Some p \<Rightarrow> do {
          _ \<leftarrow> with_conn conn () (\<lambda>d. sdk_disconnect d gracefully);
          modify (\<lambda>n. n\<lparr>c_conns := (c_conns n)(p := None)\<rparr>)
        })"

definition csqlgo_conn_ping :: "sdk \<Rightarrow> nat option \<Rightarrow> (native, int) state" where
  "csqlgo_conn_ping S conn = with_conn conn CSQLGO_ERR_INVALID (\<lambda>d. db_int S d (EPing d))"

definition csqlgo_conn_execute :: "sdk \<Rightarrow> nat option \<Rightarrow> string \<Rightarrow> (native, int) state" where
  "csqlgo_conn_execute S conn sql =
     with_conn conn CSQLGO_ERR_INVALID (\<lambda>d. db_int S d (EExecute d sql))"

definition csqlgo_conn_set_database :: "sdk \<Rightarrow> nat option \<Rightarrow> string option \<Rightarrow> (native, int) state" where
  "csqlgo_conn_set_database S conn name =
     with_conn conn CSQLGO_ERR_INVALID (\<lambda>d. db_int S d (ESetDatabase d name))"

definition csqlgo_conn_begin :: "sdk \<Rightarrow> nat option \<Rightarrow> (native, int) state" where
  "csqlgo_conn_begin S conn = with_conn conn CSQLGO_ERR_INVALID (\<lambda>d. db_int S d (EBegin d))"

definition csqlgo_conn_commit :: "sdk \<Rightarrow> nat option \<Rightarrow> (native, int) state" where
  "csqlgo_conn_commit S conn = with_conn conn CSQLGO_ERR_INVALID (\<lambda>d. db_int S d (ECommit d))"

definition csqlgo_conn_rollback :: "sdk \<Rightarrow> nat option \<Rightarrow> (native, int) state" where
  "csqlgo_conn_rollback S conn = with_conn conn CSQLGO_ERR_INVALID (\<lambda>d. db_int S d (ERollback d))"

definition csqlgo_conn_changes :: "sdk \<Rightarrow> nat option \<Rightarrow> (native, int) state" where
  "csqlgo_conn_changes S conn = with_conn conn 0 (\<lambda>d. db_int64 S d (EChanges d))"

definition csqlgo_conn_affected_rows :: "sdk \<Rightarrow> nat option \<Rightarrow> (native, int) state" where
  "csqlgo_conn_affected_rows S conn = with_conn conn 0 (\<lambda>d. db_int64 S d (EAffectedRows d))"

definition csqlgo_conn_last_insert_id :: "sdk \<Rightarrow> nat option \<Rightarrow> (native, int) state" where
  "csqlgo_conn_last_insert_id S conn = with_conn conn 0 (\<lambda>d. db_int64 S d (ELastRowID d))"

definition csqlgo_conn_error_code :: "sdk \<Rightarrow> nat option \<Rightarrow> (native, int) state" where
  "csqlgo_conn_error_code S conn =
     with_conn conn CSQLGO_ERR_INVALID (\<lambda>d. db_int S d (EErrcode d))"

definition csqlgo_conn_error_message_copy :: "sdk \<Rightarrow> nat option \<Rightarrow> (native, string option) state" where
  "csqlgo_conn_error_message_copy S conn =
     with_conn conn None (\<lambda>d. do {
       h \<leftarrow> db_call d (EErrmsg d);
       csqlgo_copy_string S (Some (c_string (r_text S h)))
     })"

section \<open>Cursors\<close>

text \<open>A cursor the SDK returned: wrap it, or free it when the wrapper cannot be allocated.\<close>

definition wrap_cursor :: "sdk \<Rightarrow> (native, int \<times> nat option) state" where
  "wrap_cursor S = do {
     k \<leftarrow> new_addr;
     _ \<leftarrow> modify (\<lambda>n. n\<lparr>cursors := (cursors n)(k := True)\<rparr>);
     m \<leftarrow> malloc_ok S;
     (if \<not> m then do { _ \<leftarrow> sdk_cursor_free k; State_Monad.return (CSQLGO_ERR_MEMORY, None) }
      else do {
        p \<leftarrow> new_addr;
        _ \<leftarrow> modify (\<lambda>n. n\<lparr>c_cursors := (c_cursors n)(p \<mapsto> \<lparr>cursor = Some k\<rparr>)\<rparr>);
        State_Monad.return (CSQLGO_OK, Some p) })
   }"

definition csqlgo_conn_query :: "sdk \<Rightarrow> nat option \<Rightarrow> string \<Rightarrow> (native, int \<times> nat option) state" where
  "csqlgo_conn_query S conn sql =
     with_conn conn (CSQLGO_ERR_INVALID, None) (\<lambda>d. do {
       h \<leftarrow> db_call d (ESelect d sql);
       (if \<not> r_ptr S h then do {
          code \<leftarrow> db_int S d (EErrcode d);
          State_Monad.return (if code = CUBESQL_NOERR then CUBESQL_ERR else code, None) }
        else wrap_cursor S)
     })"

definition csqlgo_cursor_close :: "nat option \<Rightarrow> (native, unit) state" where
  "csqlgo_cursor_close cur =
     (case cur of
        None \<Rightarrow> State_Monad.return ()
      | Some p \<Rightarrow> do {
          _ \<leftarrow> with_cursor cur () sdk_cursor_free;
          modify (\<lambda>n. n\<lparr>c_cursors := (c_cursors n)(p := None)\<rparr>)
        })"

definition csqlgo_cursor_num_rows :: "sdk \<Rightarrow> nat option \<Rightarrow> (native, int) state" where
  "csqlgo_cursor_num_rows S cur =
     with_cursor cur CSQLGO_ERR_INVALID (\<lambda>k. cursor_int S k (ECursorRows k))"

definition csqlgo_cursor_num_columns :: "sdk \<Rightarrow> nat option \<Rightarrow> (native, int) state" where
  "csqlgo_cursor_num_columns S cur =
     with_cursor cur CSQLGO_ERR_INVALID (\<lambda>k. cursor_int S k (ECursorColumns k))"

definition csqlgo_cursor_column_type :: "sdk \<Rightarrow> nat option \<Rightarrow> int \<Rightarrow> (native, int) state" where
  "csqlgo_cursor_column_type S cur column =
     with_cursor cur CSQLGO_ERR_INVALID (\<lambda>k. cursor_int S k (ECursorType k column))"

definition csqlgo_cursor_seek :: "sdk \<Rightarrow> nat option \<Rightarrow> int \<Rightarrow> (native, int) state" where
  "csqlgo_cursor_seek S cur row =
     with_cursor cur CSQLGO_ERR_INVALID (\<lambda>k. cursor_int S k (ECursorSeek k row))"

text \<open>Results: the code and the copied bytes (\<^verbatim>\<open>*out\<close> with \<^verbatim>\<open>*length\<close>).\<close>

definition csqlgo_cursor_copy_field ::
  "sdk \<Rightarrow> nat option \<Rightarrow> int \<Rightarrow> int \<Rightarrow> (native, int \<times> string) state" where
  "csqlgo_cursor_copy_field S cur row column =
     with_cursor cur (CSQLGO_ERR_INVALID, []) (\<lambda>k. do {
       h \<leftarrow> cursor_call k (ECursorField k row column);
       (case r_field S h of
          Inl n \<Rightarrow> State_Monad.return (if n = -1 then CSQLGO_FIELD_NULL else CSQLGO_ERR_INVALID, [])
        | Inr bytes \<Rightarrow> do {
            m \<leftarrow> malloc_ok S;
            State_Monad.return (if m then (CSQLGO_OK, bytes) else (CSQLGO_ERR_MEMORY, [])) })
     })"

definition csqlgo_cursor_copy_column_name :: "sdk \<Rightarrow> nat option \<Rightarrow> int \<Rightarrow> (native, int \<times> string) state"
  where
  "csqlgo_cursor_copy_column_name S cur column = csqlgo_cursor_copy_field S cur 0 column"

end
