(* ===== verification/Cube_Native_Bind.thy ===== *)
theory Cube_Native_Bind
  imports Cube_Native
begin

text \<open>
  The bind graph and the prepared statements of \<^verbatim>\<open>internal/csdk/bridge.c\<close>. A bind graph owns its
  value buffers; the model keeps each buffer's whole allocation, so that reads by size can be
  compared with what was allocated.
\<close>

section \<open>The bind graph\<close>

definition csqlgo_bind_close :: "nat option \<Rightarrow> (native, unit) state" where
  "csqlgo_bind_close bnd =
     with_bind bnd () (\<lambda>p _. modify (\<lambda>n. n\<lparr>c_binds := (c_binds n)(p := None)\<rparr>))"

definition csqlgo_bind_new :: "sdk \<Rightarrow> int \<Rightarrow> (native, nat option) state" where
  "csqlgo_bind_new S count =
     (if count \<le> 0 then State_Monad.return None
      else do {
        m \<leftarrow> malloc_ok S;
        (if \<not> m then State_Monad.return None
         else do {
           p \<leftarrow> new_addr;
           _ \<leftarrow> modify (\<lambda>n. n\<lparr>c_binds := (c_binds n)(p \<mapsto>
                  \<lparr>bind_count = 0, bind_values = [], bind_sizes = [], bind_types = []\<rparr>)\<rparr>);
           mv \<leftarrow> malloc_ok S;
           ms \<leftarrow> malloc_ok S;
           mt \<leftarrow> malloc_ok S;
           (if \<not> mv \<or> \<not> ms \<or> \<not> mt
            then do { _ \<leftarrow> csqlgo_bind_close (Some p); State_Monad.return None }
            else do {
              _ \<leftarrow> modify (\<lambda>n. n\<lparr>c_binds := (c_binds n)(p \<mapsto>
                     \<lparr>bind_count = count, bind_values = replicate (nat count) None,
                      bind_sizes = replicate (nat count) 0, bind_types = replicate (nat count) 0\<rparr>)\<rparr>);
              State_Monad.return (Some p) })
         })
      })"

text \<open>The buffer \<^verbatim>\<open>calloc(1, allocation)\<close> after \<^verbatim>\<open>memcpy(copy, value, length)\<close>.\<close>

definition bind_buffer :: "int \<Rightarrow> int \<Rightarrow> string \<Rightarrow> string" where
  "bind_buffer type length' bytes =
     (let allocation = (if type = BIND_BLOB then (if length' > 0 then nat length' else 1)
                        else nat length' + 1);
          copied = take (nat length') bytes
      in copied @ replicate (allocation - length copied) nul)"

text \<open>
  \<open>value = None\<close> is a NULL pointer. Reading more bytes than the caller's buffer holds would be
  undefined behaviour. A slot owns its buffer as a value, so freeing the old one is its replacement.
\<close>

definition csqlgo_bind_set_bytes ::
  "sdk \<Rightarrow> nat option \<Rightarrow> int \<Rightarrow> string option \<Rightarrow> int \<Rightarrow> int \<Rightarrow> (native, int) state" where
  "csqlgo_bind_set_bytes S bnd index val length' type =
     with_bind bnd CSQLGO_ERR_INVALID (\<lambda>p b.
       if index \<le> 0 \<or> index > bind_count b \<or> length' < 0 then State_Monad.return CSQLGO_ERR_INVALID
       else if val = None \<and> length' > 0 then State_Monad.return CSQLGO_ERR_INVALID
       else do {
         let slot = nat (index - 1);
         let bytes = (case val of None \<Rightarrow> [] | Some v \<Rightarrow> v);
         m \<leftarrow> (if type \<noteq> BIND_NULL then malloc_ok S else State_Monad.return True);
         (if \<not> m then State_Monad.return CSQLGO_ERR_MEMORY
          else if type \<noteq> BIND_NULL \<and> nat length' > length bytes then fail_ub CSQLGO_OK
          else do {
            let buffer = (if type \<noteq> BIND_NULL then Some (bind_buffer type length' bytes) else None);
            _ \<leftarrow> modify (\<lambda>n. n\<lparr>c_binds := (c_binds n)(p \<mapsto>
                   b\<lparr>bind_values := (bind_values b)[slot := buffer],
                     bind_sizes := (bind_sizes b)[slot := length'],
                     bind_types := (bind_types b)[slot := type]\<rparr>)\<rparr>);
            State_Monad.return CSQLGO_OK })
       })"

definition csqlgo_bind_set_int64 :: "sdk \<Rightarrow> nat option \<Rightarrow> int \<Rightarrow> int \<Rightarrow> (native, int) state" where
  "csqlgo_bind_set_int64 S bnd index v =
     (let text = show_int v in
      if length text \<ge> 64 then State_Monad.return CSQLGO_ERR_INVALID
      else csqlgo_bind_set_bytes S bnd index (Some text) (int (length text)) BIND_INT64)"

definition csqlgo_bind_set_double :: "sdk \<Rightarrow> nat option \<Rightarrow> int \<Rightarrow> 64 word \<Rightarrow> (native, int) state" where
  "csqlgo_bind_set_double S bnd index v =
     (let text = fmt_g17 S v in
      if length text \<ge> 64 then State_Monad.return CSQLGO_ERR_INVALID
      else csqlgo_bind_set_bytes S bnd index (Some text) (int (length text)) BIND_DOUBLE)"

definition csqlgo_bind_set_text ::
  "sdk \<Rightarrow> nat option \<Rightarrow> int \<Rightarrow> string option \<Rightarrow> int \<Rightarrow> (native, int) state" where
  "csqlgo_bind_set_text S bnd index val length' = csqlgo_bind_set_bytes S bnd index val length' BIND_TEXT"

definition csqlgo_bind_set_blob ::
  "sdk \<Rightarrow> nat option \<Rightarrow> int \<Rightarrow> string option \<Rightarrow> int \<Rightarrow> (native, int) state" where
  "csqlgo_bind_set_blob S bnd index val length' =
     (if length' \<le> 0 then State_Monad.return CSQLGO_ERR_INVALID
      else csqlgo_bind_set_bytes S bnd index val length' BIND_BLOB)"

definition csqlgo_bind_set_null :: "sdk \<Rightarrow> nat option \<Rightarrow> int \<Rightarrow> (native, int) state" where
  "csqlgo_bind_set_null S bnd index = csqlgo_bind_set_bytes S bnd index None 0 BIND_NULL"

text \<open>
  The SDK receives copies of the three arrays, which it may overwrite; the retained graph is not
  touched.
\<close>

definition bind_rows :: "csqlgo_bind \<Rightarrow> (int \<times> int \<times> string option) list" where
  "bind_rows b = zip (bind_types b) (zip (bind_sizes b) (bind_values b))"

definition csqlgo_conn_execute_bind ::
  "sdk \<Rightarrow> nat option \<Rightarrow> string \<Rightarrow> nat option \<Rightarrow> (native, int) state" where
  "csqlgo_conn_execute_bind S conn sql bnd =
     with_conn conn CSQLGO_ERR_INVALID (\<lambda>d.
       with_bind bnd CSQLGO_ERR_INVALID (\<lambda>_ b.
         if list_ex (\<lambda>t. t = 0) (bind_types b) then State_Monad.return CSQLGO_ERR_INVALID
         else do {
           mv \<leftarrow> malloc_ok S;
           ms \<leftarrow> malloc_ok S;
           mt \<leftarrow> malloc_ok S;
           (if \<not> mv \<or> \<not> ms \<or> \<not> mt then State_Monad.return CSQLGO_ERR_MEMORY
            else db_int S d (EBind d sql (bind_rows b)))
         }))"

section \<open>Prepared statements\<close>

definition csqlgo_conn_prepare :: "sdk \<Rightarrow> nat option \<Rightarrow> string \<Rightarrow> (native, int \<times> nat option) state" where
  "csqlgo_conn_prepare S conn sql =
     with_conn conn (CSQLGO_ERR_INVALID, None) (\<lambda>d. do {
       h \<leftarrow> db_call d (EVmPrepare d sql);
       (if \<not> r_ptr S h then do {
          code \<leftarrow> db_int S d (EErrcode d);
          State_Monad.return (if code = CUBESQL_NOERR then CUBESQL_ERR else code, None) }
        else do {
          v \<leftarrow> new_addr;
          _ \<leftarrow> modify (\<lambda>n. n\<lparr>vms := (vms n)(v \<mapsto> d)\<rparr>);
          m \<leftarrow> malloc_ok S;
          (if \<not> m then do { _ \<leftarrow> sdk_vmclose S v; State_Monad.return (CSQLGO_ERR_MEMORY, None) }
           else do {
             p \<leftarrow> new_addr;
             _ \<leftarrow> modify (\<lambda>n. n\<lparr>c_stmts := (c_stmts n)(p \<mapsto> \<lparr>vm = Some v, owner = the conn\<rparr>)\<rparr>);
             State_Monad.return (CSQLGO_OK, Some p) }) })
     })"

definition csqlgo_stmt_close :: "sdk \<Rightarrow> nat option \<Rightarrow> (native, int) state" where
  "csqlgo_stmt_close S stmt =
     (case stmt of
        None \<Rightarrow> State_Monad.return CSQLGO_OK
      | Some p \<Rightarrow> do {
          r \<leftarrow> with_stmt stmt CSQLGO_OK (\<lambda>v _. sdk_vmclose S v);
          _ \<leftarrow> modify (\<lambda>n. n\<lparr>c_stmts := (c_stmts n)(p := None)\<rparr>);
          State_Monad.return r
        })"

definition csqlgo_stmt_bind_int64 :: "sdk \<Rightarrow> nat option \<Rightarrow> int \<Rightarrow> int \<Rightarrow> (native, int) state" where
  "csqlgo_stmt_bind_int64 S stmt index v =
     with_stmt stmt CSQLGO_ERR_INVALID (\<lambda>h _. vm_int S h (EVmBind h index (VmInt64 v)))"

definition csqlgo_stmt_bind_double :: "sdk \<Rightarrow> nat option \<Rightarrow> int \<Rightarrow> 64 word \<Rightarrow> (native, int) state" where
  "csqlgo_stmt_bind_double S stmt index v =
     with_stmt stmt CSQLGO_ERR_INVALID (\<lambda>h _. vm_int S h (EVmBind h index (VmDouble v)))"

text \<open>The SDK reads \<open>length'\<close> bytes of the value; a NULL text is read as the empty text.\<close>

definition vm_bytes :: "sdk \<Rightarrow> nat \<Rightarrow> int \<Rightarrow> (string \<Rightarrow> vm_value) \<Rightarrow> string option \<Rightarrow> int \<Rightarrow> (native, int) state"
  where
  "vm_bytes S h index con val length' =
     (case val of
        None \<Rightarrow> vm_int S h (EVmBind h index (con []))
      | Some bytes \<Rightarrow>
          (if nat length' > length bytes then fail_ub CSQLGO_OK
           else vm_int S h (EVmBind h index (con (take (nat length') bytes)))))"

definition csqlgo_stmt_bind_text ::
  "sdk \<Rightarrow> nat option \<Rightarrow> int \<Rightarrow> string option \<Rightarrow> int \<Rightarrow> (native, int) state" where
  "csqlgo_stmt_bind_text S stmt index val length' =
     with_stmt stmt CSQLGO_ERR_INVALID (\<lambda>h _.
       if length' < 0 then State_Monad.return CSQLGO_ERR_INVALID
       else vm_bytes S h index VmText val length')"

definition csqlgo_stmt_bind_blob ::
  "sdk \<Rightarrow> nat option \<Rightarrow> int \<Rightarrow> string option \<Rightarrow> int \<Rightarrow> (native, int) state" where
  "csqlgo_stmt_bind_blob S stmt index val length' =
     with_stmt stmt CSQLGO_ERR_INVALID (\<lambda>h _.
       if val = None \<or> length' \<le> 0 then State_Monad.return CSQLGO_ERR_INVALID
       else vm_bytes S h index VmBlob val length')"

definition csqlgo_stmt_bind_null :: "sdk \<Rightarrow> nat option \<Rightarrow> int \<Rightarrow> (native, int) state" where
  "csqlgo_stmt_bind_null S stmt index =
     with_stmt stmt CSQLGO_ERR_INVALID (\<lambda>h _. vm_int S h (EVmBind h index VmNull))"

definition csqlgo_stmt_bind_zeroblob :: "sdk \<Rightarrow> nat option \<Rightarrow> int \<Rightarrow> int \<Rightarrow> (native, int) state" where
  "csqlgo_stmt_bind_zeroblob S stmt index length' =
     with_stmt stmt CSQLGO_ERR_INVALID (\<lambda>h _.
       if length' < 0 then State_Monad.return CSQLGO_ERR_INVALID
       else vm_int S h (EVmBind h index (VmZeroBlob length')))"

definition csqlgo_stmt_execute :: "sdk \<Rightarrow> nat option \<Rightarrow> (native, int) state" where
  "csqlgo_stmt_execute S stmt =
     with_stmt stmt CSQLGO_ERR_INVALID (\<lambda>h _. vm_int S h (EVmExecute h))"

definition csqlgo_stmt_query :: "sdk \<Rightarrow> nat option \<Rightarrow> (native, int \<times> nat option) state" where
  "csqlgo_stmt_query S stmt =
     with_stmt stmt (CSQLGO_ERR_INVALID, None) (\<lambda>v own. do {
       h \<leftarrow> vm_call v (EVmSelect v);
       (if \<not> r_ptr S h then do {
          code \<leftarrow> csqlgo_conn_error_code S (Some own);
          State_Monad.return (if code = CUBESQL_NOERR then CUBESQL_ERR else code, None) }
        else wrap_cursor S)
     })"

end
