(* ===== verification/Cube_Csdk.thy ===== *)
theory Cube_Csdk
  imports Cube_Native_Bind
begin

text \<open>
  The private Go package \<^verbatim>\<open>internal/csdk/csdk.go\<close>, one definition per method. Its objects live on a
  Go heap of total maps (a Go object that was never assigned is its zero value); a receiver or
  pointer field is an address or \<open>None\<close> for nil. Every call into C runs on the \<open>native\<close> part of
  the state.
\<close>

section \<open>State\<close>

text \<open>\<^verbatim>\<open>type Options struct\<close>; \<open>EncryptionClear = 0\<close> and \<open>EncryptionAES256 = 4\<close>\<close>

record cs_options =
  cs_host :: string
  cs_port :: int
  cs_username :: string
  cs_password :: string
  cs_timeout :: int
  cs_encryption :: int

record cs_conn =
  conn_ptr :: "nat option"
  conn_children :: int

record cs_rows =
  rows_conn :: "nat option"
  rows_ptr :: "nat option"

record cs_stmt =
  stmt_conn :: "nat option"
  stmt_ptr :: "nat option"

record cs_bind =
  bind_ptr :: "nat option"

text \<open>Addresses from \<open>gnext\<close> on have not been allocated.\<close>

record csdk =
  native_of :: native
  gconns :: "nat \<Rightarrow> cs_conn"
  grows :: "nat \<Rightarrow> cs_rows"
  gstmts :: "nat \<Rightarrow> cs_stmt"
  gbinds :: "nat \<Rightarrow> cs_bind"
  gnext :: nat

definition csdk_init :: csdk where
  "csdk_init = \<lparr> native_of = native_init,
     gconns = (\<lambda>_. \<lparr>conn_ptr = None, conn_children = 0\<rparr>),
     grows = (\<lambda>_. \<lparr>rows_conn = None, rows_ptr = None\<rparr>),
     gstmts = (\<lambda>_. \<lparr>stmt_conn = None, stmt_ptr = None\<rparr>),
     gbinds = (\<lambda>_. \<lparr>bind_ptr = None\<rparr>), gnext = 0 \<rparr>"

definition csN :: "(native, 'a) state \<Rightarrow> (csdk, 'a) state" where
  "csN m = zoom native_of native_of_update m"

text \<open>\<^verbatim>\<open>mu.Lock(); defer mu.Unlock()\<close> around a body\<close>

definition cs_locked :: "lock \<Rightarrow> (csdk, 'a) state \<Rightarrow> (csdk, 'a) state" where
  "cs_locked l body = do { _ \<leftarrow> csN (acquire l); r \<leftarrow> body; _ \<leftarrow> csN (release l); State_Monad.return r }"

definition cs_new :: "(csdk, nat) state" where
  "cs_new = do { a \<leftarrow> gets gnext; _ \<leftarrow> modify (\<lambda>w. w\<lparr>gnext := Suc a\<rparr>); State_Monad.return a }"

definition set_conn :: "nat \<Rightarrow> cs_conn \<Rightarrow> (csdk, unit) state" where
  "set_conn a c = modify (\<lambda>w. w\<lparr>gconns := (gconns w)(a := c)\<rparr>)"

definition set_rows :: "nat \<Rightarrow> cs_rows \<Rightarrow> (csdk, unit) state" where
  "set_rows a r = modify (\<lambda>w. w\<lparr>grows := (grows w)(a := r)\<rparr>)"

definition set_stmt :: "nat \<Rightarrow> cs_stmt \<Rightarrow> (csdk, unit) state" where
  "set_stmt a s = modify (\<lambda>w. w\<lparr>gstmts := (gstmts w)(a := s)\<rparr>)"

definition set_bind :: "nat \<Rightarrow> cs_bind \<Rightarrow> (csdk, unit) state" where
  "set_bind a b = modify (\<lambda>w. w\<lparr>gbinds := (gbinds w)(a := b)\<rparr>)"

text \<open>\<^verbatim>\<open>conn.children++\<close> and \<^verbatim>\<open>conn.children--\<close>\<close>

definition add_children :: "nat \<Rightarrow> int \<Rightarrow> (csdk, unit) state" where
  "add_children a k = modify (\<lambda>w. w\<lparr>gconns := (gconns w)(a := (gconns w a)
     \<lparr>conn_children := conn_children (gconns w a) + k\<rparr>)\<rparr>)"

section \<open>Guards and shared bodies\<close>

definition nativeErrorLocked :: "sdk \<Rightarrow> nat \<Rightarrow> int \<Rightarrow> (csdk, gerror) state" where
  "nativeErrorLocked S a fallback = do {
     p \<leftarrow> gets (\<lambda>w. conn_ptr (gconns w a));
     c \<leftarrow> csN (csqlgo_conn_error_code S p);
     let code = (if c = 0 \<or> c = CSQLGO_ERR_INVALID then fallback else c);
     message \<leftarrow> csN (csqlgo_conn_error_message_copy S p);
     State_Monad.return (CsError code (case message of None \<Rightarrow> [] | Some m \<Rightarrow> m))
   }"

text \<open>\<^verbatim>\<open>if result != C.CSQLGO_OK { return conn.nativeErrorLocked(int(result)) }\<close>\<close>

definition check_result :: "sdk \<Rightarrow> nat \<Rightarrow> int \<Rightarrow> (csdk, gerror + unit) state" where
  "check_result S a result =
     (if result \<noteq> CSQLGO_OK then do { e \<leftarrow> nativeErrorLocked S a result; throw e } else ok ())"

text \<open>
  \<^verbatim>\<open>if conn == nil { return ErrClosed }; conn.mu.Lock(); defer conn.mu.Unlock(); if conn.ptr == nil {
  return ErrClosed }\<close>; the body gets the connection's address and its C pointer.
\<close>

definition with_open_conn ::
  "nat option \<Rightarrow> (nat \<Rightarrow> nat option \<Rightarrow> (csdk, gerror + 'a) state) \<Rightarrow> (csdk, gerror + 'a) state" where
  "with_open_conn conn body =
     (case conn of
        None \<Rightarrow> throw CsClosed
      | Some a \<Rightarrow> cs_locked (LCsConn a) (do {
          p \<leftarrow> gets (\<lambda>w. conn_ptr (gconns w a));
          (if p = None then throw CsClosed else body a p) }))"

text \<open>The same guard of \<^verbatim>\<open>Rows\<close> methods: nil receiver, nil \<^verbatim>\<open>conn\<close>, closed cursor, closed connection.\<close>

definition with_open_rows ::
  "nat option \<Rightarrow> (nat option \<Rightarrow> (csdk, gerror + 'a) state) \<Rightarrow> (csdk, gerror + 'a) state" where
  "with_open_rows rows body =
     (case rows of
        None \<Rightarrow> throw CsClosed
      | Some r \<Rightarrow> do {
          c \<leftarrow> gets (\<lambda>w. rows_conn (grows w r));
          (case c of
             None \<Rightarrow> throw CsClosed
           | Some a \<Rightarrow> cs_locked (LCsConn a) (do {
               p \<leftarrow> gets (\<lambda>w. rows_ptr (grows w r));
               q \<leftarrow> gets (\<lambda>w. conn_ptr (gconns w a));
               (if p = None \<or> q = None then throw CsClosed else body p) }))
        })"

definition with_open_stmt ::
  "nat option \<Rightarrow> (nat \<Rightarrow> nat option \<Rightarrow> (csdk, gerror + 'a) state) \<Rightarrow> (csdk, gerror + 'a) state" where
  "with_open_stmt stmt body =
     (case stmt of
        None \<Rightarrow> throw CsClosed
      | Some s \<Rightarrow> do {
          c \<leftarrow> gets (\<lambda>w. stmt_conn (gstmts w s));
          (case c of
             None \<Rightarrow> throw CsClosed
           | Some a \<Rightarrow> cs_locked (LCsConn a) (do {
               p \<leftarrow> gets (\<lambda>w. stmt_ptr (gstmts w s));
               q \<leftarrow> gets (\<lambda>w. conn_ptr (gconns w a));
               (if p = None \<or> q = None then throw CsClosed else body a p) }))
        })"

definition with_open_bind ::
  "nat option \<Rightarrow> (nat option \<Rightarrow> (csdk, gerror + 'a) state) \<Rightarrow> (csdk, gerror + 'a) state" where
  "with_open_bind bnd body =
     (case bnd of
        None \<Rightarrow> throw CsClosed
      | Some b \<Rightarrow> cs_locked (LCsBind b) (do {
          p \<leftarrow> gets (\<lambda>w. bind_ptr (gbinds w b));
          (if p = None then throw CsClosed else body p) }))"

text \<open>The private helpers \<^verbatim>\<open>call\<close>, \<^verbatim>\<open>metric\<close>, \<^verbatim>\<open>number\<close>, \<^verbatim>\<open>copyField\<close> and \<^verbatim>\<open>set\<close>, which take the C call.\<close>

definition csConn_call ::
  "sdk \<Rightarrow> nat option \<Rightarrow> (nat option \<Rightarrow> (native, int) state) \<Rightarrow> (csdk, gerror + unit) state" where
  "csConn_call S conn f =
     with_open_conn conn (\<lambda>a p. do { result \<leftarrow> csN (f p); check_result S a result })"

definition csConn_metric ::
  "sdk \<Rightarrow> nat option \<Rightarrow> (nat option \<Rightarrow> (native, int) state) \<Rightarrow> (csdk, gerror + int) state" where
  "csConn_metric S conn f =
     with_open_conn conn (\<lambda>a p. do {
       v \<leftarrow> csN (f p);
       code \<leftarrow> csN (csqlgo_conn_error_code S p);
       (if code \<noteq> CSQLGO_OK then do { e \<leftarrow> nativeErrorLocked S a code; throw e } else ok v)
     })"

definition csRows_call ::
  "nat option \<Rightarrow> (nat option \<Rightarrow> (native, int) state) \<Rightarrow> (csdk, gerror + unit) state" where
  "csRows_call rows f =
     with_open_rows rows (\<lambda>p. do {
       result \<leftarrow> csN (f p);
       (if result < 0 then throw (CsError result []) else ok ())
     })"

definition csRows_number ::
  "nat option \<Rightarrow> (nat option \<Rightarrow> (native, int) state) \<Rightarrow> (csdk, gerror + int) state" where
  "csRows_number rows f =
     with_open_rows rows (\<lambda>p. do {
       v \<leftarrow> csN (f p);
       (if v < 0 then throw (CsError v []) else ok v)
     })"

text \<open>Results: the copied bytes and whether the field is NULL.\<close>

definition csRows_copyField ::
  "nat option \<Rightarrow> (nat option \<Rightarrow> (native, int \<times> string) state) \<Rightarrow>
     (csdk, gerror + string option \<times> bool) state" where
  "csRows_copyField rows f =
     with_open_rows rows (\<lambda>p. do {
       r \<leftarrow> csN (f p);
       (if fst r = CSQLGO_FIELD_NULL then ok (None, True)
        else if fst r \<noteq> CSQLGO_OK then throw (CsError (fst r) [])
        else ok (Some (snd r), False))
     })"

definition csStmt_call ::
  "sdk \<Rightarrow> nat option \<Rightarrow> (nat option \<Rightarrow> (native, int) state) \<Rightarrow> (csdk, gerror + unit) state" where
  "csStmt_call S stmt f =
     with_open_stmt stmt (\<lambda>a p. do { result \<leftarrow> csN (f p); check_result S a result })"

definition csStmt_unsupported :: "nat option \<Rightarrow> (csdk, gerror + unit) state" where
  "csStmt_unsupported stmt = with_open_stmt stmt (\<lambda>a p. throw CsUnsupported)"

definition csBind_set ::
  "nat option \<Rightarrow> (nat option \<Rightarrow> (native, int) state) \<Rightarrow> (csdk, gerror + unit) state" where
  "csBind_set bnd f =
     with_open_bind bnd (\<lambda>p. do {
       result \<leftarrow> csN (f p);
       (if result = CSQLGO_ERR_INVALID then throw CsInvalidArgument
        else if result \<noteq> CSQLGO_OK then throw (CsError result [])
        else ok ())
     })"

definition csBind_unsupported :: "nat option \<Rightarrow> (csdk, gerror + unit) state" where
  "csBind_unsupported bnd = with_open_bind bnd (\<lambda>p. throw CsUnsupported)"

section \<open>Connections\<close>

definition open_defaults :: "cs_options \<Rightarrow> cs_options" where
  "open_defaults o' =
     (let o1 = (if cs_host o' = [] then o'\<lparr>cs_host := ''localhost''\<rparr> else o');
          o2 = (if cs_port o1 = 0 then o1\<lparr>cs_port := 4430\<rparr> else o1)
      in if cs_timeout o2 = 0 then o2\<lparr>cs_timeout := 12\<rparr> else o2)"

definition cs_Open :: "sdk \<Rightarrow> cs_options \<Rightarrow> (csdk, gerror + nat) state" where
  "cs_Open S options0 =
     (let options' = open_defaults options0 in
      if cs_username options' = [] \<or> cs_port options' < 0 \<or> cs_timeout options' < 0
      then throw CsInvalidArgument
      else if cs_encryption options' \<noteq> 0 \<and> cs_encryption options' \<noteq> 4 then throw CsInvalidArgument
      else do {
        r \<leftarrow> csN (csqlgo_conn_open S (c_string (cs_host options')) (c_int (cs_port options'))
               (c_string (cs_username options')) (c_string (cs_password options'))
               (c_int (cs_timeout options')) (c_int (cs_encryption options')));
        (case r of (result, p, message) \<Rightarrow>
           if result \<noteq> CSQLGO_OK
           then throw (CsError result (case message of None \<Rightarrow> [] | Some m \<Rightarrow> m))
           else do {
             a \<leftarrow> cs_new;
             _ \<leftarrow> set_conn a \<lparr>conn_ptr = p, conn_children = 0\<rparr>;
             ok a })
      })"

definition csConn_Close :: "nat option \<Rightarrow> (csdk, gerror + unit) state" where
  "csConn_Close conn =
     (case conn of
        None \<Rightarrow> ok ()
      | Some a \<Rightarrow> cs_locked (LCsConn a) (do {
          c \<leftarrow> gets (\<lambda>w. gconns w a);
          (if conn_ptr c = None then ok ()
           else if conn_children c \<noteq> 0 then throw CsBusy
           else do {
             _ \<leftarrow> set_conn a (c\<lparr>conn_ptr := None\<rparr>);
             _ \<leftarrow> csN (csqlgo_conn_close (conn_ptr c) True);
             ok () }) }))"

definition csConn_Ping :: "sdk \<Rightarrow> nat option \<Rightarrow> (csdk, gerror + unit) state" where
  "csConn_Ping S conn = csConn_call S conn (csqlgo_conn_ping S)"

definition csConn_Exec :: "sdk \<Rightarrow> nat option \<Rightarrow> string \<Rightarrow> (csdk, gerror + unit) state" where
  "csConn_Exec S conn sql =
     (if sql = [] then throw CsInvalidArgument
      else csConn_call S conn (\<lambda>p. csqlgo_conn_execute S p (c_string sql)))"

definition csConn_SetDatabase :: "sdk \<Rightarrow> nat option \<Rightarrow> string \<Rightarrow> (csdk, gerror + unit) state" where
  "csConn_SetDatabase S conn name =
     (let cname = (if name \<noteq> [] then Some (c_string name) else None) in
      csConn_call S conn (\<lambda>p. csqlgo_conn_set_database S p cname))"

definition csConn_Begin :: "sdk \<Rightarrow> nat option \<Rightarrow> (csdk, gerror + unit) state" where
  "csConn_Begin S conn = csConn_call S conn (csqlgo_conn_begin S)"

definition csConn_Commit :: "sdk \<Rightarrow> nat option \<Rightarrow> (csdk, gerror + unit) state" where
  "csConn_Commit S conn = csConn_call S conn (csqlgo_conn_commit S)"

definition csConn_Rollback :: "sdk \<Rightarrow> nat option \<Rightarrow> (csdk, gerror + unit) state" where
  "csConn_Rollback S conn = csConn_call S conn (csqlgo_conn_rollback S)"

definition csConn_Changes :: "sdk \<Rightarrow> nat option \<Rightarrow> (csdk, gerror + int) state" where
  "csConn_Changes S conn = csConn_metric S conn (csqlgo_conn_changes S)"

definition csConn_AffectedRows :: "sdk \<Rightarrow> nat option \<Rightarrow> (csdk, gerror + int) state" where
  "csConn_AffectedRows S conn = csConn_metric S conn (csqlgo_conn_affected_rows S)"

definition csConn_LastInsertID :: "sdk \<Rightarrow> nat option \<Rightarrow> (csdk, gerror + int) state" where
  "csConn_LastInsertID S conn = csConn_metric S conn (csqlgo_conn_last_insert_id S)"

text \<open>\<^verbatim>\<open>conn.children++; return &Rows{conn: conn, ptr: cursor}, nil\<close>\<close>

definition new_rows :: "nat \<Rightarrow> nat option \<Rightarrow> (csdk, gerror + nat) state" where
  "new_rows a p = do {
     _ \<leftarrow> add_children a 1;
     r \<leftarrow> cs_new;
     _ \<leftarrow> set_rows r \<lparr>rows_conn = Some a, rows_ptr = p\<rparr>;
     ok r
   }"

definition csConn_Query :: "sdk \<Rightarrow> nat option \<Rightarrow> string \<Rightarrow> (csdk, gerror + nat) state" where
  "csConn_Query S conn sql =
     (if sql = [] then throw CsInvalidArgument
      else with_open_conn conn (\<lambda>a p. do {
        r \<leftarrow> csN (csqlgo_conn_query S p (c_string sql));
        tryE (check_result S a (fst r)) (\<lambda>_. new_rows a (snd r))
      }))"

definition csConn_Prepare :: "sdk \<Rightarrow> nat option \<Rightarrow> string \<Rightarrow> (csdk, gerror + nat) state" where
  "csConn_Prepare S conn sql =
     (if sql = [] then throw CsInvalidArgument
      else with_open_conn conn (\<lambda>a p. do {
        r \<leftarrow> csN (csqlgo_conn_prepare S p (c_string sql));
        tryE (check_result S a (fst r)) (\<lambda>_. do {
          _ \<leftarrow> add_children a 1;
          s \<leftarrow> cs_new;
          _ \<leftarrow> set_stmt s \<lparr>stmt_conn = Some a, stmt_ptr = snd r\<rparr>;
          ok s })
      }))"

definition csConn_ExecBind :: "sdk \<Rightarrow> nat option \<Rightarrow> string \<Rightarrow> nat option \<Rightarrow> (csdk, gerror + unit) state" where
  "csConn_ExecBind S conn sql bnd =
     (if sql = [] \<or> bnd = None then throw CsInvalidArgument
      else with_open_conn conn (\<lambda>a p.
        with_open_bind bnd (\<lambda>b. do {
          result \<leftarrow> csN (csqlgo_conn_execute_bind S p (c_string sql) b);
          check_result S a result })))"

end
