(* ===== verification/Cube_Csdk_Handles.thy ===== *)
theory Cube_Csdk_Handles
  imports Cube_Csdk
begin

text \<open>
  The handle types of \<^verbatim>\<open>internal/csdk/csdk.go\<close> other than the connection: \<^verbatim>\<open>Bind\<close>, \<^verbatim>\<open>Rows\<close> and
  \<^verbatim>\<open>Stmt\<close>, and the list of operations a client of the package can call.
\<close>

section \<open>Bind\<close>

definition cs_NewBind :: "sdk \<Rightarrow> int \<Rightarrow> (csdk, gerror + nat) state" where
  "cs_NewBind S count =
     (if count \<le> 0 then throw CsInvalidArgument
      else do {
        p \<leftarrow> csN (csqlgo_bind_new S (c_int count));
        (if p = None then throw (CsError CSQLGO_ERR_MEMORY [])
         else do { b \<leftarrow> cs_new; _ \<leftarrow> set_bind b \<lparr>bind_ptr = p\<rparr>; ok b })
      })"

definition csBind_Close :: "nat option \<Rightarrow> (csdk, gerror + unit) state" where
  "csBind_Close bnd =
     (case bnd of
        None \<Rightarrow> ok ()
      | Some b \<Rightarrow> cs_locked (LCsBind b) (do {
          p \<leftarrow> gets (\<lambda>w. bind_ptr (gbinds w b));
          (if p = None then ok ()
           else do { _ \<leftarrow> set_bind b \<lparr>bind_ptr = None\<rparr>; _ \<leftarrow> csN (csqlgo_bind_close p); ok () }) }))"

text \<open>\<^verbatim>\<open>setBytes\<close> and \<^verbatim>\<open>bindBytes\<close>: an empty value is passed as NULL, any other as a C copy.\<close>

definition c_bytes :: "string \<Rightarrow> string option" where
  "c_bytes v = (if length v > 0 then Some v else None)"

definition csBind_setBytes ::
  "nat option \<Rightarrow> int \<Rightarrow> string \<Rightarrow>
     (nat option \<Rightarrow> int \<Rightarrow> string option \<Rightarrow> int \<Rightarrow> (native, int) state) \<Rightarrow> (csdk, gerror + unit) state" where
  "csBind_setBytes bnd index v setter =
     (if index \<le> 0 then throw CsInvalidArgument
      else csBind_set bnd (\<lambda>p. setter p (c_int index) (c_bytes v) (c_int (int (length v)))))"

definition csBind_SetInt64 :: "sdk \<Rightarrow> nat option \<Rightarrow> int \<Rightarrow> int \<Rightarrow> (csdk, gerror + unit) state" where
  "csBind_SetInt64 S bnd index v = csBind_set bnd (\<lambda>p. csqlgo_bind_set_int64 S p (c_int index) v)"

definition csBind_SetDouble :: "sdk \<Rightarrow> nat option \<Rightarrow> int \<Rightarrow> 64 word \<Rightarrow> (csdk, gerror + unit) state" where
  "csBind_SetDouble S bnd index v =
     (if is_nan v \<or> is_inf v then throw CsInvalidArgument
      else csBind_set bnd (\<lambda>p. csqlgo_bind_set_double S p (c_int index) v))"

definition csBind_SetText :: "sdk \<Rightarrow> nat option \<Rightarrow> int \<Rightarrow> string \<Rightarrow> (csdk, gerror + unit) state" where
  "csBind_SetText S bnd index v = csBind_setBytes bnd index v (csqlgo_bind_set_text S)"

definition csBind_SetBlob :: "sdk \<Rightarrow> nat option \<Rightarrow> int \<Rightarrow> string \<Rightarrow> (csdk, gerror + unit) state" where
  "csBind_SetBlob S bnd index v =
     (if index \<le> 0 then throw CsInvalidArgument
      else if length v = 0 then csBind_unsupported bnd
      else csBind_setBytes bnd index v (csqlgo_bind_set_blob S))"

definition csBind_SetNull :: "sdk \<Rightarrow> nat option \<Rightarrow> int \<Rightarrow> (csdk, gerror + unit) state" where
  "csBind_SetNull S bnd index = csBind_set bnd (\<lambda>p. csqlgo_bind_set_null S p (c_int index))"

definition csBind_SetZeroBlob :: "nat option \<Rightarrow> int \<Rightarrow> int \<Rightarrow> (csdk, gerror + unit) state" where
  "csBind_SetZeroBlob bnd index size' =
     (if index \<le> 0 \<or> size' < 0 then throw CsInvalidArgument else csBind_unsupported bnd)"

section \<open>Rows\<close>

definition csRows_Close :: "nat option \<Rightarrow> (csdk, gerror + unit) state" where
  "csRows_Close rows =
     (case rows of
        None \<Rightarrow> ok ()
      | Some r \<Rightarrow> do {
          c \<leftarrow> gets (\<lambda>w. rows_conn (grows w r));
          (case c of
             None \<Rightarrow> ok ()
           | Some a \<Rightarrow> cs_locked (LCsConn a) (do {
               p \<leftarrow> gets (\<lambda>w. rows_ptr (grows w r));
               (if p = None then ok ()
                else do {
                  _ \<leftarrow> set_rows r \<lparr>rows_conn = Some a, rows_ptr = None\<rparr>;
                  _ \<leftarrow> csN (csqlgo_cursor_close p);
                  _ \<leftarrow> add_children a (-1);
                  ok () }) }))
        })"

definition csRows_NumRows :: "sdk \<Rightarrow> nat option \<Rightarrow> (csdk, gerror + int) state" where
  "csRows_NumRows S rows = csRows_number rows (csqlgo_cursor_num_rows S)"

definition csRows_NumColumns :: "sdk \<Rightarrow> nat option \<Rightarrow> (csdk, gerror + int) state" where
  "csRows_NumColumns S rows = csRows_number rows (csqlgo_cursor_num_columns S)"

definition csRows_ColumnType :: "sdk \<Rightarrow> nat option \<Rightarrow> int \<Rightarrow> (csdk, gerror + int) state" where
  "csRows_ColumnType S rows column =
     (if column \<le> 0 then throw CsInvalidArgument
      else csRows_number rows (\<lambda>p. csqlgo_cursor_column_type S p (c_int column)))"

definition csRows_Seek :: "sdk \<Rightarrow> nat option \<Rightarrow> int \<Rightarrow> (csdk, gerror + unit) state" where
  "csRows_Seek S rows row =
     (if row \<le> 0 then throw CsInvalidArgument
      else with_open_rows rows (\<lambda>p. do {
        r \<leftarrow> csN (csqlgo_cursor_seek S p (c_int row));
        (if r = 0 then throw CsInvalidArgument else ok ()) }))"

definition csRows_Field :: "sdk \<Rightarrow> nat option \<Rightarrow> int \<Rightarrow> int \<Rightarrow> (csdk, gerror + string option \<times> bool) state" where
  "csRows_Field S rows row column =
     (if row \<le> 0 \<or> column \<le> 0 then throw CsInvalidArgument
      else csRows_copyField rows (\<lambda>p. csqlgo_cursor_copy_field S p (c_int row) (c_int column)))"

definition csRows_ColumnName :: "sdk \<Rightarrow> nat option \<Rightarrow> int \<Rightarrow> (csdk, gerror + string) state" where
  "csRows_ColumnName S rows column =
     (if column \<le> 0 then throw CsInvalidArgument
      else tryE (csRows_copyField rows (\<lambda>p. csqlgo_cursor_copy_column_name S p (c_int column)))
        (\<lambda>(v, isNull). if isNull then throw CsInvalidArgument
                       else ok (case v of None \<Rightarrow> [] | Some bytes \<Rightarrow> bytes)))"

section \<open>Stmt\<close>

definition csStmt_Close :: "sdk \<Rightarrow> nat option \<Rightarrow> (csdk, gerror + unit) state" where
  "csStmt_Close S stmt =
     (case stmt of
        None \<Rightarrow> ok ()
      | Some s \<Rightarrow> do {
          c \<leftarrow> gets (\<lambda>w. stmt_conn (gstmts w s));
          (case c of
             None \<Rightarrow> ok ()
           | Some a \<Rightarrow> cs_locked (LCsConn a) (do {
               p \<leftarrow> gets (\<lambda>w. stmt_ptr (gstmts w s));
               (if p = None then ok ()
                else do {
                  _ \<leftarrow> set_stmt s \<lparr>stmt_conn = Some a, stmt_ptr = None\<rparr>;
                  result \<leftarrow> csN (csqlgo_stmt_close S p);
                  _ \<leftarrow> add_children a (-1);
                  check_result S a result }) }))
        })"

definition csStmt_bindBytes ::
  "sdk \<Rightarrow> nat option \<Rightarrow> int \<Rightarrow> string \<Rightarrow>
     (nat option \<Rightarrow> int \<Rightarrow> string option \<Rightarrow> int \<Rightarrow> (native, int) state) \<Rightarrow> (csdk, gerror + unit) state" where
  "csStmt_bindBytes S stmt index v binder' =
     (if index \<le> 0 then throw CsInvalidArgument
      else csStmt_call S stmt (\<lambda>p. binder' p (c_int index) (c_bytes v) (c_int (int (length v)))))"

definition csStmt_BindInt64 :: "sdk \<Rightarrow> nat option \<Rightarrow> int \<Rightarrow> int \<Rightarrow> (csdk, gerror + unit) state" where
  "csStmt_BindInt64 S stmt index v = csStmt_call S stmt (\<lambda>p. csqlgo_stmt_bind_int64 S p (c_int index) v)"

definition csStmt_BindDouble :: "sdk \<Rightarrow> nat option \<Rightarrow> int \<Rightarrow> 64 word \<Rightarrow> (csdk, gerror + unit) state" where
  "csStmt_BindDouble S stmt index v =
     (if is_nan v \<or> is_inf v then throw CsInvalidArgument
      else csStmt_call S stmt (\<lambda>p. csqlgo_stmt_bind_double S p (c_int index) v))"

definition csStmt_BindText :: "sdk \<Rightarrow> nat option \<Rightarrow> int \<Rightarrow> string \<Rightarrow> (csdk, gerror + unit) state" where
  "csStmt_BindText S stmt index v = csStmt_bindBytes S stmt index v (csqlgo_stmt_bind_text S)"

definition csStmt_BindBlob :: "sdk \<Rightarrow> nat option \<Rightarrow> int \<Rightarrow> string \<Rightarrow> (csdk, gerror + unit) state" where
  "csStmt_BindBlob S stmt index v =
     (if index \<le> 0 then throw CsInvalidArgument
      else if length v = 0 then csStmt_unsupported stmt
      else csStmt_bindBytes S stmt index v (csqlgo_stmt_bind_blob S))"

definition csStmt_BindNull :: "sdk \<Rightarrow> nat option \<Rightarrow> int \<Rightarrow> (csdk, gerror + unit) state" where
  "csStmt_BindNull S stmt index = csStmt_call S stmt (\<lambda>p. csqlgo_stmt_bind_null S p (c_int index))"

definition csStmt_BindZeroBlob :: "sdk \<Rightarrow> nat option \<Rightarrow> int \<Rightarrow> int \<Rightarrow> (csdk, gerror + unit) state" where
  "csStmt_BindZeroBlob S stmt index size' =
     (if index \<le> 0 \<or> size' < 0 then throw CsInvalidArgument
      else csStmt_call S stmt (\<lambda>p. csqlgo_stmt_bind_zeroblob S p (c_int index) (c_int size')))"

definition csStmt_Exec :: "sdk \<Rightarrow> nat option \<Rightarrow> (csdk, gerror + unit) state" where
  "csStmt_Exec S stmt = csStmt_call S stmt (csqlgo_stmt_execute S)"

definition csStmt_Query :: "sdk \<Rightarrow> nat option \<Rightarrow> (csdk, gerror + nat) state" where
  "csStmt_Query S stmt =
     with_open_stmt stmt (\<lambda>a p. do {
       r \<leftarrow> csN (csqlgo_stmt_query S p);
       tryE (check_result S a (fst r)) (\<lambda>_. new_rows a (snd r)) })"

end
