(* ===== verification/Cube_Native_Safety.thy ===== *)
theory Cube_Native_Safety
  imports Cube_Native_Bind
begin

text \<open>
  Memory safety of the bridge. \<open>native_ok\<close> is its well-formedness invariant; \<open>nview\<close> abstracts its
  state to what its client sees (which structs are allocated, and which connection a statement
  belongs to). Every bridge function is shown to keep the invariant and to have a simple effect on
  the abstract view, for every SDK, server and allocator behaviour.
\<close>

section \<open>The abstract view and the invariant\<close>

record nview =
  v_conns :: "nat \<Rightarrow> bool"
  v_cursors :: "nat \<Rightarrow> bool"
  v_stmts :: "nat \<Rightarrow> nat option"
  v_binds :: "nat \<Rightarrow> bool"
  v_held :: "lock list"
  v_stuck :: bool

definition nview :: "native \<Rightarrow> nview" where
  "nview n = \<lparr> v_conns = (\<lambda>p. c_conns n p \<noteq> None), v_cursors = (\<lambda>p. c_cursors n p \<noteq> None),
     v_stmts = (\<lambda>p. map_option owner (c_stmts n p)), v_binds = (\<lambda>p. c_binds n p \<noteq> None),
     v_held = held n, v_stuck = stuck n \<rparr>"

lemma nview_fields [simp]:
  "v_conns (nview n) p \<longleftrightarrow> c_conns n p \<noteq> None"
  "v_cursors (nview n) p \<longleftrightarrow> c_cursors n p \<noteq> None"
  "v_stmts (nview n) p = map_option owner (c_stmts n p)"
  "v_binds (nview n) p \<longleftrightarrow> c_binds n p \<noteq> None"
  "v_held (nview n) = held n"
  "v_stuck (nview n) = stuck n"
  by (simp_all add: nview_def)

text \<open>The SDK handle each struct holds.\<close>

definition conn_db :: "(nat \<Rightarrow> csqlgo_conn option) \<Rightarrow> nat \<Rightarrow> nat option" where
  "conn_db cc p = (case cc p of None \<Rightarrow> None | Some c \<Rightarrow> db c)"

definition cur_handle :: "(nat \<Rightarrow> csqlgo_cursor option) \<Rightarrow> nat \<Rightarrow> nat option" where
  "cur_handle cc p = (case cc p of None \<Rightarrow> None | Some c \<Rightarrow> cursor c)"

definition stmt_vm :: "(nat \<Rightarrow> csqlgo_stmt option) \<Rightarrow> nat \<Rightarrow> nat option" where
  "stmt_vm cs p = (case cs p of None \<Rightarrow> None | Some s \<Rightarrow> vm s)"

lemma handle_upd [simp]:
  "conn_db (cc(p := None)) = (conn_db cc)(p := None)"
  "conn_db (cc(p \<mapsto> c)) = (conn_db cc)(p := db c)"
  "cur_handle (cu(p := None)) = (cur_handle cu)(p := None)"
  "cur_handle (cu(p \<mapsto> k)) = (cur_handle cu)(p := cursor k)"
  "stmt_vm (cs(p := None)) = (stmt_vm cs)(p := None)"
  "stmt_vm (cs(p \<mapsto> s)) = (stmt_vm cs)(p := vm s)"
  by (simp_all add: fun_eq_iff conn_db_def cur_handle_def stmt_vm_def)

lemma handle_none [simp]:
  "cc p = None \<Longrightarrow> conn_db cc p = None"
  "cu p = None \<Longrightarrow> cur_handle cu p = None"
  "cs p = None \<Longrightarrow> stmt_vm cs p = None"
  by (simp_all add: conn_db_def cur_handle_def stmt_vm_def)

text \<open>
  A bound slot: the SDK reads \<open>size\<close> bytes of a BLOB and, because it counts the terminating NUL of
  every other value, \<open>size + 1\<close> bytes of a text or number.
\<close>

definition slot_ok :: "int \<times> int \<times> string option \<Rightarrow> bool" where
  "slot_ok = (\<lambda>(type, size', buffer).
     0 \<le> size' \<and>
     (case buffer of
        None \<Rightarrow> type = 0 \<or> type = BIND_NULL
      | Some bytes \<Rightarrow> (if type = BIND_BLOB then size' else size' + 1) \<le> int (length bytes)))"

definition bind_ok :: "csqlgo_bind \<Rightarrow> bool" where
  "bind_ok b \<longleftrightarrow>
     0 \<le> bind_count b \<and> length (bind_values b) = nat (bind_count b) \<and>
     length (bind_sizes b) = nat (bind_count b) \<and> length (bind_types b) = nat (bind_count b) \<and>
     (\<forall>i < nat (bind_count b). slot_ok (bind_types b ! i, bind_sizes b ! i, bind_values b ! i))"

text \<open>Addresses never handed out are not in use.\<close>

definition fresh_ok :: "native \<Rightarrow> bool" where
  "fresh_ok n \<longleftrightarrow> (\<forall>p \<ge> brk n. c_conns n p = None \<and> c_cursors n p = None \<and> c_stmts n p = None \<and>
     c_binds n p = None \<and> \<not> dbs n p \<and> \<not> cursors n p \<and> vms n p = None)"

text \<open>A statement's VM is alive and runs on the database of the statement's owner.\<close>

definition vms_ok :: "native \<Rightarrow> bool" where
  "vms_ok n \<longleftrightarrow> (\<forall>p s v. c_stmts n p = Some s \<longrightarrow> vm s = Some v \<longrightarrow>
     (\<exists>d. vms n v = Some d \<and> conn_db (c_conns n) (owner s) = Some d))"

text \<open>A statement belongs to a connection that still exists.\<close>

definition owners_ok :: "native \<Rightarrow> bool" where
  "owners_ok n \<longleftrightarrow> (\<forall>p s. c_stmts n p = Some s \<longrightarrow> c_conns n (owner s) \<noteq> None)"

definition native_ok :: "native \<Rightarrow> bool" where
  "native_ok n \<longleftrightarrow>
     \<not> fault n \<and> fresh_ok n \<and> vms_ok n \<and> owners_ok n \<and>
     owns (conn_db (c_conns n)) (dbs n) \<and> owns (cur_handle (c_cursors n)) (cursors n) \<and>
     owns (stmt_vm (c_stmts n)) (\<lambda>v. vms n v \<noteq> None) \<and>
     (\<forall>p b. c_binds n p = Some b \<longrightarrow> bind_ok b)"

lemma native_init_ok: "native_ok native_init"
  by (simp add: native_ok_def native_init_def fresh_ok_def vms_ok_def owners_ok_def owns_def
      conn_db_def cur_handle_def stmt_vm_def)

section \<open>Logged calls\<close>

text \<open>The state after one more call in the history.\<close>

definition tick :: "event \<Rightarrow> native \<Rightarrow> native" where
  "tick e n = n\<lparr>hist := e # hist n, clock := (if remote e then Suc (clock n) else clock n)\<rparr>"

lemma tick_fields [simp]:
  "hist (tick e n) = e # hist n" "brk (tick e n) = brk n" "c_conns (tick e n) = c_conns n"
  "c_cursors (tick e n) = c_cursors n" "c_stmts (tick e n) = c_stmts n" "c_binds (tick e n) = c_binds n"
  "dbs (tick e n) = dbs n" "cursors (tick e n) = cursors n" "vms (tick e n) = vms n"
  "fault (tick e n) = fault n" "held (tick e n) = held n" "stuck (tick e n) = stuck n"
  by (simp_all add: tick_def)

lemma ok_tick [simp]: "native_ok (tick e n) = native_ok n"
  by (simp add: native_ok_def fresh_ok_def vms_ok_def owners_ok_def)

lemma nview_tick [simp]: "nview (tick e n) = nview n"
  by (simp add: nview_def)

lemma wp_log_call [wp_simps]: "wp (log_call e) Q = (\<lambda>n. Q (e # hist n) (tick e n))"
  by (simp add: log_call_def wp_simps fun_eq_iff tick_def)

lemma wp_malloc [wp_simps]: "wp (malloc_ok S) Q = (\<lambda>n. Q (r_ptr S (EAlloc # hist n)) (tick EAlloc n))"
  by (simp add: malloc_ok_def wp_simps)

lemma wp_new_addr [wp_simps]: "wp new_addr Q = (\<lambda>n. Q (brk n) (n\<lparr>brk := Suc (brk n)\<rparr>))"
  by (simp add: new_addr_def wp_simps)

lemma wp_fail_ub [wp_simps]: "wp (fail_ub x) Q = (\<lambda>n. Q x (n\<lparr>fault := True\<rparr>))"
  by (simp add: fail_ub_def wp_simps)

lemma wp_db_call [wp_simps]:
  "wp (db_call d e) Q =
     (\<lambda>n. if dbs n d then Q (e # hist n) (tick e n) else Q (e # hist n) ((tick e n)\<lparr>fault := True\<rparr>))"
  by (auto simp: db_call_def wp_simps fun_eq_iff)

lemma wp_cursor_call [wp_simps]:
  "wp (cursor_call k e) Q =
     (\<lambda>n. if cursors n k then Q (e # hist n) (tick e n)
          else Q (e # hist n) ((tick e n)\<lparr>fault := True\<rparr>))"
  by (auto simp: cursor_call_def wp_simps fun_eq_iff)

lemma wp_vm_call [wp_simps]:
  "wp (vm_call v e) Q =
     (\<lambda>n. if (case vms n v of None \<Rightarrow> False | Some d \<Rightarrow> dbs n d) then Q (e # hist n) (tick e n)
          else Q (e # hist n) ((tick e n)\<lparr>fault := True\<rparr>))"
  by (auto simp: vm_call_def wp_simps fun_eq_iff)

lemma wp_with_conn [wp_simps]:
  "wp (with_conn conn bad k) Q =
     (\<lambda>n. case conn of None \<Rightarrow> Q bad n
        | Some p \<Rightarrow> (case c_conns n p of None \<Rightarrow> Q bad (n\<lparr>fault := True\<rparr>)
            | Some s \<Rightarrow> (case db s of None \<Rightarrow> Q bad n | Some d \<Rightarrow> wp (k d) Q n)))"
  by (auto simp: with_conn_def wp_simps fun_eq_iff split: option.splits)

lemma wp_with_cursor [wp_simps]:
  "wp (with_cursor cur bad k) Q =
     (\<lambda>n. case cur of None \<Rightarrow> Q bad n
        | Some p \<Rightarrow> (case c_cursors n p of None \<Rightarrow> Q bad (n\<lparr>fault := True\<rparr>)
            | Some s \<Rightarrow> (case cursor s of None \<Rightarrow> Q bad n | Some h \<Rightarrow> wp (k h) Q n)))"
  by (auto simp: with_cursor_def wp_simps fun_eq_iff split: option.splits)

lemma wp_with_stmt [wp_simps]:
  "wp (with_stmt stmt bad k) Q =
     (\<lambda>n. case stmt of None \<Rightarrow> Q bad n
        | Some p \<Rightarrow> (case c_stmts n p of None \<Rightarrow> Q bad (n\<lparr>fault := True\<rparr>)
            | Some s \<Rightarrow> (case vm s of None \<Rightarrow> Q bad n | Some v \<Rightarrow> wp (k v (owner s)) Q n)))"
  by (auto simp: with_stmt_def wp_simps fun_eq_iff split: option.splits)

lemma wp_with_bind [wp_simps]:
  "wp (with_bind bnd bad k) Q =
     (\<lambda>n. case bnd of None \<Rightarrow> Q bad n
        | Some p \<Rightarrow> (case c_binds n p of None \<Rightarrow> Q bad (n\<lparr>fault := True\<rparr>) | Some s \<Rightarrow> wp (k p s) Q n))"
  by (auto simp: with_bind_def wp_simps fun_eq_iff split: option.splits)

section \<open>What the invariant gives\<close>

lemma native_ok_db: "native_ok n \<Longrightarrow> c_conns n p = Some c \<Longrightarrow> db c = Some d \<Longrightarrow> dbs n d"
  using owns_live [of "conn_db (c_conns n)" "dbs n" p d] by (simp add: native_ok_def conn_db_def)

lemma native_ok_cursor: "native_ok n \<Longrightarrow> c_cursors n p = Some c \<Longrightarrow> cursor c = Some k \<Longrightarrow> cursors n k"
  using owns_live [of "cur_handle (c_cursors n)" "cursors n" p k] by (simp add: native_ok_def cur_handle_def)

lemma native_ok_vm:
  assumes "native_ok n" and "c_stmts n p = Some s" and "vm s = Some v"
  shows "\<exists>d. vms n v = Some d \<and> dbs n d \<and> conn_db (c_conns n) (owner s) = Some d"
proof -
  from assms obtain d where "vms n v = Some d" "conn_db (c_conns n) (owner s) = Some d"
    unfolding native_ok_def vms_ok_def by blast
  moreover from this(2) assms(1) have "dbs n d"
    using owns_live unfolding native_ok_def by metis
  ultimately show ?thesis by blast
qed

end
