(* ===== verification/Cube_Native_Spec.thy ===== *)
theory Cube_Native_Spec
  imports Cube_Native_Safety
begin

text \<open>
  What each bridge function promises its Go caller: the invariant is kept and the abstract view
  changes in one way only. The calls that leave the view alone share one interface.
\<close>

section \<open>Calls that leave the view alone\<close>

definition quiet :: "native \<Rightarrow> native \<Rightarrow> bool" where
  "quiet n n' \<longleftrightarrow> native_ok n' \<and> nview n' = nview n"

lemma quiet_tick [simp]: "quiet n (tick e m) = quiet n m"
  by (simp add: quiet_def)

lemma quiet_refl [simp]: "native_ok n \<Longrightarrow> quiet n n"
  by (simp add: quiet_def)

lemma live_conn: "v_conns (nview n) p \<Longrightarrow> \<exists>c. c_conns n p = Some c"
  by auto

text \<open>
  \<open>f\<close> takes a pointer to a struct of one kind; \<open>live\<close> says in the abstract view that the struct is
  allocated. A call on a live pointer, or on NULL, is safe and leaves the view alone.
\<close>

locale bridge_call =
  fixes live :: "nview \<Rightarrow> nat \<Rightarrow> bool"
    and f :: "nat option \<Rightarrow> (native, 'r) state"
  assumes call_quiet:
    "native_ok n \<Longrightarrow> (\<And>p. ptr = Some p \<Longrightarrow> live (nview n) p) \<Longrightarrow> wp (f ptr) (\<lambda>_. quiet n) n"
begin

lemma quiet_on: "native_ok n \<Longrightarrow> live (nview n) p \<Longrightarrow> wp (f (Some p)) (\<lambda>_. quiet n) n"
  by (rule call_quiet) auto

lemma quiet_frame:
  assumes "native_ok n" and "live (nview n) p" and "\<And>r n'. quiet n n' \<Longrightarrow> Q r n'"
  shows "wp (f (Some p)) Q n"
  by (rule wp_mono [OF quiet_on]) (use assms in auto)

end

lemmas bridge_defs = db_int_def db_int64_def cursor_int_def vm_int_def vm_bytes_def csqlgo_copy_string_def

text \<open>A live VM handle is one the SDK accepts.\<close>

lemma vm_alive:
  "native_ok n \<Longrightarrow> c_stmts n p = Some s \<Longrightarrow> vm s = Some v \<Longrightarrow>
     (case vms n v of None \<Rightarrow> False | Some d \<Rightarrow> dbs n d)"
  using native_ok_vm by fastforce

lemmas handle_live = native_ok_db native_ok_cursor vm_alive

text \<open>The calls that hand one event to the SDK and return its number.\<close>

lemma db_int_call: "bridge_call v_conns (\<lambda>p. with_conn p bad (\<lambda>d. db_int S d (e d)))"
  by unfold_locales (auto simp: db_int_def wp_simps split: option.splits dest: handle_live)

lemma db_int64_call: "bridge_call v_conns (\<lambda>p. with_conn p bad (\<lambda>d. db_int64 S d (e d)))"
  by unfold_locales (auto simp: db_int64_def wp_simps split: option.splits dest: handle_live)

lemma cursor_int_call: "bridge_call v_cursors (\<lambda>p. with_cursor p bad (\<lambda>k. cursor_int S k (e k)))"
  by unfold_locales (auto simp: cursor_int_def wp_simps split: option.splits dest: handle_live)

lemma vm_int_call: "bridge_call (\<lambda>V p. v_stmts V p \<noteq> None) (\<lambda>p. with_stmt p bad (\<lambda>v own. vm_int S v (e v)))"
  by unfold_locales (auto simp: vm_int_def wp_simps split: option.splits dest: handle_live)

lemmas simple_calls = db_int_call db_int64_call cursor_int_call vm_int_call

text \<open>Calls on a connection.\<close>

interpretation ping: bridge_call v_conns "csqlgo_conn_ping S" for S
  unfolding csqlgo_conn_ping_def [abs_def] by (rule simple_calls)

interpretation execute: bridge_call v_conns "\<lambda>p. csqlgo_conn_execute S p sql" for S sql
  unfolding csqlgo_conn_execute_def [abs_def] by (rule simple_calls)

interpretation set_database: bridge_call v_conns "\<lambda>p. csqlgo_conn_set_database S p name" for S name
  unfolding csqlgo_conn_set_database_def [abs_def] by (rule simple_calls)

interpretation begin_tx: bridge_call v_conns "csqlgo_conn_begin S" for S
  unfolding csqlgo_conn_begin_def [abs_def] by (rule simple_calls)

interpretation commit_tx: bridge_call v_conns "csqlgo_conn_commit S" for S
  unfolding csqlgo_conn_commit_def [abs_def] by (rule simple_calls)

interpretation rollback_tx: bridge_call v_conns "csqlgo_conn_rollback S" for S
  unfolding csqlgo_conn_rollback_def [abs_def] by (rule simple_calls)

interpretation changes: bridge_call v_conns "csqlgo_conn_changes S" for S
  unfolding csqlgo_conn_changes_def [abs_def] by (rule simple_calls)

interpretation affected_rows: bridge_call v_conns "csqlgo_conn_affected_rows S" for S
  unfolding csqlgo_conn_affected_rows_def [abs_def] by (rule simple_calls)

interpretation last_insert_id: bridge_call v_conns "csqlgo_conn_last_insert_id S" for S
  unfolding csqlgo_conn_last_insert_id_def [abs_def] by (rule simple_calls)

interpretation error_code: bridge_call v_conns "csqlgo_conn_error_code S" for S
  unfolding csqlgo_conn_error_code_def [abs_def] by (rule simple_calls)

interpretation error_message: bridge_call v_conns "csqlgo_conn_error_message_copy S" for S
  by unfold_locales
    (auto simp: csqlgo_conn_error_message_copy_def bridge_defs wp_simps split: option.splits dest: handle_live)

text \<open>Calls on a cursor.\<close>

interpretation num_rows: bridge_call v_cursors "csqlgo_cursor_num_rows S" for S
  unfolding csqlgo_cursor_num_rows_def [abs_def] by (rule simple_calls)

interpretation num_columns: bridge_call v_cursors "csqlgo_cursor_num_columns S" for S
  unfolding csqlgo_cursor_num_columns_def [abs_def] by (rule simple_calls)

interpretation column_type: bridge_call v_cursors "\<lambda>p. csqlgo_cursor_column_type S p column" for S column
  unfolding csqlgo_cursor_column_type_def [abs_def] by (rule simple_calls)

interpretation seek: bridge_call v_cursors "\<lambda>p. csqlgo_cursor_seek S p row" for S row
  unfolding csqlgo_cursor_seek_def [abs_def] by (rule simple_calls)

interpretation copy_field: bridge_call v_cursors "\<lambda>p. csqlgo_cursor_copy_field S p row column" for S row column
  by unfold_locales
    (auto simp: csqlgo_cursor_copy_field_def bridge_defs wp_simps split: option.splits sum.splits dest: handle_live)

interpretation copy_name: bridge_call v_cursors "\<lambda>p. csqlgo_cursor_copy_column_name S p column" for S column
  by unfold_locales (simp add: csqlgo_cursor_copy_column_name_def copy_field.call_quiet)

text \<open>
  Calls on a prepared statement. A byte buffer handed to the SDK must be at least as long as the
  length that goes with it.
\<close>

abbreviation live_stmt :: "nview \<Rightarrow> nat \<Rightarrow> bool" where
  "live_stmt V p \<equiv> v_stmts V p \<noteq> None"

interpretation stmt_int64: bridge_call live_stmt "\<lambda>p. csqlgo_stmt_bind_int64 S p i v" for S i v
  unfolding csqlgo_stmt_bind_int64_def [abs_def] by (rule simple_calls)

interpretation stmt_double: bridge_call live_stmt "\<lambda>p. csqlgo_stmt_bind_double S p i v" for S i v
  unfolding csqlgo_stmt_bind_double_def [abs_def] by (rule simple_calls)

interpretation stmt_null: bridge_call live_stmt "\<lambda>p. csqlgo_stmt_bind_null S p i" for S i
  unfolding csqlgo_stmt_bind_null_def [abs_def] by (rule simple_calls)

interpretation stmt_zeroblob: bridge_call live_stmt "\<lambda>p. csqlgo_stmt_bind_zeroblob S p i size'" for S i size'
  by unfold_locales
    (auto simp: csqlgo_stmt_bind_zeroblob_def bridge_defs wp_simps split: option.splits dest: handle_live)

interpretation stmt_execute: bridge_call live_stmt "csqlgo_stmt_execute S" for S
  unfolding csqlgo_stmt_execute_def [abs_def] by (rule simple_calls)

section \<open>Calls that create or destroy structs\<close>

text \<open>What is known of an address that was never handed out.\<close>

lemma fresh_addr:
  assumes "native_ok n" and "brk n \<le> p"
  shows "c_conns n p = None" "c_cursors n p = None" "c_stmts n p = None" "c_binds n p = None"
    "\<not> dbs n p" "\<not> cursors n p" "vms n p = None"
  using assms by (auto simp: native_ok_def fresh_ok_def)

lemma fresh_not_owner:
  "native_ok n \<Longrightarrow> brk n \<le> p \<Longrightarrow> c_stmts n q = Some s \<Longrightarrow> owner s \<noteq> p"
  using fresh_addr(1) by (fastforce simp: native_ok_def owners_ok_def)

text \<open>
  A step that touches one kind of struct keeps the invariant of the others: only the ownership of
  the handles of that kind is left to show.
\<close>

lemma ok_conns:
  assumes "native_ok n"
    and "brk n \<le> brk m" "fault m = fault n" "c_cursors m = c_cursors n" "c_stmts m = c_stmts n"
      "c_binds m = c_binds n" "cursors m = cursors n" "vms m = vms n"
    and "owns (conn_db (c_conns m)) (dbs m)"
    and "\<And>q. brk m \<le> q \<Longrightarrow> c_conns m q = None \<and> \<not> dbs m q"
    and "\<And>q s. c_stmts n q = Some s \<Longrightarrow>
      c_conns m (owner s) \<noteq> None \<and> conn_db (c_conns m) (owner s) = conn_db (c_conns n) (owner s)"
  shows "native_ok m"
proof -
  have "fresh_ok m"
    using assms fresh_addr [OF assms(1)] by (simp add: fresh_ok_def)
  moreover have "vms_ok m"
    using assms(1,5,8,11) by (simp add: native_ok_def vms_ok_def)
  moreover have "owners_ok m"
    using assms(5,11) by (simp add: owners_ok_def)
  ultimately show ?thesis
    using assms by (simp add: native_ok_def)
qed

lemma ok_cursors:
  assumes "native_ok n"
    and "brk n \<le> brk m" "fault m = fault n" "c_conns m = c_conns n" "c_stmts m = c_stmts n"
      "c_binds m = c_binds n" "dbs m = dbs n" "vms m = vms n"
    and "owns (cur_handle (c_cursors m)) (cursors m)"
    and "\<And>q. brk m \<le> q \<Longrightarrow> c_cursors m q = None \<and> \<not> cursors m q"
  shows "native_ok m"
proof -
  have "fresh_ok m"
    using assms fresh_addr [OF assms(1)] by (simp add: fresh_ok_def)
  with assms show ?thesis
    by (simp add: native_ok_def vms_ok_def owners_ok_def)
qed

lemma ok_stmts:
  assumes "native_ok n"
    and "brk n \<le> brk m" "fault m = fault n" "c_conns m = c_conns n" "c_cursors m = c_cursors n"
      "c_binds m = c_binds n" "dbs m = dbs n" "cursors m = cursors n"
    and "owns (stmt_vm (c_stmts m)) (\<lambda>v. vms m v \<noteq> None)"
    and "\<And>q. brk m \<le> q \<Longrightarrow> c_stmts m q = None \<and> vms m q = None"
    and "vms_ok m" "owners_ok m"
  shows "native_ok m"
proof -
  have "fresh_ok m"
    using assms fresh_addr [OF assms(1)] by (simp add: fresh_ok_def)
  with assms show ?thesis
    by (simp add: native_ok_def)
qed

lemma ok_binds:
  assumes "native_ok n"
    and "brk n \<le> brk m" "fault m = fault n" "c_conns m = c_conns n" "c_cursors m = c_cursors n"
      "c_stmts m = c_stmts n" "dbs m = dbs n" "cursors m = cursors n" "vms m = vms n"
    and "\<And>q. brk m \<le> q \<Longrightarrow> c_binds m q = None"
    and "\<And>q b. c_binds m q = Some b \<Longrightarrow> bind_ok b"
  shows "native_ok m"
proof -
  have "fresh_ok m"
    using assms fresh_addr [OF assms(1)] by (simp add: fresh_ok_def)
  with assms show ?thesis
    by (simp add: native_ok_def vms_ok_def owners_ok_def)
qed

lemma owns_noop: "f a = None \<Longrightarrow> owns (f(a := None)) L = owns f L"
  by (simp add: fun_upd_idem)

lemma native_ok_owns:
  assumes "native_ok n"
  shows "owns (conn_db (c_conns n)) (dbs n)" "owns (cur_handle (c_cursors n)) (cursors n)"
    "owns (stmt_vm (c_stmts n)) (\<lambda>v. vms n v \<noteq> None)" "\<not> fault n" "vms_ok n" "owners_ok n"
  using assms by (simp_all add: native_ok_def)

text \<open>Handing out addresses and then putting everything back is quiet.\<close>

lemma quiet_same:
  assumes "native_ok n"
    and "brk n \<le> brk m" "fault m = fault n" "c_conns m = c_conns n" "c_cursors m = c_cursors n"
      "c_stmts m = c_stmts n" "c_binds m = c_binds n" "dbs m = dbs n" "cursors m = cursors n"
      "vms m = vms n" "held m = held n" "stuck m = stuck n"
  shows "quiet n m"
proof -
  have "fresh_ok m"
    using assms(2-10) fresh_addr [OF assms(1)] by (simp add: fresh_ok_def)
  with assms(1-10) have "native_ok m"
    by (simp add: native_ok_def vms_ok_def owners_ok_def)
  with assms(4-12) show ?thesis by (simp add: quiet_def nview_def)
qed

lemma put_back:
  assumes "native_ok n" and "brk n \<le> p"
  shows "(c_conns n)(p := None) = c_conns n" "(c_cursors n)(p := None) = c_cursors n"
    "(c_stmts n)(p := None) = c_stmts n" "(c_binds n)(p := None) = c_binds n"
    "(dbs n)(p := False) = dbs n" "(cursors n)(p := False) = cursors n" "(vms n)(p := None) = vms n"
  using fresh_addr [OF assms] by (simp_all add: fun_upd_idem)

text \<open>A new connection struct \<open>p\<close>.\<close>

definition conn_added :: "nat \<Rightarrow> native \<Rightarrow> native \<Rightarrow> bool" where
  "conn_added p n n' \<longleftrightarrow> native_ok n' \<and> \<not> v_conns (nview n) p \<and> (\<forall>q. v_stmts (nview n) q \<noteq> Some p) \<and>
     nview n' = (nview n)\<lparr>v_conns := (v_conns (nview n))(p := True)\<rparr>"

lemma conn_addedI:
  assumes ok: "native_ok n" and "fault m = fault n" "c_cursors m = c_cursors n"
      "c_stmts m = c_stmts n" "c_binds m = c_binds n" "cursors m = cursors n" "vms m = vms n"
      "held m = held n" "stuck m = stuck n"
    and upd: "c_conns m = (c_conns n)(brk n \<mapsto> \<lparr>db = d\<rparr>)"
    and cases: "d = None \<and> brk m = Suc (brk n) \<and> dbs m = dbs n \<or>
      d = Some (Suc (brk n)) \<and> brk m = Suc (Suc (brk n)) \<and> dbs m = (dbs n)(Suc (brk n) := True)"
  shows "conn_added (brk n) n m"
proof -
  note fr = fresh_addr [OF ok]
  have own: "owner s \<noteq> brk n" "c_conns n (owner s) \<noteq> None" if "c_stmts n q = Some s" for q s
    using fresh_not_owner [OF ok _ that] that ok by (auto simp: native_ok_def owners_ok_def)
  have owns': "owns (conn_db (c_conns m)) (dbs m)"
    using cases native_ok_owns(1) [OF ok] fr upd by (auto simp: owns_noop intro!: owns_give)
  have "native_ok m"
    by (rule ok_conns [OF ok _ _ _ _ _ _ _ owns'])
      (use assms(2-9) cases fr own in \<open>auto simp: upd\<close>)
  moreover have "nview m = (nview n)\<lparr>v_conns := (v_conns (nview n))(brk n := True)\<rparr>"
    using assms by (simp add: nview_def fun_eq_iff)
  ultimately show ?thesis
    using own fr by (auto simp: conn_added_def)
qed

text \<open>Opening: a new connection struct, or nothing.\<close>

theorem conn_open_spec:
  assumes ok: "native_ok n"
  shows "wp (csqlgo_conn_open S host port user pass timeout enc)
    (\<lambda>(code, out, msg) n'. if code = CSQLGO_OK then \<exists>p. out = Some p \<and> conn_added p n n'
       else out = None \<and> quiet n n') n"
  by (simp add: csqlgo_conn_open_def bridge_defs sdk_disconnect_def wp_simps)
    (auto simp: ok put_back [OF ok] intro!: quiet_same [OF ok] conn_addedI [OF ok])

text \<open>Closing a connection no statement belongs to; this is the only way to lose a connection struct.\<close>

theorem conn_close_spec:
  assumes ok: "native_ok n" and live: "v_conns (nview n) p" and free: "\<And>q. v_stmts (nview n) q \<noteq> Some p"
  shows "wp (csqlgo_conn_close (Some p) gracefully)
    (\<lambda>_ n'. native_ok n' \<and> nview n' = (nview n)\<lparr>v_conns := (v_conns (nview n))(p := False)\<rparr>) n"
proof -
  from live obtain c where c: "c_conns n p = Some c" by auto
  note fr = fresh_addr [OF ok]
  have own: "owner s \<noteq> p" "c_conns n (owner s) \<noteq> None" if "c_stmts n q = Some s" for q s
    using free [of q] that ok by (auto simp: native_ok_def owners_ok_def)
  have ok': "native_ok m"
    if "brk m = brk n" "fault m = fault n" "c_cursors m = c_cursors n" "c_stmts m = c_stmts n"
      "c_binds m = c_binds n" "cursors m = cursors n" "vms m = vms n" "c_conns m = (c_conns n)(p := None)"
      "dbs m = (case db c of None \<Rightarrow> dbs n | Some d \<Rightarrow> (dbs n)(d := False))" for m
  proof -
    have "owns (conn_db (c_conns m)) (dbs m)"
      using that(8,9) native_ok_owns(1) [OF ok] c
      by (cases "db c") (auto simp: owns_noop conn_db_def intro!: owns_drop)
    note owns' = this
    show ?thesis
      by (rule ok_conns [OF ok _ _ _ _ _ _ _ owns'])
        (use that fr own in \<open>auto simp: conn_db_def split: option.splits\<close>)
  qed
  show ?thesis
  proof (cases "db c")
    case None
    with c show ?thesis
      by (auto simp: csqlgo_conn_close_def wp_simps nview_def fun_eq_iff intro!: ok')
  next
    case (Some d)
    with c native_ok_db [OF ok c Some] show ?thesis
      by (auto simp: csqlgo_conn_close_def sdk_disconnect_def wp_simps nview_def fun_eq_iff intro!: ok')
  qed
qed

section \<open>Cursors\<close>

definition cursor_added :: "nat \<Rightarrow> native \<Rightarrow> native \<Rightarrow> bool" where
  "cursor_added p n n' \<longleftrightarrow> native_ok n' \<and> \<not> v_cursors (nview n) p \<and>
     nview n' = (nview n)\<lparr>v_cursors := (v_cursors (nview n))(p := True)\<rparr>"

lemma cursor_added_tick [simp]: "cursor_added p (tick e n) m = cursor_added p n m"
  by (simp add: cursor_added_def)

lemma quiet_from_tick [simp]: "quiet (tick e n) = quiet n"
  by (simp add: quiet_def fun_eq_iff)

text \<open>The outcome of a query: a new cursor, or an error and nothing new.\<close>

definition cursor_result :: "native \<Rightarrow> int \<times> nat option \<Rightarrow> native \<Rightarrow> bool" where
  "cursor_result n = (\<lambda>(code, out) n'.
     if code = CSQLGO_OK then \<exists>p. out = Some p \<and> cursor_added p n n' else out = None \<and> quiet n n')"

lemma cursor_result_tick [simp]: "cursor_result (tick e n) = cursor_result n"
  by (simp add: cursor_result_def)

lemma cursor_result_none [simp]: "cursor_result n (code, None) m \<longleftrightarrow> code \<noteq> CSQLGO_OK \<and> quiet n m"
  by (simp add: cursor_result_def)

lemma cursor_result_some [simp]: "cursor_result n (CSQLGO_OK, Some p) m = cursor_added p n m"
  by (simp add: cursor_result_def)

lemma wrap_cursor_spec:
  assumes ok: "native_ok n"
  shows "wp (wrap_cursor S) (cursor_result n) n"
proof -
  note fr = fresh_addr [OF ok]
  have added: "cursor_added (Suc (brk n)) n m"
    if "brk m = Suc (Suc (brk n))" "fault m = fault n" "c_conns m = c_conns n" "c_stmts m = c_stmts n"
      "c_binds m = c_binds n" "dbs m = dbs n" "vms m = vms n" "held m = held n" "stuck m = stuck n"
      "c_cursors m = (c_cursors n)(Suc (brk n) \<mapsto> \<lparr>cursor = Some (brk n)\<rparr>)"
      "cursors m = (cursors n)(brk n := True)" for m
  proof -
    have "owns (cur_handle (c_cursors m)) (cursors m)"
      using that(10,11) native_ok_owns(2) [OF ok] fr by (auto intro!: owns_give)
    note owns' = this
    have "native_ok m"
      by (rule ok_cursors [OF ok _ _ _ _ _ _ _ owns']) (use that fr in auto)
    then show ?thesis
      using that fr by (auto simp: cursor_added_def nview_def fun_eq_iff)
  qed
  show ?thesis
    by (simp add: wrap_cursor_def sdk_cursor_free_def wp_simps)
      (auto simp: ok put_back [OF ok] intro!: quiet_same [OF ok] added)
qed

theorem conn_query_spec:
  assumes ok: "native_ok n" and live: "v_conns (nview n) p"
  shows "wp (csqlgo_conn_query S (Some p) sql) (cursor_result n) n"
proof -
  from live obtain c where c: "c_conns n p = Some c" by auto
  have "wp (wrap_cursor S) (cursor_result n) (tick e n)" for e
    using wrap_cursor_spec [of "tick e n"] ok by simp
  with ok c native_ok_db [OF ok c] show ?thesis
    by (auto simp: csqlgo_conn_query_def bridge_defs wp_simps split: option.splits)
qed

theorem cursor_close_spec:
  assumes ok: "native_ok n" and live: "v_cursors (nview n) p"
  shows "wp (csqlgo_cursor_close (Some p))
    (\<lambda>_ n'. native_ok n' \<and> nview n' = (nview n)\<lparr>v_cursors := (v_cursors (nview n))(p := False)\<rparr>) n"
proof -
  from live obtain c where c: "c_cursors n p = Some c" by auto
  note fr = fresh_addr [OF ok]
  have ok': "native_ok m"
    if "brk m = brk n" "fault m = fault n" "c_conns m = c_conns n" "c_stmts m = c_stmts n"
      "c_binds m = c_binds n" "dbs m = dbs n" "vms m = vms n" "c_cursors m = (c_cursors n)(p := None)"
      "cursors m = (case cursor c of None \<Rightarrow> cursors n | Some k \<Rightarrow> (cursors n)(k := False))" for m
  proof -
    have "owns (cur_handle (c_cursors m)) (cursors m)"
      using that(8,9) native_ok_owns(2) [OF ok] c
      by (cases "cursor c") (auto simp: owns_noop cur_handle_def intro!: owns_drop)
    note owns' = this
    show ?thesis
      by (rule ok_cursors [OF ok _ _ _ _ _ _ _ owns'])
        (use that fr in \<open>auto split: option.splits\<close>)
  qed
  show ?thesis
  proof (cases "cursor c")
    case None
    with c show ?thesis
      by (auto simp: csqlgo_cursor_close_def wp_simps nview_def fun_eq_iff intro!: ok')
  next
    case (Some k)
    with c native_ok_cursor [OF ok c Some] show ?thesis
      by (auto simp: csqlgo_cursor_close_def sdk_cursor_free_def wp_simps nview_def fun_eq_iff intro!: ok')
  qed
qed

section \<open>Prepared statements\<close>

definition stmt_added :: "nat \<Rightarrow> nat \<Rightarrow> native \<Rightarrow> native \<Rightarrow> bool" where
  "stmt_added own p n n' \<longleftrightarrow> native_ok n' \<and> v_stmts (nview n) p = None \<and>
     nview n' = (nview n)\<lparr>v_stmts := (v_stmts (nview n))(p \<mapsto> own)\<rparr>"

definition stmt_result :: "nat \<Rightarrow> native \<Rightarrow> int \<times> nat option \<Rightarrow> native \<Rightarrow> bool" where
  "stmt_result own n = (\<lambda>(code, out) n'.
     if code = CSQLGO_OK then \<exists>p. out = Some p \<and> stmt_added own p n n' else out = None \<and> quiet n n')"

lemma stmt_result_none [simp]: "stmt_result own n (code, None) m \<longleftrightarrow> code \<noteq> CSQLGO_OK \<and> quiet n m"
  by (simp add: stmt_result_def)

lemma stmt_result_some [simp]: "stmt_result own n (CSQLGO_OK, Some p) m = stmt_added own p n m"
  by (simp add: stmt_result_def)

theorem conn_prepare_spec:
  assumes ok: "native_ok n" and live: "v_conns (nview n) p"
  shows "wp (csqlgo_conn_prepare S (Some p) sql) (stmt_result p n) n"
proof -
  from live obtain c where c: "c_conns n p = Some c" by auto
  note fr = fresh_addr [OF ok]
  have added: "stmt_added p (Suc (brk n)) n m"
    if "db c = Some d" "brk m = Suc (Suc (brk n))" "fault m = fault n" "c_conns m = c_conns n"
      "c_cursors m = c_cursors n" "c_binds m = c_binds n" "dbs m = dbs n" "cursors m = cursors n"
      "held m = held n" "stuck m = stuck n"
      "c_stmts m = (c_stmts n)(Suc (brk n) \<mapsto> \<lparr>vm = Some (brk n), owner = p\<rparr>)"
      "vms m = (vms n)(brk n \<mapsto> d)" for d m
  proof -
    have vm_used: "v \<noteq> brk n" if "c_stmts n q = Some s" "vm s = Some v" for q s v
      using native_ok_vm [OF ok that] fr by auto
    have "vms_ok m"
      using that(1,4,11,12) native_ok_owns(5) [OF ok] c vm_used
      by (auto simp: vms_ok_def conn_db_def)
    moreover have "owners_ok m"
      using that(4,11) native_ok_owns(6) [OF ok] c by (auto simp: owners_ok_def)
    moreover have "(\<lambda>v. vms m v \<noteq> None) = (\<lambda>v. vms n v \<noteq> None)(brk n := True)"
      using that(12) by (simp add: fun_eq_iff)
    then have "owns (stmt_vm (c_stmts m)) (\<lambda>v. vms m v \<noteq> None)"
      using owns_give [OF native_ok_owns(3) [OF ok], of "Suc (brk n)" "brk n"] that(11) fr by simp
    ultimately have "native_ok m"
      by (intro ok_stmts [OF ok]) (use that fr in auto)
    then show ?thesis
      using that fr by (auto simp: stmt_added_def nview_def fun_eq_iff)
  qed
  from ok c native_ok_db [OF ok c] show ?thesis
    by (auto simp: csqlgo_conn_prepare_def sdk_vmclose_def bridge_defs wp_simps put_back [OF ok]
        split: option.splits intro!: quiet_same [OF ok] added)
qed

theorem stmt_query_spec:
  assumes ok: "native_ok n" and live: "v_stmts (nview n) p = Some own"
  shows "wp (csqlgo_stmt_query S (Some p)) (cursor_result n) n"
proof -
  from live obtain s where s: "c_stmts n p = Some s" "owner s = own" by auto
  have "wp (wrap_cursor S) (cursor_result n) (tick e n)" for e
    using wrap_cursor_spec [of "tick e n"] ok by simp
  moreover have "c_conns n own \<noteq> None"
    using ok s by (auto simp: native_ok_def owners_ok_def)
  then have "wp (csqlgo_conn_error_code S (Some own))
      (\<lambda>r m. (if r = CUBESQL_NOERR then CUBESQL_ERR else r) \<noteq> CUBESQL_NOERR \<and> quiet n m) (tick e n)" for e
    by (rule_tac error_code.quiet_frame) (use ok in auto)
  ultimately show ?thesis
    using ok s vm_alive [OF ok s(1)]
    by (auto simp: csqlgo_stmt_query_def wp_simps split: option.splits)
qed

text \<open>
  Closing a statement frees its struct whatever the SDK reports, and takes its VM with it while the
  connection is still there.
\<close>

theorem stmt_close_spec:
  assumes ok: "native_ok n" and live: "v_stmts (nview n) p \<noteq> None"
  shows "wp (csqlgo_stmt_close S (Some p))
    (\<lambda>_ n'. native_ok n' \<and> nview n' = (nview n)\<lparr>v_stmts := (v_stmts (nview n))(p := None)\<rparr>) n"
proof -
  from live obtain s where s: "c_stmts n p = Some s" by auto
  note fr = fresh_addr [OF ok]
  have ok': "native_ok m"
    if "brk m = brk n" "fault m = fault n" "c_conns m = c_conns n" "c_cursors m = c_cursors n"
      "c_binds m = c_binds n" "dbs m = dbs n" "cursors m = cursors n" "c_stmts m = (c_stmts n)(p := None)"
      "vms m = (case vm s of None \<Rightarrow> vms n | Some v \<Rightarrow> (vms n)(v := None))" for m
  proof -
    have other: "v \<noteq> u" if "c_stmts n q = Some t" "vm t = Some v" "q \<noteq> p" "vm s = Some u" for q t v u
      using owns_inj [OF native_ok_owns(3) [OF ok], of q v p] that s by (auto simp: stmt_vm_def)
    have "vms_ok m"
      using that(3,8,9) native_ok_owns(5) [OF ok] other
      by (auto simp: vms_ok_def split: option.splits)
    moreover have "owners_ok m"
      using that(3,8) native_ok_owns(6) [OF ok] by (auto simp: owners_ok_def)
    moreover have "owns (stmt_vm (c_stmts m)) (\<lambda>v. vms m v \<noteq> None)"
    proof (cases "vm s")
      case None
      with that(8,9) native_ok_owns(3) [OF ok] s show ?thesis
        by (simp add: owns_noop stmt_vm_def)
    next
      case (Some v)
      have "(\<lambda>u. vms m u \<noteq> None) = (\<lambda>u. vms n u \<noteq> None)(v := False)"
        using that(9) Some by (simp add: fun_eq_iff)
      with owns_drop [OF native_ok_owns(3) [OF ok], of p v] that(8) s Some show ?thesis
        by (simp add: stmt_vm_def)
    qed
    ultimately show ?thesis
      by (intro ok_stmts [OF ok]) (use that fr in \<open>auto split: option.splits\<close>)
  qed
  show ?thesis
    using s vm_alive [OF ok s]
    by (cases "vm s")
      (auto simp: csqlgo_stmt_close_def sdk_vmclose_def wp_simps nview_def fun_eq_iff intro!: ok')
qed

text \<open>A text or BLOB is only read as far as the caller's buffer reaches.\<close>

definition fits :: "string option \<Rightarrow> int \<Rightarrow> bool" where
  "fits v len \<longleftrightarrow> (case v of None \<Rightarrow> True | Some bytes \<Rightarrow> nat len \<le> length bytes)"

lemma stmt_text_quiet:
  assumes "native_ok n" and "v_stmts (nview n) p \<noteq> None" and "fits v len"
  shows "wp (csqlgo_stmt_bind_text S (Some p) i v len) (\<lambda>_. quiet n) n"
  using assms by (auto simp: csqlgo_stmt_bind_text_def fits_def bridge_defs wp_simps
      split: option.splits dest: handle_live)

lemma stmt_blob_quiet:
  assumes "native_ok n" and "v_stmts (nview n) p \<noteq> None" and "fits v len"
  shows "wp (csqlgo_stmt_bind_blob S (Some p) i v len) (\<lambda>_. quiet n) n"
  using assms by (auto simp: csqlgo_stmt_bind_blob_def fits_def bridge_defs wp_simps
      split: option.splits dest: handle_live)

section \<open>The bind graph\<close>

definition bind_added :: "nat \<Rightarrow> native \<Rightarrow> native \<Rightarrow> bool" where
  "bind_added p n n' \<longleftrightarrow> native_ok n' \<and> \<not> v_binds (nview n) p \<and>
     nview n' = (nview n)\<lparr>v_binds := (v_binds (nview n))(p := True)\<rparr>"

lemma ok_bindsD: "native_ok n \<Longrightarrow> c_binds n p = Some b \<Longrightarrow> bind_ok b"
  by (auto simp: native_ok_def)

lemma bind_ok_empty: "bind_ok \<lparr>bind_count = c, bind_values = replicate (nat c) None,
    bind_sizes = replicate (nat c) 0, bind_types = replicate (nat c) 0\<rparr> \<longleftrightarrow> 0 \<le> c"
  by (auto simp: bind_ok_def slot_ok_def)

theorem bind_new_spec:
  assumes ok: "native_ok n"
  shows "wp (csqlgo_bind_new S count)
    (\<lambda>r n'. case r of None \<Rightarrow> quiet n n' | Some p \<Rightarrow> 0 < count \<and> bind_added p n n') n"
proof -
  note fr = fresh_addr [OF ok]
  have added: "bind_added (brk n) n m"
    if "brk m = Suc (brk n)" "fault m = fault n" "c_conns m = c_conns n" "c_cursors m = c_cursors n"
      "c_stmts m = c_stmts n" "dbs m = dbs n" "cursors m = cursors n" "vms m = vms n"
      "held m = held n" "stuck m = stuck n" "c_binds m = (c_binds n)(brk n \<mapsto> b)" "bind_ok b" for m b
  proof -
    have "native_ok m"
      by (rule ok_binds [OF ok]) (use that fr ok_bindsD [OF ok] in \<open>auto split: if_splits\<close>)
    then show ?thesis
      using that fr by (auto simp: bind_added_def nview_def fun_eq_iff)
  qed
  show ?thesis
    by (auto simp: csqlgo_bind_new_def csqlgo_bind_close_def wp_simps ok put_back [OF ok]
        bind_ok_empty intro!: quiet_same [OF ok] added)
qed

theorem bind_close_spec:
  assumes ok: "native_ok n" and live: "v_binds (nview n) p"
  shows "wp (csqlgo_bind_close (Some p))
    (\<lambda>_ n'. native_ok n' \<and> nview n' = (nview n)\<lparr>v_binds := (v_binds (nview n))(p := False)\<rparr>) n"
proof -
  note fr = fresh_addr [OF ok]
  have "native_ok (n\<lparr>c_binds := (c_binds n)(p := None)\<rparr>)"
    by (rule ok_binds [OF ok]) (use fr ok_bindsD [OF ok] in \<open>auto split: if_splits\<close>)
  with live show ?thesis
    by (auto simp: csqlgo_bind_close_def wp_simps nview_def fun_eq_iff)
qed

text \<open>Setting a slot keeps every slot within its buffer.\<close>

lemma slot_ok_buffer:
  assumes "0 \<le> len" and "fits v len" and "v = None \<longrightarrow> len \<le> 0"
  shows "slot_ok (type, len, Some (bind_buffer type len (case v of None \<Rightarrow> [] | Some b \<Rightarrow> b)))"
  using assms by (cases v) (auto simp: slot_ok_def bind_buffer_def fits_def Let_def min_def)

lemma bind_ok_set:
  assumes "bind_ok b" and "0 < i" and "i \<le> bind_count b" and "slot_ok (t, l, v)"
  shows "bind_ok (b\<lparr>bind_values := (bind_values b)[nat (i - 1) := v],
    bind_sizes := (bind_sizes b)[nat (i - 1) := l], bind_types := (bind_types b)[nat (i - 1) := t]\<rparr>)"
  using assms by (auto simp: bind_ok_def nth_list_update)

lemma bind_set_quiet:
  assumes ok: "native_ok n" and live: "v_binds (nview n) p" and fit: "fits v len"
  shows "wp (csqlgo_bind_set_bytes S (Some p) i v len type) (\<lambda>_. quiet n) n"
proof -
  from live obtain b where b: "c_binds n p = Some b" by auto
  note fr = fresh_addr [OF ok]
  have upd: "quiet n m"
    if "0 < i" "i \<le> bind_count b" "0 \<le> len" "v = None \<longrightarrow> len \<le> 0" "type \<noteq> BIND_NULL \<longrightarrow> buf \<noteq> None"
      "brk m = brk n" "fault m = fault n" "c_conns m = c_conns n" "c_cursors m = c_cursors n"
      "c_stmts m = c_stmts n" "dbs m = dbs n" "cursors m = cursors n" "vms m = vms n"
      "held m = held n" "stuck m = stuck n"
      "buf = None \<or> buf = Some (bind_buffer type len (case v of None \<Rightarrow> [] | Some x \<Rightarrow> x))"
      "c_binds m = (c_binds n)(p \<mapsto> b\<lparr>bind_values := (bind_values b)[nat (i - 1) := buf],
         bind_sizes := (bind_sizes b)[nat (i - 1) := len], bind_types := (bind_types b)[nat (i - 1) := type]\<rparr>)"
    for m buf
  proof -
    have "slot_ok (type, len, buf)"
      using that(3,4,5,16) slot_ok_buffer [OF _ fit, of type] by (cases buf) (auto simp: slot_ok_def)
    note new = bind_ok_set [OF ok_bindsD [OF ok b] that(1,2) this]
    have "native_ok m"
      by (rule ok_binds [OF ok])
        (use that fr b new ok_bindsD [OF ok] in \<open>auto split: if_splits\<close>)
    then show ?thesis
      using that b by (auto simp: quiet_def nview_def fun_eq_iff)
  qed
  show ?thesis
    using b fit
    by (cases v) (auto simp: csqlgo_bind_set_bytes_def wp_simps ok Let_def fits_def intro!: upd)
qed

lemma fits_c_string: "fits (Some text) (int (length text))"
  by (simp add: fits_def)

lemma execute_bind_quiet:
  assumes ok: "native_ok n" and "v_conns (nview n) p" and "v_binds (nview n) q"
  shows "wp (csqlgo_conn_execute_bind S (Some p) sql (Some q)) (\<lambda>_. quiet n) n"
  using assms
  by (auto simp: csqlgo_conn_execute_bind_def bridge_defs wp_simps split: option.splits dest: handle_live)

text \<open>
  The rows of every graph handed to the SDK: all slots set, and none larger than its buffer.
\<close>

definition rows_safe :: "(int \<times> int \<times> string option) list \<Rightarrow> bool" where
  "rows_safe rows \<longleftrightarrow> list_all (\<lambda>r. fst r \<noteq> 0 \<and> slot_ok r) rows"

lemma bind_rows_safe:
  assumes "bind_ok b" and "\<not> list_ex (\<lambda>t. t = 0) (bind_types b)"
  shows "rows_safe (bind_rows b) \<and> length (bind_rows b) = nat (bind_count b)"
  using assms by (auto simp: rows_safe_def bind_rows_def bind_ok_def list_all_length list_ex_length)

definition binds_safe :: "event list \<Rightarrow> bool" where
  "binds_safe es \<longleftrightarrow> list_all (\<lambda>e. case e of EBind d sql rows \<Rightarrow> rows_safe rows | _ \<Rightarrow> True) es"

lemma execute_bind_safe:
  assumes ok: "native_ok n" and "v_conns (nview n) p" and "v_binds (nview n) q"
  shows "wp (csqlgo_conn_execute_bind S (Some p) sql (Some q))
    (\<lambda>_ n'. \<exists>es. hist n' = es @ hist n \<and> binds_safe es) n"
proof -
  from assms obtain c b where cb: "c_conns n p = Some c" "c_binds n q = Some b" by auto
  show ?thesis
    using bind_rows_safe [OF ok_bindsD [OF ok cb(2)]] cb native_ok_db [OF ok cb(1)]
    by (auto simp: csqlgo_conn_execute_bind_def bridge_defs wp_simps binds_safe_def
        append_eq_Cons_conv split: option.splits)
qed

end
