(* ===== verification/Cube_Csdk_Safety.thy ===== *)
theory Cube_Csdk_Safety
  imports Cube_Csdk_Handles Cube_Native_Spec
begin

text \<open>
  Handle safety of the private Go package. Every open Go object owns exactly one C struct, every C
  struct is owned by exactly one open Go object, a connection's \<open>children\<close> counts its open cursors
  and statements, and no method blocks on a mutex its own goroutine holds.
\<close>

section \<open>The invariant\<close>

text \<open>The connection an open cursor (statement) belongs to; \<open>None\<close> when it is closed.\<close>

definition open_rows :: "(nat \<Rightarrow> cs_rows) \<Rightarrow> nat \<Rightarrow> nat option" where
  "open_rows R r = (if rows_ptr (R r) = None then None else rows_conn (R r))"

definition open_stmt :: "(nat \<Rightarrow> cs_stmt) \<Rightarrow> nat \<Rightarrow> nat option" where
  "open_stmt T s = (if stmt_ptr (T s) = None then None else stmt_conn (T s))"

definition child_count :: "nat \<Rightarrow> (nat \<Rightarrow> cs_rows) \<Rightarrow> (nat \<Rightarrow> cs_stmt) \<Rightarrow> nat \<Rightarrow> int" where
  "child_count g R T a =
     count_upto g (\<lambda>r. open_rows R r = Some a) + count_upto g (\<lambda>s. open_stmt T s = Some a)"

text \<open>Open Go objects and C structs belong to each other one to one.\<close>

definition owned_ok ::
  "nview \<Rightarrow> (nat \<Rightarrow> cs_conn) \<Rightarrow> (nat \<Rightarrow> cs_rows) \<Rightarrow> (nat \<Rightarrow> cs_stmt) \<Rightarrow> (nat \<Rightarrow> cs_bind) \<Rightarrow> bool" where
  "owned_ok V C R T B \<longleftrightarrow>
     owns (\<lambda>a. conn_ptr (C a)) (v_conns V) \<and> owns (\<lambda>r. rows_ptr (R r)) (v_cursors V) \<and>
     owns (\<lambda>s. stmt_ptr (T s)) (\<lambda>p. v_stmts V p \<noteq> None) \<and> owns (\<lambda>b. bind_ptr (B b)) (v_binds V)"

text \<open>An open cursor or statement belongs to an open connection.\<close>

definition parents_ok :: "nview \<Rightarrow> (nat \<Rightarrow> cs_conn) \<Rightarrow> (nat \<Rightarrow> cs_rows) \<Rightarrow> (nat \<Rightarrow> cs_stmt) \<Rightarrow> bool" where
  "parents_ok V C R T \<longleftrightarrow>
     (\<forall>r. rows_ptr (R r) \<noteq> None \<longrightarrow> (\<exists>a. rows_conn (R r) = Some a \<and> conn_ptr (C a) \<noteq> None)) \<and>
     (\<forall>s p. stmt_ptr (T s) = Some p \<longrightarrow>
        (\<exists>a q. stmt_conn (T s) = Some a \<and> conn_ptr (C a) = Some q \<and> v_stmts V p = Some q))"

definition unborn_ok ::
  "nat \<Rightarrow> (nat \<Rightarrow> cs_conn) \<Rightarrow> (nat \<Rightarrow> cs_rows) \<Rightarrow> (nat \<Rightarrow> cs_stmt) \<Rightarrow> (nat \<Rightarrow> cs_bind) \<Rightarrow> bool" where
  "unborn_ok g C R T B \<longleftrightarrow> (\<forall>a \<ge> g. conn_ptr (C a) = None \<and> rows_ptr (R a) = None \<and>
     stmt_ptr (T a) = None \<and> bind_ptr (B a) = None)"

definition heap_ok ::
  "nview \<Rightarrow> (nat \<Rightarrow> cs_conn) \<Rightarrow> (nat \<Rightarrow> cs_rows) \<Rightarrow> (nat \<Rightarrow> cs_stmt) \<Rightarrow> (nat \<Rightarrow> cs_bind) \<Rightarrow> nat \<Rightarrow> bool" where
  "heap_ok V C R T B g \<longleftrightarrow> owned_ok V C R T B \<and> parents_ok V C R T \<and> unborn_ok g C R T B \<and>
     (\<forall>a. conn_children (C a) = child_count g R T a)"

definition csdk_inv :: "csdk \<Rightarrow> bool" where
  "csdk_inv w \<longleftrightarrow> native_ok (native_of w) \<and>
     heap_ok (nview (native_of w)) (gconns w) (grows w) (gstmts w) (gbinds w) (gnext w)"

fun cs_lock :: "lock \<Rightarrow> bool" where
  "cs_lock (LCsConn _) = True"
| "cs_lock (LCsBind _) = True"
| "cs_lock _ = False"

text \<open>The invariant between two method calls: no mutex of the package is held, none blocked.\<close>

definition csdk_ok :: "csdk \<Rightarrow> bool" where
  "csdk_ok w \<longleftrightarrow> csdk_inv w \<and> \<not> stuck (native_of w) \<and> \<not> list_ex cs_lock (held (native_of w))"

lemma csdk_init_ok: "csdk_ok csdk_init"
  by (simp add: csdk_ok_def csdk_inv_def csdk_init_def native_init_ok heap_ok_def owned_ok_def
      parents_ok_def unborn_ok_def child_count_def open_rows_def open_stmt_def count_upto_none)
    (simp add: native_init_def owns_def)

lemma heap_okD:
  assumes "heap_ok V C R T B g"
  shows "owns (\<lambda>a. conn_ptr (C a)) (v_conns V)" "owns (\<lambda>r. rows_ptr (R r)) (v_cursors V)"
    "owns (\<lambda>s. stmt_ptr (T s)) (\<lambda>p. v_stmts V p \<noteq> None)" "owns (\<lambda>b. bind_ptr (B b)) (v_binds V)"
    "parents_ok V C R T" "unborn_ok g C R T B" "\<And>a. conn_children (C a) = child_count g R T a"
  using assms by (simp_all add: heap_ok_def owned_ok_def)

section \<open>Methods that leave the heap alone\<close>

definition still :: "csdk \<Rightarrow> csdk \<Rightarrow> bool" where
  "still w w' \<longleftrightarrow> w' = w\<lparr>native_of := native_of w'\<rparr> \<and> quiet (native_of w) (native_of w')"

lemma still_refl [simp]: "csdk_inv w \<Longrightarrow> still w w"
  by (simp add: still_def csdk_inv_def)

lemma quiet_trans: "quiet n m \<Longrightarrow> quiet m k \<Longrightarrow> quiet n k"
  by (simp add: quiet_def)

lemma still_fields:
  assumes "still w w'"
  shows "gconns w' = gconns w" "grows w' = grows w" "gstmts w' = gstmts w" "gbinds w' = gbinds w"
    "gnext w' = gnext w" "nview (native_of w') = nview (native_of w)" "native_ok (native_of w')"
proof -
  from assms have w': "w' = w\<lparr>native_of := native_of w'\<rparr>" and q: "quiet (native_of w) (native_of w')"
    by (simp_all only: still_def)
  show "gconns w' = gconns w" "grows w' = grows w" "gstmts w' = gstmts w" "gbinds w' = gbinds w"
    "gnext w' = gnext w"
    by (subst w', simp)+
  from q show "nview (native_of w') = nview (native_of w)" "native_ok (native_of w')"
    by (simp_all add: quiet_def)
qed

lemma still_inv: "csdk_inv w \<Longrightarrow> still w w' \<Longrightarrow> csdk_inv w'"
  by (simp add: csdk_inv_def still_fields)

lemma still_trans: "still w w' \<Longrightarrow> still w' w'' \<Longrightarrow> still w w''"
proof -
  assume a: "still w w'" and b: "still w' w''"
  have "w'' = w\<lparr>native_of := native_of w''\<rparr>"
    by (rule csdk.equality) (simp_all add: still_fields [OF a] still_fields [OF b])
  with a b show "still w w''"
    by (auto simp: still_def intro: quiet_trans)
qed

lemma wp_csN [wp_simps]: "wp (csN m) Q = (\<lambda>w. wp m (\<lambda>r n. Q r (w\<lparr>native_of := n\<rparr>)) (native_of w))"
  by (simp add: csN_def wp_simps)

lemma csN_still:
  assumes "wp m (\<lambda>_. quiet (native_of w)) (native_of w)"
  shows "wp (csN m) (\<lambda>_. still w) w"
  using assms by (simp add: wp_csN still_def)

lemma wp_still_seq:
  assumes "wp m (\<lambda>_. still w) v" and "\<And>r w'. still w w' \<Longrightarrow> wp (k r) Q w'"
  shows "wp (State_Monad.bind m k) Q v"
  unfolding wp_bind by (rule wp_mono [OF assms(1)]) (rule assms(2))

lemma live_conn_ptr: "csdk_inv w \<Longrightarrow> conn_ptr (gconns w a) = Some p \<Longrightarrow> v_conns (nview (native_of w)) p"
  unfolding csdk_inv_def by (elim conjE, drule heap_okD(1), erule (1) owns_live)

lemma live_rows_ptr: "csdk_inv w \<Longrightarrow> rows_ptr (grows w r) = Some p \<Longrightarrow> v_cursors (nview (native_of w)) p"
  unfolding csdk_inv_def by (elim conjE, drule heap_okD(2), erule (1) owns_live)

lemma live_stmt_ptr: "csdk_inv w \<Longrightarrow> stmt_ptr (gstmts w s) = Some p \<Longrightarrow> v_stmts (nview (native_of w)) p \<noteq> None"
  unfolding csdk_inv_def by (elim conjE, drule heap_okD(3), erule (1) owns_live)

lemma live_bind_ptr: "csdk_inv w \<Longrightarrow> bind_ptr (gbinds w b) = Some p \<Longrightarrow> v_binds (nview (native_of w)) p"
  unfolding csdk_inv_def by (elim conjE, drule heap_okD(4), erule (1) owns_live)

lemma nativeErrorLocked_still:
  assumes "csdk_inv w"
  shows "wp (nativeErrorLocked S a code) (\<lambda>_. still w) w"
proof -
  have ok: "native_ok (native_of w')" if "still w w'" for w'
    using still_fields [OF that] by simp
  have live: "v_conns (nview (native_of w')) p" if "still w w'" "conn_ptr (gconns w a) = Some p" for w' p
    using live_conn_ptr [OF assms that(2)] still_fields [OF that(1)] by simp
  show ?thesis
    unfolding nativeErrorLocked_def wp_bind wp_basic Let_def
    apply (rule wp_mono [OF csN_still [OF error_code.call_quiet]])
    using assms live [of w] apply (auto simp: csdk_inv_def) [2]
    apply (rule wp_mono [OF csN_still [OF error_message.call_quiet]])
    apply (erule ok)
    apply (erule live, assumption)
    by (erule (1) still_trans)
qed

lemma check_result_still:
  assumes "csdk_inv w"
  shows "wp (check_result S a code) (\<lambda>_. still w) w"
  unfolding check_result_def
  by (auto simp: wp_simps assms intro: nativeErrorLocked_still)

section \<open>Mutexes\<close>

definition locks :: "csdk \<Rightarrow> lock list \<times> bool" where
  "locks w = (held (native_of w), stuck (native_of w))"

definition take_lock :: "lock \<Rightarrow> csdk \<Rightarrow> csdk" where
  "take_lock l w = w\<lparr>native_of := (native_of w)\<lparr>held := l # held (native_of w),
     stuck := stuck (native_of w) \<or> List.member (held (native_of w)) l\<rparr>\<rparr>"

definition drop_lock :: "lock \<Rightarrow> csdk \<Rightarrow> csdk" where
  "drop_lock l w = w\<lparr>native_of := (native_of w)\<lparr>held := remove1 l (held (native_of w))\<rparr>\<rparr>"

lemma wp_cs_locked [wp_simps]:
  "wp (cs_locked l body) Q = (\<lambda>w. wp body (\<lambda>r w'. Q r (drop_lock l w')) (take_lock l w))"
  by (simp add: cs_locked_def acquire_def release_def take_lock_def drop_lock_def wp_simps)

lemma lock_fields [simp]:
  "gconns (take_lock l w) = gconns w" "grows (take_lock l w) = grows w" "gstmts (take_lock l w) = gstmts w"
  "gbinds (take_lock l w) = gbinds w" "gnext (take_lock l w) = gnext w"
  "gconns (drop_lock l w) = gconns w" "grows (drop_lock l w) = grows w" "gstmts (drop_lock l w) = gstmts w"
  "gbinds (drop_lock l w) = gbinds w" "gnext (drop_lock l w) = gnext w"
  by (simp_all add: take_lock_def drop_lock_def)

text \<open>The locks are no part of what the heap invariants look at.\<close>

lemma native_ok_locks [simp]: "native_ok (n\<lparr>held := h\<rparr>) = native_ok n" "native_ok (n\<lparr>stuck := b\<rparr>) = native_ok n"
  by (simp_all add: native_ok_def fresh_ok_def vms_ok_def owners_ok_def)

lemma heap_ok_locks:
  assumes "v_conns V = v_conns V'" "v_cursors V = v_cursors V'" "v_stmts V = v_stmts V'" "v_binds V = v_binds V'"
  shows "heap_ok V C R T B g = heap_ok V' C R T B g"
  using assms by (simp add: heap_ok_def owned_ok_def parents_ok_def)

lemma lock_inv [simp]: "csdk_inv (take_lock l w) = csdk_inv w" "csdk_inv (drop_lock l w) = csdk_inv w"
  unfolding csdk_inv_def lock_fields
  by (rule arg_cong2 [where f = "(\<and>)"], simp add: take_lock_def drop_lock_def, rule heap_ok_locks;
      simp add: take_lock_def drop_lock_def nview_def)+

section \<open>The abstract view of the package\<close>

text \<open>What a client can tell apart: which objects are open, and which connection they belong to.\<close>

record cview =
  kopen :: "nat \<Rightarrow> bool"
  krows :: "nat \<Rightarrow> nat option"
  kstmts :: "nat \<Rightarrow> nat option"
  kbinds :: "nat \<Rightarrow> bool"

definition cview :: "csdk \<Rightarrow> cview" where
  "cview w = \<lparr> kopen = (\<lambda>a. conn_ptr (gconns w a) \<noteq> None), krows = open_rows (grows w),
     kstmts = open_stmt (gstmts w), kbinds = (\<lambda>b. bind_ptr (gbinds w b) \<noteq> None) \<rparr>"

lemma cview_fields [simp]:
  "kopen (cview w) a \<longleftrightarrow> conn_ptr (gconns w a) \<noteq> None"
  "krows (cview w) = open_rows (grows w)" "kstmts (cview w) = open_stmt (gstmts w)"
  "kbinds (cview w) b \<longleftrightarrow> bind_ptr (gbinds w b) \<noteq> None"
  by (simp_all add: cview_def)

lemma cview_locks [simp]: "cview (take_lock l w) = cview w" "cview (drop_lock l w) = cview w"
  by (simp_all add: cview_def)

text \<open>The effect of a whole method: the invariant is kept, the view is the given one, and every mutex
  taken has been released.\<close>

definition becomes :: "csdk \<Rightarrow> cview \<Rightarrow> csdk \<Rightarrow> bool" where
  "becomes w V w' \<longleftrightarrow> csdk_inv w' \<and> cview w' = V \<and> locks w' = locks w"

lemma becomes_ok: "csdk_ok w \<Longrightarrow> becomes w V w' \<Longrightarrow> csdk_ok w'"
  by (simp add: csdk_ok_def becomes_def locks_def)

lemma becomes_view: "becomes w V w' \<Longrightarrow> cview w' = V"
  by (simp add: becomes_def)

lemma becomes_trans: "becomes w V w' \<Longrightarrow> becomes w' V' w'' \<Longrightarrow> becomes w V' w''"
  by (simp add: becomes_def)

lemma still_becomes: "csdk_inv w \<Longrightarrow> still w w' \<Longrightarrow> becomes w (cview w) w'"
  using still_inv [of w w'] still_fields [of w w'] nview_fields(5,6) [of "native_of w"]
    nview_fields(5,6) [of "native_of w'"]
  by (simp add: becomes_def cview_def locks_def)

lemma becomes_refl: "csdk_ok w \<Longrightarrow> becomes w (cview w) w"
  by (simp add: becomes_def csdk_ok_def)

lemma becomes_unlock_any:
  assumes "\<not> List.member (held (native_of w)) l" and "becomes (take_lock l w) V w'"
  shows "becomes w V (drop_lock l w')"
  using assms by (auto simp: becomes_def locks_def take_lock_def) (simp_all add: drop_lock_def)

lemma no_cs_lock: "csdk_ok w \<Longrightarrow> cs_lock l \<Longrightarrow> \<not> List.member (held (native_of w)) l"
  by (auto simp: csdk_ok_def list_ex_iff)

lemma becomes_unlock:
  "csdk_ok w \<Longrightarrow> cs_lock l \<Longrightarrow> becomes (take_lock l w) V w' \<Longrightarrow> becomes w V (drop_lock l w')"
  by (rule becomes_unlock_any [OF no_cs_lock])

lemma lock_unlock:
  assumes "csdk_ok w"
  shows "becomes w (cview w) (drop_lock (LCsConn a) (take_lock (LCsConn a) w))"
    and "becomes w (cview w) (drop_lock (LCsBind a) (take_lock (LCsBind a) w))"
  using assms by (auto intro!: becomes_unlock [OF assms]) (simp_all add: becomes_def csdk_ok_def)

text \<open>The guards: a closed receiver is refused without any effect, an open one is locked.\<close>

lemma open_conn_rule:
  assumes ok: "csdk_ok w"
    and closed: "\<And>w'. becomes w (cview w) w' \<Longrightarrow> Q (Inl CsClosed) w'"
    and body: "\<And>a p. conn = Some a \<Longrightarrow> conn_ptr (gconns w a) = Some p \<Longrightarrow>
      wp (body a (Some p)) (\<lambda>r w'. Q r (drop_lock (LCsConn a) w')) (take_lock (LCsConn a) w)"
  shows "wp (with_open_conn conn body) Q w"
  using becomes_refl [OF ok] closed body lock_unlock [OF ok]
  by (auto simp: with_open_conn_def wp_simps split: option.splits)

lemma open_rows_rule:
  assumes ok: "csdk_ok w"
    and closed: "\<And>w'. becomes w (cview w) w' \<Longrightarrow> Q (Inl CsClosed) w'"
    and body: "\<And>r a p. rows = Some r \<Longrightarrow> rows_conn (grows w r) = Some a \<Longrightarrow> rows_ptr (grows w r) = Some p \<Longrightarrow>
      wp (body (Some p)) (\<lambda>r w'. Q r (drop_lock (LCsConn a) w')) (take_lock (LCsConn a) w)"
  shows "wp (with_open_rows rows body) Q w"
  using becomes_refl [OF ok] closed body lock_unlock [OF ok]
  by (auto simp: with_open_rows_def wp_simps split: option.splits)

lemma open_stmt_rule:
  assumes ok: "csdk_ok w"
    and closed: "\<And>w'. becomes w (cview w) w' \<Longrightarrow> Q (Inl CsClosed) w'"
    and body: "\<And>s a p. stmt = Some s \<Longrightarrow> stmt_conn (gstmts w s) = Some a \<Longrightarrow> stmt_ptr (gstmts w s) = Some p \<Longrightarrow>
      wp (body a (Some p)) (\<lambda>r w'. Q r (drop_lock (LCsConn a) w')) (take_lock (LCsConn a) w)"
  shows "wp (with_open_stmt stmt body) Q w"
  using becomes_refl [OF ok] closed body lock_unlock [OF ok]
  by (auto simp: with_open_stmt_def wp_simps split: option.splits)

lemma open_bind_rule:
  assumes ok: "csdk_ok w"
    and closed: "\<And>w'. becomes w (cview w) w' \<Longrightarrow> Q (Inl CsClosed) w'"
    and body: "\<And>b p. bnd = Some b \<Longrightarrow> bind_ptr (gbinds w b) = Some p \<Longrightarrow>
      wp (body (Some p)) (\<lambda>r w'. Q r (drop_lock (LCsBind b) w')) (take_lock (LCsBind b) w)"
  shows "wp (with_open_bind bnd body) Q w"
  using becomes_refl [OF ok] closed body lock_unlock [OF ok]
  by (auto simp: with_open_bind_def wp_simps split: option.splits)

section \<open>Methods that change nothing a client can see\<close>

locale quiet_method =
  fixes m :: "(csdk, 'r) state"
  assumes keeps: "csdk_ok w \<Longrightarrow> wp m (\<lambda>_ w'. becomes w (cview w) w') w"
begin

lemma keeps_ok: "csdk_ok w \<Longrightarrow> wp m (\<lambda>_. csdk_ok) w"
  using keeps becomes_ok by (blast intro: wp_mono)

lemma keeps_frame: "csdk_ok w \<Longrightarrow> (\<And>r w'. becomes w (cview w) w' \<Longrightarrow> Q r w') \<Longrightarrow> wp m Q w"
  by (rule wp_mono [OF keeps])

end

lemma quiet_throw: "quiet_method (throw e)"
  by unfold_locales (simp add: wp_simps becomes_refl)

lemma quiet_if: "quiet_method m \<Longrightarrow> quiet_method m' \<Longrightarrow> quiet_method (if b then m else m')"
  by simp

text \<open>A body that only makes quiet bridge calls, on an open receiver, under its lock.\<close>

lemma still_unlock:
  assumes "csdk_ok w" and "cs_lock l" and "still (take_lock l w) w'"
  shows "becomes w (cview w) (drop_lock l w')"
proof -
  have "csdk_inv (take_lock l w)"
    using assms(1) by (simp add: csdk_ok_def)
  from still_becomes [OF this assms(3)] show ?thesis
    by (intro becomes_unlock [OF assms(1,2)]) simp
qed

lemma conn_body_quiet:
  assumes "\<And>a p w. csdk_inv w \<Longrightarrow> conn_ptr (gconns w a) = Some p \<Longrightarrow> wp (body a (Some p)) (\<lambda>_. still w) w"
  shows "quiet_method (with_open_conn conn body)"
proof
  fix w assume ok: "csdk_ok w"
  then have "csdk_inv (take_lock l w)" for l by (simp add: csdk_ok_def)
  then show "wp (with_open_conn conn body) (\<lambda>_ w'. becomes w (cview w) w') w"
    by (intro open_conn_rule [OF ok]) (auto intro!: wp_mono [OF assms] still_unlock [OF ok])
qed

lemma rows_body_quiet:
  assumes "\<And>r p w. csdk_inv w \<Longrightarrow> rows_ptr (grows w r) = Some p \<Longrightarrow> wp (body (Some p)) (\<lambda>_. still w) w"
  shows "quiet_method (with_open_rows rows body)"
proof
  fix w assume ok: "csdk_ok w"
  then have "csdk_inv (take_lock l w)" for l by (simp add: csdk_ok_def)
  then show "wp (with_open_rows rows body) (\<lambda>_ w'. becomes w (cview w) w') w"
    by (intro open_rows_rule [OF ok]) (auto intro!: wp_mono [OF assms] still_unlock [OF ok])
qed

lemma stmt_body_quiet:
  assumes "\<And>s a p w. csdk_inv w \<Longrightarrow> stmt_ptr (gstmts w s) = Some p \<Longrightarrow> wp (body a (Some p)) (\<lambda>_. still w) w"
  shows "quiet_method (with_open_stmt stmt body)"
proof
  fix w assume ok: "csdk_ok w"
  then have "csdk_inv (take_lock l w)" for l by (simp add: csdk_ok_def)
  then show "wp (with_open_stmt stmt body) (\<lambda>_ w'. becomes w (cview w) w') w"
    by (intro open_stmt_rule [OF ok]) (auto intro!: wp_mono [OF assms] still_unlock [OF ok])
qed

lemma bind_body_quiet:
  assumes "\<And>b p w. csdk_inv w \<Longrightarrow> bind_ptr (gbinds w b) = Some p \<Longrightarrow> wp (body (Some p)) (\<lambda>_. still w) w"
  shows "quiet_method (with_open_bind bnd body)"
proof
  fix w assume ok: "csdk_ok w"
  then have "csdk_inv (take_lock l w)" for l by (simp add: csdk_ok_def)
  then show "wp (with_open_bind bnd body) (\<lambda>_ w'. becomes w (cview w) w') w"
    by (intro open_bind_rule [OF ok]) (auto intro!: wp_mono [OF assms] still_unlock [OF ok])
qed

text \<open>The package's private helpers, on any quiet bridge call.\<close>

lemma csN_quiet:
  assumes "bridge_call live f" and "csdk_inv w" and "live (nview (native_of w)) p"
  shows "wp (csN (f (Some p))) (\<lambda>_. still w) w"
  using assms bridge_call.quiet_on by (intro csN_still) (auto simp: csdk_inv_def)

lemma still_then_check:
  assumes "csdk_inv w" and "still w w'"
  shows "wp (check_result S a code) (\<lambda>_. still w) w'"
  by (rule wp_mono [OF check_result_still]) (use assms still_inv still_trans in blast)+

lemma call_quiet: "bridge_call v_conns f \<Longrightarrow> quiet_method (csConn_call S conn f)"
  unfolding csConn_call_def
  by (rule conn_body_quiet)
    (auto intro!: wp_still_seq [OF csN_quiet] still_then_check live_conn_ptr)

lemma still_throw_or: "still w w' \<Longrightarrow> wp (if b then throw e else ok v) (\<lambda>_. still w) w'"
  by (simp add: wp_simps)

lemma metric_quiet:
  assumes "bridge_call v_conns f"
  shows "quiet_method (csConn_metric S conn f)"
  unfolding csConn_metric_def
proof (rule conn_body_quiet)
  fix a p w
  assume inv: "csdk_inv w" and ptr: "conn_ptr (gconns w a) = Some p"
  have code: "wp (csN (csqlgo_conn_error_code S (Some p))) (\<lambda>_. still w) w'" if "still w w'" for w'
    by (rule wp_mono [OF csN_quiet [OF error_code.bridge_call_axioms]])
      (use still_inv [OF inv that] live_conn_ptr [OF inv ptr] still_fields [OF that]
        still_trans [OF that] in auto)
  have err: "wp (nativeErrorLocked S a k) (\<lambda>_. still w) w'" if "still w w'" for w' k
    by (rule wp_mono [OF nativeErrorLocked_still [OF still_inv [OF inv that]]]) (rule still_trans [OF that])
  show "wp (do { v \<leftarrow> csN (f (Some p)); code \<leftarrow> csN (csqlgo_conn_error_code S (Some p));
      (if code \<noteq> CSQLGO_OK then do { e \<leftarrow> nativeErrorLocked S a code; throw e } else ok v) }) (\<lambda>_. still w) w"
    by (rule wp_still_seq [OF csN_quiet [OF assms inv live_conn_ptr [OF inv ptr]]],
        rule wp_still_seq [OF code], assumption)
      (auto intro!: wp_still_seq [OF err] simp: wp_basic)
qed

lemma rows_call_quiet: "bridge_call v_cursors f \<Longrightarrow> quiet_method (csRows_call rows f)"
  unfolding csRows_call_def
  by (rule rows_body_quiet) (auto intro!: wp_still_seq [OF csN_quiet] still_throw_or live_rows_ptr)

lemma number_quiet: "bridge_call v_cursors f \<Longrightarrow> quiet_method (csRows_number rows f)"
  unfolding csRows_number_def
  by (rule rows_body_quiet) (auto intro!: wp_still_seq [OF csN_quiet] still_throw_or live_rows_ptr)

lemma copyField_quiet: "bridge_call v_cursors f \<Longrightarrow> quiet_method (csRows_copyField rows f)"
  unfolding csRows_copyField_def
  by (rule rows_body_quiet, rule wp_still_seq, erule (1) csN_quiet, erule (1) live_rows_ptr)
    (simp add: wp_simps)

lemma stmt_call_quiet: "bridge_call live_stmt f \<Longrightarrow> quiet_method (csStmt_call S stmt f)"
  unfolding csStmt_call_def
  by (rule stmt_body_quiet, rule wp_still_seq, erule (1) csN_quiet, erule (1) live_stmt_ptr)
    (erule (1) still_then_check)

lemma csBind_set_quiet: "bridge_call v_binds f \<Longrightarrow> quiet_method (csBind_set bnd f)"
  unfolding csBind_set_def
  by (rule bind_body_quiet, rule wp_still_seq, erule (1) csN_quiet, erule (1) live_bind_ptr)
    (simp add: wp_simps)

lemma unsupported_quiet:
  "quiet_method (csStmt_unsupported stmt)" "quiet_method (csBind_unsupported bnd)"
  unfolding csStmt_unsupported_def csBind_unsupported_def
  by (auto intro!: stmt_body_quiet bind_body_quiet simp: wp_simps)

end
