(* ===== verification/Cube_Csdk_Heap.thy ===== *)
theory Cube_Csdk_Heap
  imports Cube_Csdk_Safety
begin

text \<open>
  How opening and closing each kind of object preserves \<open>heap_ok\<close>: the bookkeeping of \<open>children\<close>
  and of the ownership of C structs.
\<close>

section \<open>Counting children\<close>

lemma open_upd [simp]:
  "open_rows (R(r := x)) = (open_rows R)(r := (if rows_ptr x = None then None else rows_conn x))"
  "open_stmt (T(s := y)) = (open_stmt T)(s := (if stmt_ptr y = None then None else stmt_conn y))"
  by (auto simp: fun_eq_iff open_rows_def open_stmt_def)

lemma unborn_closed:
  assumes "unborn_ok g C R T B" and "g \<le> a"
  shows "conn_ptr (C a) = None" "rows_ptr (R a) = None" "stmt_ptr (T a) = None" "bind_ptr (B a) = None"
    "open_rows R a = None" "open_stmt T a = None"
  using assms by (simp_all add: unborn_ok_def open_rows_def open_stmt_def)

lemma count_upto_born: "\<not> P g \<Longrightarrow> count_upto (Suc g) P = count_upto g P"
  by (simp add: count_upto_Suc)

lemma child_count_born:
  "unborn_ok g C R T B \<Longrightarrow> child_count (Suc g) R T b = child_count g R T b"
  by (simp add: child_count_def count_upto_born unborn_closed)

lemma child_count_rows_change:
  assumes "r < g"
  shows "child_count g (R(r := x)) T b = child_count g R T b
    - (if open_rows R r = Some b then 1 else 0)
    + (if rows_ptr x \<noteq> None \<and> rows_conn x = Some b then 1 else 0)"
  using count_upto_change [OF assms, of "\<lambda>i. open_rows (R(r := x)) i = Some b" "\<lambda>i. open_rows R i = Some b"]
  by (auto simp: child_count_def)

lemma child_count_stmt_change:
  assumes "s < g"
  shows "child_count g R (T(s := x)) b = child_count g R T b
    - (if open_stmt T s = Some b then 1 else 0)
    + (if stmt_ptr x \<noteq> None \<and> stmt_conn x = Some b then 1 else 0)"
  using count_upto_change [OF assms, of "\<lambda>i. open_stmt (T(s := x)) i = Some b" "\<lambda>i. open_stmt T i = Some b"]
  by (auto simp: child_count_def)

lemma child_count_zero:
  "child_count g R T a = 0 \<longleftrightarrow> (\<forall>i < g. open_rows R i \<noteq> Some a \<and> open_stmt T i \<noteq> Some a)"
proof -
  have "0 \<le> count_upto g (\<lambda>r. open_rows R r = Some a)" "0 \<le> count_upto g (\<lambda>s. open_stmt T s = Some a)"
    by simp_all
  then have "child_count g R T a = 0 \<longleftrightarrow> count_upto g (\<lambda>r. open_rows R r = Some a) = 0 \<and>
      count_upto g (\<lambda>s. open_stmt T s = Some a) = 0"
    unfolding child_count_def by linarith
  then show ?thesis by (auto simp: count_upto_zero_iff)
qed

lemma no_children:
  assumes "heap_ok V C R T B g" and "conn_children (C a) = 0"
  shows "open_rows R i \<noteq> Some a" "open_stmt T i \<noteq> Some a"
proof -
  have "open_rows R i \<noteq> Some a \<and> open_stmt T i \<noteq> Some a"
  proof (cases "i < g")
    case True
    with assms heap_okD(7) [OF assms(1), of a] child_count_zero [of g R T a] show ?thesis by auto
  next
    case False
    then show ?thesis using unborn_closed [OF heap_okD(6) [OF assms(1)], of i] by simp
  qed
  then show "open_rows R i \<noteq> Some a" "open_stmt T i \<noteq> Some a" by simp_all
qed

lemma rows_parent:
  assumes "heap_ok V C R T B g" and "rows_ptr (R r) = Some p"
  shows "\<exists>a q. rows_conn (R r) = Some a \<and> conn_ptr (C a) = Some q \<and> open_rows R r = Some a"
  using heap_okD(5) [OF assms(1)] assms(2) by (auto simp: parents_ok_def open_rows_def)

lemma stmt_parent:
  assumes "heap_ok V C R T B g" and "stmt_ptr (T s) = Some p"
  shows "\<exists>a q. stmt_conn (T s) = Some a \<and> conn_ptr (C a) = Some q \<and> v_stmts V p = Some q \<and>
    open_stmt T s = Some a"
  using heap_okD(5) [OF assms(1)] assms(2) by (fastforce simp: parents_ok_def open_stmt_def)

text \<open>Parents survive a step that leaves alone the connections that have open children.\<close>

lemma parents_frame:
  assumes "heap_ok V C R T B g" and "v_stmts V' = v_stmts V"
    and "\<And>i a. open_rows R i = Some a \<Longrightarrow> conn_ptr (C' a) = conn_ptr (C a)"
    and "\<And>i a. open_stmt T i = Some a \<Longrightarrow> conn_ptr (C' a) = conn_ptr (C a)"
  shows "parents_ok V' C' R T"
  unfolding parents_ok_def
proof (intro conjI allI impI)
  fix r assume "rows_ptr (R r) \<noteq> None"
  then show "\<exists>a. rows_conn (R r) = Some a \<and> conn_ptr (C' a) \<noteq> None"
    using rows_parent [OF assms(1), of r] assms(3) [of r] by auto
next
  fix s p assume "stmt_ptr (T s) = Some p"
  then show "\<exists>a q. stmt_conn (T s) = Some a \<and> conn_ptr (C' a) = Some q \<and> v_stmts V' p = Some q"
    using stmt_parent [OF assms(1), of s p] assms(2) assms(4) [of s] by auto
qed

text \<open>A connection without children has no C statement either.\<close>

lemma no_stmts:
  assumes ok: "heap_ok V C R T B g" and "conn_children (C a) = 0" and "conn_ptr (C a) = Some p"
  shows "v_stmts V q \<noteq> Some p"
proof
  assume q: "v_stmts V q = Some p"
  then obtain s where s: "stmt_ptr (T s) = Some q"
    using owns_owner [OF heap_okD(3) [OF ok], of q] by auto
  then obtain a' where a': "stmt_conn (T s) = Some a'" "conn_ptr (C a') = Some p"
    using heap_okD(5) [OF ok] q unfolding parents_ok_def by fastforce
  then have "a' = a"
    using owns_inj [OF heap_okD(1) [OF ok]] assms(3) by blast
  with s a' have "open_stmt T s = Some a" by (simp add: open_stmt_def)
  with no_children(2) [OF ok assms(2)] show False by blast
qed

section \<open>Opening and closing\<close>

lemma heap_open:
  assumes ok: "heap_ok V C R T B g" and new: "\<not> v_conns V p"
  shows "heap_ok (V\<lparr>v_conns := (v_conns V)(p := True)\<rparr>) (C(g := \<lparr>conn_ptr = Some p, conn_children = 0\<rparr>))
    R T B (Suc g)"
proof -
  note ub = heap_okD(6) [OF ok]
  have closed: "conn_ptr (C g) = None" using unborn_closed [OF ub] by simp
  have nor: "open_rows R i \<noteq> Some g" and nos: "open_stmt T i \<noteq> Some g" for i
    using rows_parent [OF ok, of i] stmt_parent [OF ok, of i] closed
    by (auto simp: open_rows_def open_stmt_def)
  have "owns (\<lambda>a. conn_ptr ((C(g := \<lparr>conn_ptr = Some p, conn_children = 0\<rparr>)) a)) ((v_conns V)(p := True))"
    using owns_give [OF heap_okD(1) [OF ok], of g p] closed new by (simp add: fun_upd_def if_distrib cong: if_cong)
  moreover have "parents_ok (V\<lparr>v_conns := (v_conns V)(p := True)\<rparr>)
      (C(g := \<lparr>conn_ptr = Some p, conn_children = 0\<rparr>)) R T"
    by (rule parents_frame [OF ok]) (use nor nos in auto)
  moreover have "child_count g R T g = 0"
    using nor nos by (simp add: child_count_zero)
  ultimately show ?thesis
    using ok ub child_count_born [OF ub]
    by (auto simp: heap_ok_def owned_ok_def unborn_ok_def)
qed

lemma heap_close:
  assumes ok: "heap_ok V C R T B g" and p: "conn_ptr (C a) = Some p" and free: "conn_children (C a) = 0"
  shows "heap_ok (V\<lparr>v_conns := (v_conns V)(p := False)\<rparr>) (C(a := (C a)\<lparr>conn_ptr := None\<rparr>)) R T B g"
proof -
  note nc = no_children [OF ok free]
  have "owns (\<lambda>x. conn_ptr ((C(a := (C a)\<lparr>conn_ptr := None\<rparr>)) x)) ((v_conns V)(p := False))"
    using owns_drop [OF heap_okD(1) [OF ok], of a p] p by (simp add: fun_upd_def if_distrib cong: if_cong)
  moreover have "parents_ok (V\<lparr>v_conns := (v_conns V)(p := False)\<rparr>)
      (C(a := (C a)\<lparr>conn_ptr := None\<rparr>)) R T"
    by (rule parents_frame [OF ok]) (use nc in auto)
  ultimately show ?thesis
    using ok by (auto simp: heap_ok_def owned_ok_def unborn_ok_def)
qed

text \<open>\<open>bump C a k\<close>: the connection's \<open>children\<close> changed by \<open>k\<close>.\<close>

definition bump :: "(nat \<Rightarrow> cs_conn) \<Rightarrow> nat \<Rightarrow> int \<Rightarrow> nat \<Rightarrow> cs_conn" where
  "bump C a k = C(a := (C a)\<lparr>conn_children := conn_children (C a) + k\<rparr>)"

lemma bump_fields [simp]:
  "conn_ptr (bump C a k b) = conn_ptr (C b)"
  "conn_children (bump C a k b) = conn_children (C b) + (if b = a then k else 0)"
  by (simp_all add: bump_def)

lemma heap_rows_add:
  assumes ok: "heap_ok V C R T B g" and a: "conn_ptr (C a) = Some q" and new: "\<not> v_cursors V p"
  shows "heap_ok (V\<lparr>v_cursors := (v_cursors V)(p := True)\<rparr>) (bump C a 1)
    (R(g := \<lparr>rows_conn = Some a, rows_ptr = Some p\<rparr>)) T B (Suc g)"
proof -
  note ub = heap_okD(6) [OF ok]
  let ?R = "R(g := \<lparr>rows_conn = Some a, rows_ptr = Some p\<rparr>)"
  have "owns (\<lambda>r. rows_ptr (?R r)) ((v_cursors V)(p := True))"
    using owns_give [OF heap_okD(2) [OF ok], of g p] unborn_closed [OF ub] new
    by (simp add: fun_upd_def if_distrib cong: if_cong)
  moreover have "parents_ok (V\<lparr>v_cursors := (v_cursors V)(p := True)\<rparr>) (bump C a 1) ?R T"
    using heap_okD(5) [OF ok] a by (auto simp: parents_ok_def)
  moreover have "child_count (Suc g) ?R T b = child_count g R T b + (if b = a then 1 else 0)" for b
    using child_count_rows_change [of g "Suc g" R _ T b] child_count_born [OF ub, of b] unborn_closed [OF ub]
    by simp
  ultimately show ?thesis
    using ok by (auto simp: heap_ok_def owned_ok_def unborn_ok_def)
qed

lemma heap_rows_drop:
  assumes ok: "heap_ok V C R T B g" and r: "rows_conn (R r) = Some a" "rows_ptr (R r) = Some p"
  shows "heap_ok (V\<lparr>v_cursors := (v_cursors V)(p := False)\<rparr>) (bump C a (-1))
    (R(r := \<lparr>rows_conn = Some a, rows_ptr = None\<rparr>)) T B g"
proof -
  note ub = heap_okD(6) [OF ok]
  let ?R = "R(r := \<lparr>rows_conn = Some a, rows_ptr = None\<rparr>)"
  have born: "r < g"
    using unborn_closed(2) [OF ub, of r] r by (cases "g \<le> r") auto
  have "owns (\<lambda>i. rows_ptr (?R i)) ((v_cursors V)(p := False))"
    using owns_drop [OF heap_okD(2) [OF ok], of r p] r by (simp add: fun_upd_def if_distrib cong: if_cong)
  moreover have "parents_ok (V\<lparr>v_cursors := (v_cursors V)(p := False)\<rparr>) (bump C a (-1)) ?R T"
    using heap_okD(5) [OF ok] by (auto simp: parents_ok_def)
  moreover have "child_count g ?R T b = child_count g R T b + (if b = a then -1 else 0)" for b
    using child_count_rows_change [OF born, of R _ T b] r by (auto simp: open_rows_def)
  ultimately show ?thesis
    using ok by (auto simp: heap_ok_def owned_ok_def unborn_ok_def)
qed

lemma heap_stmt_add:
  assumes ok: "heap_ok V C R T B g" and a: "conn_ptr (C a) = Some q" and new: "v_stmts V p = None"
  shows "heap_ok (V\<lparr>v_stmts := (v_stmts V)(p \<mapsto> q)\<rparr>) (bump C a 1) R
    (T(g := \<lparr>stmt_conn = Some a, stmt_ptr = Some p\<rparr>)) B (Suc g)"
proof -
  note ub = heap_okD(6) [OF ok]
  let ?T = "T(g := \<lparr>stmt_conn = Some a, stmt_ptr = Some p\<rparr>)"
  have other: "x \<noteq> p" if "stmt_ptr (T s) = Some x" for s x
    using stmt_parent [OF ok that] new by auto
  have "(\<lambda>x. ((v_stmts V)(p \<mapsto> q)) x \<noteq> None) = (\<lambda>x. v_stmts V x \<noteq> None)(p := True)"
    by (simp add: fun_eq_iff)
  then have "owns (\<lambda>s. stmt_ptr (?T s)) (\<lambda>x. ((v_stmts V)(p \<mapsto> q)) x \<noteq> None)"
    using owns_give [OF heap_okD(3) [OF ok], of g p] unborn_closed [OF ub] new
    by (simp add: fun_upd_def if_distrib cong: if_cong)
  moreover have "parents_ok (V\<lparr>v_stmts := (v_stmts V)(p \<mapsto> q)\<rparr>) (bump C a 1) R ?T"
    using heap_okD(5) [OF ok] a other by (auto simp: parents_ok_def)
  moreover have "child_count (Suc g) R ?T b = child_count g R T b + (if b = a then 1 else 0)" for b
    using child_count_stmt_change [of g "Suc g" R T _ b] child_count_born [OF ub, of b] unborn_closed [OF ub]
    by simp
  ultimately show ?thesis
    using ok by (auto simp: heap_ok_def owned_ok_def unborn_ok_def)
qed

lemma heap_stmt_drop:
  assumes ok: "heap_ok V C R T B g" and s: "stmt_conn (T s) = Some a" "stmt_ptr (T s) = Some p"
  shows "heap_ok (V\<lparr>v_stmts := (v_stmts V)(p := None)\<rparr>) (bump C a (-1)) R
    (T(s := \<lparr>stmt_conn = Some a, stmt_ptr = None\<rparr>)) B g"
proof -
  note ub = heap_okD(6) [OF ok]
  let ?T = "T(s := \<lparr>stmt_conn = Some a, stmt_ptr = None\<rparr>)"
  have born: "s < g"
    using unborn_closed(3) [OF ub, of s] s by (cases "g \<le> s") auto
  have other: "x \<noteq> p" if "stmt_ptr (T i) = Some x" "i \<noteq> s" for i x
    using owns_inj [OF heap_okD(3) [OF ok], of i x s] that s by auto
  have "(\<lambda>x. ((v_stmts V)(p := None)) x \<noteq> None) = (\<lambda>x. v_stmts V x \<noteq> None)(p := False)"
    by (simp add: fun_eq_iff)
  then have "owns (\<lambda>i. stmt_ptr (?T i)) (\<lambda>x. ((v_stmts V)(p := None)) x \<noteq> None)"
    using owns_drop [OF heap_okD(3) [OF ok], of s p] s by (simp add: fun_upd_def if_distrib cong: if_cong)
  moreover have "parents_ok (V\<lparr>v_stmts := (v_stmts V)(p := None)\<rparr>) (bump C a (-1)) R ?T"
    using heap_okD(5) [OF ok] other by (auto simp: parents_ok_def)
  moreover have "child_count g R ?T b = child_count g R T b + (if b = a then -1 else 0)" for b
    using child_count_stmt_change [OF born, of R T _ b] s by (auto simp: open_stmt_def)
  ultimately show ?thesis
    using ok by (auto simp: heap_ok_def owned_ok_def unborn_ok_def)
qed

lemma heap_bind_add:
  assumes ok: "heap_ok V C R T B g" and new: "\<not> v_binds V p"
  shows "heap_ok (V\<lparr>v_binds := (v_binds V)(p := True)\<rparr>) C R T (B(g := \<lparr>bind_ptr = Some p\<rparr>)) (Suc g)"
proof -
  note ub = heap_okD(6) [OF ok]
  have "owns (\<lambda>b. bind_ptr ((B(g := \<lparr>bind_ptr = Some p\<rparr>)) b)) ((v_binds V)(p := True))"
    using owns_give [OF heap_okD(4) [OF ok], of g p] unborn_closed [OF ub] new
    by (simp add: fun_upd_def if_distrib cong: if_cong)
  moreover have "parents_ok (V\<lparr>v_binds := (v_binds V)(p := True)\<rparr>) C R T"
    using heap_okD(5) [OF ok] by (simp add: parents_ok_def)
  ultimately show ?thesis
    using ok child_count_born [OF ub] by (auto simp: heap_ok_def owned_ok_def unborn_ok_def)
qed

lemma heap_bind_drop:
  assumes ok: "heap_ok V C R T B g" and b: "bind_ptr (B b) = Some p"
  shows "heap_ok (V\<lparr>v_binds := (v_binds V)(p := False)\<rparr>) C R T (B(b := \<lparr>bind_ptr = None\<rparr>)) g"
proof -
  have "owns (\<lambda>i. bind_ptr ((B(b := \<lparr>bind_ptr = None\<rparr>)) i)) ((v_binds V)(p := False))"
    using owns_drop [OF heap_okD(4) [OF ok], of b p] b by (simp add: fun_upd_def if_distrib cong: if_cong)
  moreover have "parents_ok (V\<lparr>v_binds := (v_binds V)(p := False)\<rparr>) C R T"
    using heap_okD(5) [OF ok] by (simp add: parents_ok_def)
  ultimately show ?thesis
    using ok by (auto simp: heap_ok_def owned_ok_def unborn_ok_def)
qed

end
