(* ===== verification/Cube_Csdk_Methods.thy ===== *)
theory Cube_Csdk_Methods
  imports Cube_Csdk_Heap
begin

text \<open>
  What every method of \<^verbatim>\<open>internal/csdk\<close> promises a client, in terms of the abstract view: the
  methods that leave the view alone (one interface), and those that open or close an object.
\<close>

section \<open>Quiet methods\<close>

text \<open>A copied Go value always covers the C length that goes with it.\<close>

lemma c_int_le: "0 \<le> x \<Longrightarrow> c_int x \<le> x"
  by (simp add: c_int_def sint_sbintrunc' signed_take_bit_int_less_eq_self_iff)

lemma fits_c_bytes: "fits (c_bytes v) (c_int (int (length v)))"
  using c_int_le [of "int (length v)"] by (auto simp: fits_def c_bytes_def)

lemma bridge_if: "bridge_call live f \<Longrightarrow> bridge_call live g \<Longrightarrow> bridge_call live (\<lambda>p. if c then f p else g p)"
  by (cases c) simp_all

lemma bind_text_call: "bridge_call v_binds (\<lambda>p. csqlgo_bind_set_text S p i (c_bytes v) (c_int (int (length v))))"
  and bind_blob_call: "bridge_call v_binds (\<lambda>p. csqlgo_bind_set_blob S p i (c_bytes v) (c_int (int (length v))))"
  and bind_int64_call: "bridge_call v_binds (\<lambda>p. csqlgo_bind_set_int64 S p i k)"
  and bind_double_call: "bridge_call v_binds (\<lambda>p. csqlgo_bind_set_double S p i x)"
  and bind_null_call: "bridge_call v_binds (\<lambda>p. csqlgo_bind_set_null S p i)"
proof -
  have bytes: "bridge_call v_binds (\<lambda>p. csqlgo_bind_set_bytes S p i u len t)" if "fits u len" for u len t
  proof
    fix n ptr
    assume ok: "native_ok n" and live: "\<And>p. ptr = Some p \<Longrightarrow> v_binds (nview n) p"
    show "wp (csqlgo_bind_set_bytes S ptr i u len t) (\<lambda>_. quiet n) n"
    proof (cases ptr)
      case None
      with ok show ?thesis by (simp add: csqlgo_bind_set_bytes_def wp_simps)
    next
      case (Some p)
      with bind_set_quiet [OF ok live that] show ?thesis by simp
    qed
  qed
  have const: "bridge_call v_binds (\<lambda>p. State_Monad.return k)" for k :: int
    by unfold_locales (simp add: wp_simps)
  show "bridge_call v_binds (\<lambda>p. csqlgo_bind_set_text S p i (c_bytes v) (c_int (int (length v))))"
    unfolding csqlgo_bind_set_text_def by (rule bytes [OF fits_c_bytes])
  show "bridge_call v_binds (\<lambda>p. csqlgo_bind_set_blob S p i (c_bytes v) (c_int (int (length v))))"
    unfolding csqlgo_bind_set_blob_def by (rule bridge_if [OF const bytes [OF fits_c_bytes]])
  show "bridge_call v_binds (\<lambda>p. csqlgo_bind_set_int64 S p i k)"
    unfolding csqlgo_bind_set_int64_def Let_def by (rule bridge_if [OF const bytes [OF fits_c_string]])
  show "bridge_call v_binds (\<lambda>p. csqlgo_bind_set_double S p i x)"
    unfolding csqlgo_bind_set_double_def Let_def by (rule bridge_if [OF const bytes [OF fits_c_string]])
  show "bridge_call v_binds (\<lambda>p. csqlgo_bind_set_null S p i)"
    unfolding csqlgo_bind_set_null_def by (rule bytes) (simp add: fits_def)
qed

lemma stmt_text_call: "bridge_call live_stmt (\<lambda>p. csqlgo_stmt_bind_text S p i (c_bytes v) (c_int (int (length v))))"
  and stmt_blob_call: "bridge_call live_stmt (\<lambda>p. csqlgo_stmt_bind_blob S p i (c_bytes v) (c_int (int (length v))))"
proof -
  show "bridge_call live_stmt (\<lambda>p. csqlgo_stmt_bind_text S p i (c_bytes v) (c_int (int (length v))))"
  proof
    fix n ptr
    assume ok: "native_ok n" and live: "\<And>p. ptr = Some p \<Longrightarrow> live_stmt (nview n) p"
    show "wp (csqlgo_stmt_bind_text S ptr i (c_bytes v) (c_int (int (length v)))) (\<lambda>_. quiet n) n"
      using stmt_text_quiet [OF ok live fits_c_bytes] ok
      by (cases ptr) (auto simp: csqlgo_stmt_bind_text_def wp_simps)
  qed
  show "bridge_call live_stmt (\<lambda>p. csqlgo_stmt_bind_blob S p i (c_bytes v) (c_int (int (length v))))"
  proof
    fix n ptr
    assume ok: "native_ok n" and live: "\<And>p. ptr = Some p \<Longrightarrow> live_stmt (nview n) p"
    show "wp (csqlgo_stmt_bind_blob S ptr i (c_bytes v) (c_int (int (length v)))) (\<lambda>_. quiet n) n"
      using stmt_blob_quiet [OF ok live fits_c_bytes] ok
      by (cases ptr) (auto simp: csqlgo_stmt_bind_blob_def wp_simps)
  qed
qed

lemmas quiet_intros = quiet_if quiet_throw call_quiet metric_quiet number_quiet rows_call_quiet
  copyField_quiet stmt_call_quiet csBind_set_quiet unsupported_quiet

lemmas bridge_facts = ping.bridge_call_axioms execute.bridge_call_axioms set_database.bridge_call_axioms
  begin_tx.bridge_call_axioms commit_tx.bridge_call_axioms rollback_tx.bridge_call_axioms
  changes.bridge_call_axioms affected_rows.bridge_call_axioms last_insert_id.bridge_call_axioms
  num_rows.bridge_call_axioms num_columns.bridge_call_axioms column_type.bridge_call_axioms
  seek.bridge_call_axioms copy_field.bridge_call_axioms copy_name.bridge_call_axioms
  stmt_int64.bridge_call_axioms stmt_double.bridge_call_axioms stmt_null.bridge_call_axioms
  stmt_zeroblob.bridge_call_axioms stmt_execute.bridge_call_axioms
  bind_text_call bind_blob_call bind_int64_call bind_double_call bind_null_call
  stmt_text_call stmt_blob_call

lemma quiet_tryE:
  assumes "quiet_method m" and "\<And>v. quiet_method (k v)"
  shows "quiet_method (tryE m k)"
proof
  fix w assume ok: "csdk_ok w"
  show "wp (tryE m k) (\<lambda>_ w'. becomes w (cview w) w') w"
    unfolding wp_tryE
  proof (rule quiet_method.keeps_frame [OF assms(1) ok])
    fix r w' assume b: "becomes w (cview w) w'"
    have "wp (k v) (\<lambda>_ w''. becomes w (cview w) w'') w'" for v
      by (rule quiet_method.keeps_frame [OF assms(2) becomes_ok [OF ok b]])
        (use becomes_trans [OF b] becomes_view [OF b] in simp)
    with b show "(case r of Inl e \<Rightarrow> (\<lambda>w'. becomes w (cview w) w') |
        Inr v \<Rightarrow> wp (k v) (\<lambda>_ w'. becomes w (cview w) w')) w'"
      by (simp split: sum.splits)
  qed
qed

lemma quiet_ok: "quiet_method (ok v)"
  by unfold_locales (simp add: wp_simps becomes_refl)

interpretation conn_Ping: quiet_method "csConn_Ping S conn" for S conn
  unfolding csConn_Ping_def by (intro quiet_intros bridge_facts)

interpretation conn_Exec: quiet_method "csConn_Exec S conn sql" for S conn sql
  unfolding csConn_Exec_def by (intro quiet_intros bridge_facts)

interpretation conn_SetDatabase: quiet_method "csConn_SetDatabase S conn name" for S conn name
  unfolding csConn_SetDatabase_def Let_def by (intro quiet_intros bridge_facts)

interpretation conn_Begin: quiet_method "csConn_Begin S conn" for S conn
  unfolding csConn_Begin_def by (intro quiet_intros bridge_facts)

interpretation conn_Commit: quiet_method "csConn_Commit S conn" for S conn
  unfolding csConn_Commit_def by (intro quiet_intros bridge_facts)

interpretation conn_Rollback: quiet_method "csConn_Rollback S conn" for S conn
  unfolding csConn_Rollback_def by (intro quiet_intros bridge_facts)

interpretation conn_Changes: quiet_method "csConn_Changes S conn" for S conn
  unfolding csConn_Changes_def by (intro quiet_intros bridge_facts)

interpretation conn_AffectedRows: quiet_method "csConn_AffectedRows S conn" for S conn
  unfolding csConn_AffectedRows_def by (intro quiet_intros bridge_facts)

interpretation conn_LastInsertID: quiet_method "csConn_LastInsertID S conn" for S conn
  unfolding csConn_LastInsertID_def by (intro quiet_intros bridge_facts)

interpretation rows_NumRows: quiet_method "csRows_NumRows S rows" for S rows
  unfolding csRows_NumRows_def by (intro quiet_intros bridge_facts)

interpretation rows_NumColumns: quiet_method "csRows_NumColumns S rows" for S rows
  unfolding csRows_NumColumns_def by (intro quiet_intros bridge_facts)

interpretation rows_ColumnType: quiet_method "csRows_ColumnType S rows column" for S rows column
  unfolding csRows_ColumnType_def by (intro quiet_intros bridge_facts)

interpretation rows_Field: quiet_method "csRows_Field S rows row column" for S rows row column
  unfolding csRows_Field_def by (intro quiet_intros bridge_facts)

interpretation rows_ColumnName: quiet_method "csRows_ColumnName S rows column" for S rows column
  unfolding csRows_ColumnName_def
  by (intro quiet_intros quiet_tryE bridge_facts) (auto intro!: quiet_throw quiet_ok split: prod.splits)

interpretation stmt_BindInt64: quiet_method "csStmt_BindInt64 S stmt i v" for S stmt i v
  unfolding csStmt_BindInt64_def by (intro quiet_intros bridge_facts)

interpretation stmt_BindDouble: quiet_method "csStmt_BindDouble S stmt i v" for S stmt i v
  unfolding csStmt_BindDouble_def by (intro quiet_intros bridge_facts)

interpretation stmt_BindText: quiet_method "csStmt_BindText S stmt i v" for S stmt i v
  unfolding csStmt_BindText_def csStmt_bindBytes_def by (intro quiet_intros bridge_facts)

interpretation stmt_BindBlob: quiet_method "csStmt_BindBlob S stmt i v" for S stmt i v
  unfolding csStmt_BindBlob_def csStmt_bindBytes_def by (intro quiet_intros bridge_facts)

interpretation stmt_BindNull: quiet_method "csStmt_BindNull S stmt i" for S stmt i
  unfolding csStmt_BindNull_def by (intro quiet_intros bridge_facts)

interpretation stmt_BindZeroBlob: quiet_method "csStmt_BindZeroBlob S stmt i size'" for S stmt i size'
  unfolding csStmt_BindZeroBlob_def by (intro quiet_intros bridge_facts)

interpretation stmt_Exec: quiet_method "csStmt_Exec S stmt" for S stmt
  unfolding csStmt_Exec_def by (intro quiet_intros bridge_facts)

interpretation bind_SetInt64: quiet_method "csBind_SetInt64 S bnd i v" for S bnd i v
  unfolding csBind_SetInt64_def by (intro quiet_intros bridge_facts)

interpretation bind_SetDouble: quiet_method "csBind_SetDouble S bnd i v" for S bnd i v
  unfolding csBind_SetDouble_def by (intro quiet_intros bridge_facts)

interpretation bind_SetText: quiet_method "csBind_SetText S bnd i v" for S bnd i v
  unfolding csBind_SetText_def csBind_setBytes_def by (intro quiet_intros bridge_facts)

interpretation bind_SetBlob: quiet_method "csBind_SetBlob S bnd i v" for S bnd i v
  unfolding csBind_SetBlob_def csBind_setBytes_def by (intro quiet_intros bridge_facts)

interpretation bind_SetNull: quiet_method "csBind_SetNull S bnd i" for S bnd i
  unfolding csBind_SetNull_def by (intro quiet_intros bridge_facts)

interpretation bind_SetZeroBlob: quiet_method "csBind_SetZeroBlob bnd i size'" for bnd i size'
  unfolding csBind_SetZeroBlob_def by (intro quiet_intros bridge_facts)

interpretation rows_Seek: quiet_method "csRows_Seek S rows row" for S rows row
  unfolding csRows_Seek_def
  by (intro quiet_if quiet_throw, rule rows_body_quiet, rule wp_still_seq,
      rule csN_quiet [OF seek.bridge_call_axioms], assumption, erule (1) live_rows_ptr) (simp add: wp_simps)

text \<open>\<^verbatim>\<open>ExecBind\<close> nests the bind's mutex in the connection's.\<close>

interpretation conn_ExecBind: quiet_method "csConn_ExecBind S conn sql bnd" for S conn sql bnd
proof -
  have "quiet_method (with_open_conn conn (\<lambda>a p. with_open_bind bnd (\<lambda>b. do {
      result \<leftarrow> csN (csqlgo_conn_execute_bind S p (c_string sql) b); check_result S a result })))"
  proof
    fix w assume ok: "csdk_ok w"
    show "wp (with_open_conn conn (\<lambda>a p. with_open_bind bnd (\<lambda>b. do {
        result \<leftarrow> csN (csqlgo_conn_execute_bind S p (c_string sql) b); check_result S a result })))
      (\<lambda>_ w'. becomes w (cview w) w') w"
    proof (rule open_conn_rule [OF ok])
      fix a p
      assume a: "conn_ptr (gconns w a) = Some p"
      let ?u = "take_lock (LCsConn a) w"
      have free: "\<not> List.member (held (native_of ?u)) (LCsBind b)" for b
        using no_cs_lock [OF ok, of "LCsBind b"] by (simp add: take_lock_def)
      have out: "becomes w (cview w) (drop_lock (LCsConn a) (drop_lock (LCsBind b) w'))"
        if "still (take_lock (LCsBind b) ?u) w'" for b w'
      proof -
        have "becomes (take_lock (LCsBind b) ?u) (cview w) w'"
          using still_becomes [OF _ that] ok by (simp add: csdk_ok_def)
        then have "becomes ?u (cview w) (drop_lock (LCsBind b) w')"
          by (rule becomes_unlock_any [OF free])
        from becomes_unlock [OF ok _ this] show ?thesis by simp
      qed
      have run: "wp (do { result \<leftarrow> csN (csqlgo_conn_execute_bind S (Some p) (c_string sql) (Some q));
          check_result S a result }) (\<lambda>_. still (take_lock (LCsBind b) ?u)) (take_lock (LCsBind b) ?u)"
        if "bind_ptr (gbinds w b) = Some q" for b q
      proof -
        have inv: "csdk_inv (take_lock (LCsBind b) ?u)"
          using ok by (simp add: csdk_ok_def)
        have "wp (csN (csqlgo_conn_execute_bind S (Some p) (c_string sql) (Some q)))
            (\<lambda>_. still (take_lock (LCsBind b) ?u)) (take_lock (LCsBind b) ?u)"
          using inv live_conn_ptr [OF inv, of a p] live_bind_ptr [OF inv, of b q] a that
          by (intro csN_still execute_bind_quiet) (auto simp: csdk_inv_def)
        then show ?thesis
          by (rule wp_still_seq) (rule still_then_check [OF inv])
      qed
      show "wp (with_open_bind bnd (\<lambda>b. do {
          result \<leftarrow> csN (csqlgo_conn_execute_bind S (Some p) (c_string sql) b); check_result S a result }))
        (\<lambda>r w'. becomes w (cview w) (drop_lock (LCsConn a) w')) ?u"
      proof (cases bnd)
        case None
        with lock_unlock [OF ok] show ?thesis by (simp add: with_open_bind_def wp_simps)
      next
        case (Some b)
        have inv: "csdk_inv (take_lock (LCsBind b) ?u)"
          using ok by (simp add: csdk_ok_def)
        show ?thesis
        proof (cases "bind_ptr (gbinds w b)")
          case None
          with Some out [OF still_refl [OF inv]] show ?thesis by (simp add: with_open_bind_def wp_simps)
        next
          case q: (Some q)
          have "wp (do { result \<leftarrow> csN (csqlgo_conn_execute_bind S (Some p) (c_string sql) (Some q));
              check_result S a result }) (\<lambda>_ w'. becomes w (cview w) (drop_lock (LCsConn a) (drop_lock (LCsBind b) w')))
            (take_lock (LCsBind b) ?u)"
            by (rule wp_mono [OF run [OF q]]) (rule out)
          with Some q show ?thesis by (simp add: with_open_bind_def wp_simps)
        qed
      qed
    qed
  qed
  then show "quiet_method (csConn_ExecBind S conn sql bnd)"
    unfolding csConn_ExecBind_def by (intro quiet_if quiet_throw)
qed

text \<open>All of them.\<close>

lemmas quiet_methods =
  conn_Ping.quiet_method_axioms conn_Exec.quiet_method_axioms conn_SetDatabase.quiet_method_axioms
  conn_Begin.quiet_method_axioms conn_Commit.quiet_method_axioms conn_Rollback.quiet_method_axioms
  conn_Changes.quiet_method_axioms conn_AffectedRows.quiet_method_axioms conn_LastInsertID.quiet_method_axioms
  conn_ExecBind.quiet_method_axioms bind_SetInt64.quiet_method_axioms bind_SetDouble.quiet_method_axioms
  bind_SetText.quiet_method_axioms bind_SetBlob.quiet_method_axioms bind_SetNull.quiet_method_axioms
  bind_SetZeroBlob.quiet_method_axioms rows_NumRows.quiet_method_axioms rows_NumColumns.quiet_method_axioms
  rows_ColumnType.quiet_method_axioms rows_Seek.quiet_method_axioms rows_Field.quiet_method_axioms
  rows_ColumnName.quiet_method_axioms stmt_BindInt64.quiet_method_axioms stmt_BindDouble.quiet_method_axioms
  stmt_BindText.quiet_method_axioms stmt_BindBlob.quiet_method_axioms stmt_BindNull.quiet_method_axioms
  stmt_BindZeroBlob.quiet_method_axioms stmt_Exec.quiet_method_axioms

end
