(* ===== verification/Cube_Csdk_Lifecycle.thy ===== *)
theory Cube_Csdk_Lifecycle
  imports Cube_Csdk_Methods
begin

text \<open>
  The methods of \<^verbatim>\<open>internal/csdk\<close> that open and close objects, each with its exact effect on the
  abstract view, on success and on failure; and what follows for every sequence of calls.
\<close>

section \<open>Opening\<close>

lemma wp_cs_new [wp_simps]: "wp cs_new Q = (\<lambda>w. Q (gnext w) (w\<lparr>gnext := Suc (gnext w)\<rparr>))"
  by (simp add: cs_new_def wp_simps)

lemma wp_add_children [wp_simps]:
  "wp (add_children a k) Q = (\<lambda>w. Q () (w\<lparr>gconns := bump (gconns w) a k\<rparr>))"
  by (simp add: add_children_def bump_def wp_simps)

lemma csdk_invI:
  assumes "native_ok (native_of w)"
    and "heap_ok (nview (native_of w)) (gconns w) (grows w) (gstmts w) (gbinds w) (gnext w)"
  shows "csdk_inv w"
  using assms by (simp add: csdk_inv_def)

lemma csdk_invD:
  assumes "csdk_inv w"
  shows "native_ok (native_of w)"
    "heap_ok (nview (native_of w)) (gconns w) (grows w) (gstmts w) (gbinds w) (gnext w)"
    "unborn_ok (gnext w) (gconns w) (grows w) (gstmts w) (gbinds w)"
  using assms by (auto simp: csdk_inv_def heap_ok_def)

lemma quiet_becomes: "csdk_inv w \<Longrightarrow> quiet (native_of w) n \<Longrightarrow> becomes w (cview w) (w\<lparr>native_of := n\<rparr>)"
  using still_becomes [of w "w\<lparr>native_of := n\<rparr>"] by (simp add: still_def)

theorem cs_Open_spec:
  assumes ok: "csdk_ok w"
  shows "wp (cs_Open S opts) (\<lambda>r w'. case r of
      Inl e \<Rightarrow> becomes w (cview w) w'
    | Inr a \<Rightarrow> \<not> kopen (cview w) a \<and> becomes w ((cview w)\<lparr>kopen := (kopen (cview w))(a := True)\<rparr>) w') w"
proof -
  have inv: "csdk_inv w" using ok by (simp add: csdk_ok_def)
  note nat = csdk_invD [OF inv]
  note closed = unborn_closed [OF nat(3), of "gnext w"]
  have opened: "becomes w ((cview w)\<lparr>kopen := (kopen (cview w))(gnext w := True)\<rparr>)
      (w\<lparr>native_of := n, gnext := Suc (gnext w),
         gconns := (gconns w)(gnext w := \<lparr>conn_ptr = Some p, conn_children = 0\<rparr>)\<rparr>)"
    if "conn_added p (native_of w) n" for p n
  proof -
    from that have n: "native_ok n" "\<not> v_conns (nview (native_of w)) p"
      "nview n = (nview (native_of w))\<lparr>v_conns := (v_conns (nview (native_of w)))(p := True)\<rparr>"
      unfolding conn_added_def by blast+
    from arg_cong [OF n(3), of v_held] arg_cong [OF n(3), of v_stuck]
    have "held n = held (native_of w)" "stuck n = stuck (native_of w)" by simp_all
    with heap_open [OF nat(2) n(2)] n(1,3) show ?thesis
      by (auto simp: becomes_def locks_def cview_def fun_eq_iff intro!: csdk_invI)
  qed
  have run: "wp (csqlgo_conn_open S h p u pw t e) (\<lambda>(code, out, msg) n.
      (code \<noteq> CSQLGO_OK \<longrightarrow> becomes w (cview w) (w\<lparr>native_of := n\<rparr>)) \<and>
      (code = CSQLGO_OK \<longrightarrow> becomes w ((cview w)\<lparr>kopen := (kopen (cview w))(gnext w := True)\<rparr>)
        (w\<lparr>native_of := n, gnext := Suc (gnext w),
           gconns := (gconns w)(gnext w := \<lparr>conn_ptr = out, conn_children = 0\<rparr>)\<rparr>))) (native_of w)"
    for h p u pw t e
    by (rule wp_mono [OF conn_open_spec [OF nat(1)]]) (auto split: if_splits intro: opened quiet_becomes [OF inv])
  show ?thesis
    using becomes_refl [OF ok] closed
    by (auto simp: cs_Open_def Let_def wp_simps wp_case set_conn_def split: sum.splits prod.splits
        intro!: wp_mono [OF run])
qed

text \<open>A result code is either a success, with no effect, or turned into an error.\<close>

lemma check_result_rule:
  assumes inv: "csdk_inv w"
    and fail: "\<And>e w'. code \<noteq> CSQLGO_OK \<Longrightarrow> still w w' \<Longrightarrow> Q (Inl e) w'"
    and good: "code = CSQLGO_OK \<Longrightarrow> wp (k ()) Q w"
  shows "wp (tryE (check_result S a code) k) Q w"
proof (cases "code = CSQLGO_OK")
  case True
  with good show ?thesis by (simp add: check_result_def wp_simps)
next
  case False
  then show ?thesis
    by (auto simp: check_result_def wp_simps intro!: wp_mono [OF nativeErrorLocked_still [OF inv]] fail)
qed

lemma held_view:
  "v_held (nview n) = v_held (nview m) \<Longrightarrow> held n = held m"
  "v_stuck (nview n) = v_stuck (nview m) \<Longrightarrow> stuck n = stuck m"
  by simp_all

text \<open>The common end of both query methods: a C cursor becomes a Go cursor and a child.\<close>

lemma cursor_body:
  assumes inv: "csdk_inv w" and a: "conn_ptr (gconns w a) = Some q"
    and run: "wp m (cursor_result (native_of w)) (native_of w)"
  shows "wp (do { r \<leftarrow> csN m; tryE (check_result S a (fst r)) (\<lambda>_. new_rows a (snd r)) })
    (\<lambda>r w'. case r of Inl e \<Rightarrow> becomes w (cview w) w'
       | Inr i \<Rightarrow> krows (cview w) i = None \<and> becomes w ((cview w)\<lparr>krows := (krows (cview w))(i \<mapsto> a)\<rparr>) w') w"
proof -
  note nat = csdk_invD [OF inv]
  note closed = unborn_closed [OF nat(3), of "gnext w"]
  let ?Q = "\<lambda>r w'. case r of Inl e \<Rightarrow> becomes w (cview w) w'
    | Inr i \<Rightarrow> krows (cview w) i = None \<and> becomes w ((cview w)\<lparr>krows := (krows (cview w))(i \<mapsto> a)\<rparr>) w'"
  have opened: "becomes w ((cview w)\<lparr>krows := (krows (cview w))(gnext w \<mapsto> a)\<rparr>)
      (w\<lparr>native_of := n, gconns := bump (gconns w) a 1, gnext := Suc (gnext w),
         grows := (grows w)(gnext w := \<lparr>rows_conn = Some a, rows_ptr = Some p\<rparr>)\<rparr>)"
    if "cursor_added p (native_of w) n" for p n
  proof -
    from that have n: "native_ok n" "\<not> v_cursors (nview (native_of w)) p"
      "nview n = (nview (native_of w))\<lparr>v_cursors := (v_cursors (nview (native_of w)))(p := True)\<rparr>"
      unfolding cursor_added_def by blast+
    from arg_cong [OF n(3), of v_held] arg_cong [OF n(3), of v_stuck]
    have "held n = held (native_of w)" "stuck n = stuck (native_of w)" by simp_all
    with heap_rows_add [OF nat(2) a n(2)] n(1,3) show ?thesis
      by (auto simp: becomes_def locks_def cview_def fun_eq_iff intro!: csdk_invI)
  qed
  have "wp (tryE (check_result S a (fst r)) (\<lambda>_. new_rows a (snd r))) ?Q (w\<lparr>native_of := n\<rparr>)"
    if res: "cursor_result (native_of w) r n" for r n
  proof (cases "fst r = CSQLGO_OK")
    case True
    with res obtain p where "snd r = Some p" "cursor_added p (native_of w) n"
      by (cases r) (auto simp: cursor_result_def)
    with True opened closed show ?thesis
      by (simp add: check_result_def wp_simps new_rows_def set_rows_def)
  next
    case False
    with res have "quiet (native_of w) n"
      by (cases r) (auto simp: cursor_result_def)
    then have st: "still w (w\<lparr>native_of := n\<rparr>)" by (simp add: still_def)
    have "?Q (Inl e) w'" if "still (w\<lparr>native_of := n\<rparr>) w'" for e w'
      using still_becomes [OF inv still_trans [OF st that]] by simp
    with False show ?thesis
      by (intro check_result_rule [OF still_inv [OF inv st]]) auto
  qed
  then show ?thesis
    by (simp only: wp_bind wp_csN) (rule wp_mono [OF run])
qed

lemma conn_unlock:
  "csdk_ok w \<Longrightarrow> becomes (take_lock (LCsConn a) w) V w' \<Longrightarrow> becomes w V (drop_lock (LCsConn a) w')"
  "csdk_ok w \<Longrightarrow> becomes (take_lock (LCsBind a) w) V w' \<Longrightarrow> becomes w V (drop_lock (LCsBind a) w')"
  by (rule becomes_unlock; simp)+

theorem csConn_Query_spec:
  assumes ok: "csdk_ok w"
  shows "wp (csConn_Query S (Some a) sql) (\<lambda>r w'. case r of
      Inl e \<Rightarrow> becomes w (cview w) w'
    | Inr i \<Rightarrow> krows (cview w) i = None \<and> becomes w ((cview w)\<lparr>krows := (krows (cview w))(i \<mapsto> a)\<rparr>) w') w"
proof -
  have inv: "csdk_inv (take_lock l w)" for l using ok by (simp add: csdk_ok_def)
  have "wp (with_open_conn (Some a) (\<lambda>a p. do { r \<leftarrow> csN (csqlgo_conn_query S p (c_string sql));
      tryE (check_result S a (fst r)) (\<lambda>_. new_rows a (snd r)) })) (\<lambda>r w'. case r of
      Inl e \<Rightarrow> becomes w (cview w) w'
    | Inr i \<Rightarrow> krows (cview w) i = None \<and> becomes w ((cview w)\<lparr>krows := (krows (cview w))(i \<mapsto> a)\<rparr>) w') w"
  proof (rule open_conn_rule [OF ok], goal_cases)
    case (2 b p)
    then have a: "conn_ptr (gconns (take_lock (LCsConn b) w) b) = Some p" "b = a" by simp_all
    show ?case
      by (rule wp_mono [OF cursor_body [OF inv a(1) conn_query_spec]])
        (use csdk_invD(1) [OF inv] live_conn_ptr [OF inv a(1)] a(2) in
          \<open>auto intro: conn_unlock [OF ok] split: sum.splits\<close>)
  qed simp
  with becomes_refl [OF ok] show ?thesis
    by (simp add: csConn_Query_def wp_simps)
qed

theorem csStmt_Query_spec:
  assumes ok: "csdk_ok w" and s: "kstmts (cview w) s = Some a \<or> kstmts (cview w) s = None"
  shows "wp (csStmt_Query S (Some s)) (\<lambda>r w'. case r of
      Inl e \<Rightarrow> becomes w (cview w) w'
    | Inr i \<Rightarrow> krows (cview w) i = None \<and> kstmts (cview w) s = Some a \<and>
        becomes w ((cview w)\<lparr>krows := (krows (cview w))(i \<mapsto> a)\<rparr>) w') w"
  unfolding csStmt_Query_def
proof (rule open_stmt_rule [OF ok], goal_cases)
  case (2 t b p)
  have inv: "csdk_inv (take_lock l w)" for l using ok by (simp add: csdk_ok_def)
  from 2 s have t: "t = s" "stmt_ptr (gstmts w s) = Some p" "b = a" "open_stmt (gstmts w) s = Some a"
    by (auto simp: open_stmt_def)
  obtain q where q: "conn_ptr (gconns w a) = Some q" "v_stmts (nview (native_of w)) p = Some q"
    using stmt_parent [OF csdk_invD(2), of w s p] ok t by (auto simp: csdk_ok_def open_stmt_def)
  have "v_stmts (nview (native_of (take_lock (LCsConn b) w))) p = Some q"
    using q(2) by (simp add: take_lock_def)
  from stmt_query_spec [OF csdk_invD(1) [OF inv] this]
  have run: "wp (csqlgo_stmt_query S (Some p)) (cursor_result (native_of (take_lock (LCsConn b) w)))
      (native_of (take_lock (LCsConn b) w))" .
  have ptr: "conn_ptr (gconns (take_lock (LCsConn b) w) b) = Some q" using q(1) t(3) by simp
  show ?case
    by (rule wp_mono [OF cursor_body [OF inv ptr run]])
      (use t in \<open>auto intro: conn_unlock [OF ok] split: sum.splits\<close>)
qed simp

text \<open>The end of \<^verbatim>\<open>Prepare\<close>: a C statement becomes a Go statement and a child.\<close>

lemma prepare_body:
  assumes inv: "csdk_inv w" and a: "conn_ptr (gconns w a) = Some p"
  shows "wp (do { r \<leftarrow> csN (csqlgo_conn_prepare S (Some p) sql'); tryE (check_result S a (fst r)) (\<lambda>_. do {
          _ \<leftarrow> add_children a 1; s \<leftarrow> cs_new; _ \<leftarrow> set_stmt s \<lparr>stmt_conn = Some a, stmt_ptr = snd r\<rparr>; ok s }) })
      (\<lambda>r w'. case r of Inl e \<Rightarrow> becomes w (cview w) w'
         | Inr i \<Rightarrow> kstmts (cview w) i = None \<and> becomes w ((cview w)\<lparr>kstmts := (kstmts (cview w))(i \<mapsto> a)\<rparr>) w') w"
proof -
  let ?Q = "\<lambda>r w'. case r of Inl e \<Rightarrow> becomes w (cview w) w'
     | Inr i \<Rightarrow> kstmts (cview w) i = None \<and> becomes w ((cview w)\<lparr>kstmts := (kstmts (cview w))(i \<mapsto> a)\<rparr>) w'"
  note nat = csdk_invD [OF inv]
  note closed = unborn_closed [OF nat(3), of "gnext w"]
  have opened: "becomes w ((cview w)\<lparr>kstmts := (kstmts (cview w))(gnext w \<mapsto> a)\<rparr>)
      (w\<lparr>native_of := n, gconns := bump (gconns w) a 1, gnext := Suc (gnext w),
         gstmts := (gstmts w)(gnext w := \<lparr>stmt_conn = Some a, stmt_ptr = Some x\<rparr>)\<rparr>)"
    if "stmt_added p x (native_of w) n" for x n
  proof -
    from that have n: "native_ok n" "v_stmts (nview (native_of w)) x = None"
      "nview n = (nview (native_of w))\<lparr>v_stmts := (v_stmts (nview (native_of w)))(x \<mapsto> p)\<rparr>"
      unfolding stmt_added_def by blast+
    from arg_cong [OF n(3), of v_held] arg_cong [OF n(3), of v_stuck]
    have "held n = held (native_of w)" "stuck n = stuck (native_of w)" by simp_all
    with heap_stmt_add [OF nat(2) a n(2)] n(1,3) show ?thesis
      by (auto simp: becomes_def locks_def cview_def fun_eq_iff intro!: csdk_invI)
  qed
  have "wp (tryE (check_result S a (fst r)) (\<lambda>_. do { _ \<leftarrow> add_children a 1; s \<leftarrow> cs_new;
      _ \<leftarrow> set_stmt s \<lparr>stmt_conn = Some a, stmt_ptr = snd r\<rparr>; ok s })) ?Q (w\<lparr>native_of := n\<rparr>)"
    if res: "stmt_result p (native_of w) r n" for r n
  proof (cases "fst r = CSQLGO_OK")
    case True
    with res obtain x where "snd r = Some x" "stmt_added p x (native_of w) n"
      by (cases r) (auto simp: stmt_result_def)
    with True opened closed show ?thesis
      by (simp add: check_result_def wp_simps set_stmt_def)
  next
    case False
    with res have "quiet (native_of w) n"
      by (cases r) (auto simp: stmt_result_def)
    then have st: "still w (w\<lparr>native_of := n\<rparr>)" by (simp add: still_def)
    have "?Q (Inl e) w'" if "still (w\<lparr>native_of := n\<rparr>) w'" for e w'
      using still_becomes [OF inv still_trans [OF st that]] by simp
    with False show ?thesis
      by (intro check_result_rule [OF still_inv [OF inv st]]) auto
  qed
  then show ?thesis
    by (simp only: wp_bind [of "csN _"] wp_csN)
      (rule wp_mono [OF conn_prepare_spec [OF nat(1) live_conn_ptr [OF inv a]]])
qed

theorem csConn_Prepare_spec:
  assumes ok: "csdk_ok w"
  shows "wp (csConn_Prepare S (Some a) sql) (\<lambda>r w'. case r of
      Inl e \<Rightarrow> becomes w (cview w) w'
    | Inr i \<Rightarrow> kstmts (cview w) i = None \<and> becomes w ((cview w)\<lparr>kstmts := (kstmts (cview w))(i \<mapsto> a)\<rparr>) w') w"
proof -
  have inv0: "csdk_inv (take_lock l w)" for l using ok by (simp add: csdk_ok_def)
  have "wp (with_open_conn (Some a) (\<lambda>a p. do { r \<leftarrow> csN (csqlgo_conn_prepare S p (c_string sql));
      tryE (check_result S a (fst r)) (\<lambda>_. do { _ \<leftarrow> add_children a 1; s \<leftarrow> cs_new;
          _ \<leftarrow> set_stmt s \<lparr>stmt_conn = Some a, stmt_ptr = snd r\<rparr>; ok s }) })) (\<lambda>r w'. case r of
      Inl e \<Rightarrow> becomes w (cview w) w'
    | Inr i \<Rightarrow> kstmts (cview w) i = None \<and> becomes w ((cview w)\<lparr>kstmts := (kstmts (cview w))(i \<mapsto> a)\<rparr>) w') w"
  proof (rule open_conn_rule [OF ok], goal_cases)
    case (2 b p)
    then have a: "conn_ptr (gconns (take_lock (LCsConn a) w) a) = Some p" "b = a" by simp_all
    show ?case unfolding a(2)
      by (rule wp_mono [OF prepare_body [OF inv0 a(1)]])
        (auto intro: conn_unlock [OF ok] split: sum.splits)
  qed simp
  with becomes_refl [OF ok] show ?thesis
    by (simp add: csConn_Prepare_def wp_simps)
qed

section \<open>Closing\<close>

text \<open>\<open>children\<close> of an object seen from outside: some open cursor or statement belongs to it.\<close>

definition kbusy :: "cview \<Rightarrow> nat \<Rightarrow> bool" where
  "kbusy V a \<longleftrightarrow> (\<exists>i. krows V i = Some a \<or> kstmts V i = Some a)"

lemma children_busy:
  assumes "csdk_inv w"
  shows "conn_children (gconns w a) \<noteq> 0 \<longleftrightarrow> kbusy (cview w) a"
proof -
  note h = csdk_invD(2) [OF assms]
  have "conn_children (gconns w a) = 0" if "\<not> kbusy (cview w) a"
    using that heap_okD(7) [OF h, of a] by (simp add: kbusy_def child_count_zero)
  moreover have "\<not> kbusy (cview w) a" if "conn_children (gconns w a) = 0"
    using no_children [OF h that] by (simp add: kbusy_def)
  ultimately show ?thesis by blast
qed

text \<open>
  Closing a connection: refused with \<open>CsBusy\<close> and no effect exactly while an object of it is open;
  otherwise it is closed afterwards, and closing it again changes nothing.
\<close>

theorem csConn_Close_spec:
  assumes ok: "csdk_ok w"
  shows "wp (csConn_Close (Some a)) (\<lambda>r w'.
    if kopen (cview w) a \<and> kbusy (cview w) a then r = Inl CsBusy \<and> becomes w (cview w) w'
    else r = Inr () \<and> becomes w ((cview w)\<lparr>kopen := (kopen (cview w))(a := False)\<rparr>) w') w"
proof -
  have inv: "csdk_inv w" "csdk_inv (take_lock l w)" for l using ok by (simp_all add: csdk_ok_def)
  let ?V = "(cview w)\<lparr>kopen := (kopen (cview w))(a := False)\<rparr>"
  have idle: "becomes w ?V w'" if "becomes w (cview w) w'" "conn_ptr (gconns w a) = None" for w'
  proof -
    have "?V = cview w" using that(2) by (simp add: cview_def fun_eq_iff)
    with that(1) show ?thesis by simp
  qed
  have closed: "wp (csqlgo_conn_close (Some p) True) (\<lambda>_ n. becomes w ?V
      (drop_lock (LCsConn a) (take_lock (LCsConn a) w\<lparr>gconns := (gconns w)(a := (gconns w a)\<lparr>conn_ptr := None\<rparr>),
        native_of := n\<rparr>))) (native_of (take_lock (LCsConn a) w))"
    if p: "conn_ptr (gconns w a) = Some p" and free: "conn_children (gconns w a) = 0" for p
  proof -
    let ?u = "take_lock (LCsConn a) w"
    note nat = csdk_invD [OF inv(2), of "LCsConn a"]
    have nos: "\<And>q. v_stmts (nview (native_of ?u)) q \<noteq> Some p"
      by (rule no_stmts [OF nat(2), of a]) (simp_all add: p free)
    have "becomes ?u ?V (?u\<lparr>gconns := (gconns w)(a := (gconns w a)\<lparr>conn_ptr := None\<rparr>), native_of := n\<rparr>)"
      if n: "native_ok n" "nview n = (nview (native_of ?u))\<lparr>v_conns := (v_conns (nview (native_of ?u)))(p := False)\<rparr>" for n
    proof -
      from arg_cong [OF n(2), of v_held] arg_cong [OF n(2), of v_stuck]
      have "held n = held (native_of ?u)" "stuck n = stuck (native_of ?u)" by simp_all
      with heap_close [OF nat(2), of a p] n p free show ?thesis
        by (auto simp: becomes_def locks_def cview_def fun_eq_iff intro!: csdk_invI)
    qed
    then show ?thesis
      by (intro wp_mono [OF conn_close_spec [OF nat(1) live_conn_ptr [OF inv(2), of _ a] nos]])
        (auto simp: p intro: conn_unlock [OF ok])
  qed
  show ?thesis
    using lock_unlock(1) [OF ok, of a] children_busy [OF inv(1), of a]
    by (auto simp: csConn_Close_def wp_simps set_conn_def intro: idle closed)
qed

theorem csRows_Close_spec:
  assumes ok: "csdk_ok w"
  shows "wp (csRows_Close (Some r)) (\<lambda>res w'.
    res = Inr () \<and> becomes w ((cview w)\<lparr>krows := (krows (cview w))(r := None)\<rparr>) w') w"
proof -
  have inv: "csdk_inv (take_lock l w)" for l using ok by (simp add: csdk_ok_def)
  let ?V = "(cview w)\<lparr>krows := (open_rows (grows w))(r := None)\<rparr>"
  have idle: "becomes w ?V w'" if "becomes w (cview w) w'" "open_rows (grows w) r = None" for w'
  proof -
    have "?V = cview w" using that(2) by (simp add: cview_def fun_eq_iff)
    with that(1) show ?thesis by simp
  qed
  have closed: "wp (csqlgo_cursor_close (Some p)) (\<lambda>_ n. becomes w ?V
      (drop_lock (LCsConn a) (take_lock (LCsConn a) w\<lparr>grows := (grows w)(r := \<lparr>rows_conn = Some a, rows_ptr = None\<rparr>),
        native_of := n, gconns := bump (gconns w) a (-1)\<rparr>))) (native_of (take_lock (LCsConn a) w))"
    if p: "rows_ptr (grows w r) = Some p" "rows_conn (grows w r) = Some a" for p a
  proof -
    let ?u = "take_lock (LCsConn a) w"
    note nat = csdk_invD [OF inv, of "LCsConn a"]
    have "becomes ?u ?V (?u\<lparr>grows := (grows w)(r := \<lparr>rows_conn = Some a, rows_ptr = None\<rparr>),
        native_of := n, gconns := bump (gconns w) a (-1)\<rparr>)"
      if n: "native_ok n" "nview n = (nview (native_of ?u))\<lparr>v_cursors := (v_cursors (nview (native_of ?u)))(p := False)\<rparr>" for n
    proof -
      from arg_cong [OF n(2), of v_held] arg_cong [OF n(2), of v_stuck]
      have "held n = held (native_of ?u)" "stuck n = stuck (native_of ?u)" by simp_all
      with heap_rows_drop [OF nat(2), of r a p] n p show ?thesis
        by (auto simp: becomes_def locks_def cview_def fun_eq_iff intro!: csdk_invI)
    qed
    then show ?thesis
      by (intro wp_mono [OF cursor_close_spec [OF nat(1) live_rows_ptr [OF inv, of _ r]]])
        (auto simp: p intro: conn_unlock [OF ok])
  qed
  show ?thesis
    using lock_unlock(1) [OF ok] becomes_refl [OF ok]
    by (auto simp: csRows_Close_def wp_simps set_rows_def split: option.splits
        intro!: idle closed) (simp_all add: open_rows_def open_stmt_def)
qed

theorem csStmt_Close_spec:
  assumes ok: "csdk_ok w"
  shows "wp (csStmt_Close S (Some s)) (\<lambda>res w'.
    becomes w ((cview w)\<lparr>kstmts := (kstmts (cview w))(s := None)\<rparr>) w') w"
proof -
  have inv: "csdk_inv (take_lock l w)" for l using ok by (simp add: csdk_ok_def)
  let ?V = "(cview w)\<lparr>kstmts := (open_stmt (gstmts w))(s := None)\<rparr>"
  have idle: "becomes w ?V w'" if "becomes w (cview w) w'" "open_stmt (gstmts w) s = None" for w'
  proof -
    have "?V = cview w" using that(2) by (simp add: cview_def fun_eq_iff)
    with that(1) show ?thesis by simp
  qed
  have closed: "wp (csqlgo_stmt_close S (Some p)) (\<lambda>code n. wp (check_result S a code)
      (\<lambda>_ w'. becomes w ?V (drop_lock (LCsConn a) w'))
      (take_lock (LCsConn a) w\<lparr>gstmts := (gstmts w)(s := \<lparr>stmt_conn = Some a, stmt_ptr = None\<rparr>),
        native_of := n, gconns := bump (gconns w) a (-1)\<rparr>)) (native_of (take_lock (LCsConn a) w))"
    if p: "stmt_ptr (gstmts w s) = Some p" "stmt_conn (gstmts w s) = Some a" for p a
  proof -
    let ?u = "take_lock (LCsConn a) w"
    note nat = csdk_invD [OF inv, of "LCsConn a"]
    let ?v = "\<lambda>n. ?u\<lparr>gstmts := (gstmts w)(s := \<lparr>stmt_conn = Some a, stmt_ptr = None\<rparr>),
        native_of := n, gconns := bump (gconns w) a (-1)\<rparr>"
    have b: "becomes ?u ?V (?v n)"
      if n: "native_ok n" "nview n = (nview (native_of ?u))\<lparr>v_stmts := (v_stmts (nview (native_of ?u)))(p := None)\<rparr>" for n
    proof -
      from arg_cong [OF n(2), of v_held] arg_cong [OF n(2), of v_stuck]
      have "held n = held (native_of ?u)" "stuck n = stuck (native_of ?u)" by simp_all
      with heap_stmt_drop [OF nat(2), of s a p] n p show ?thesis
        by (auto simp: becomes_def locks_def cview_def fun_eq_iff intro!: csdk_invI)
    qed
    have "wp (check_result S a code) (\<lambda>_ w'. becomes w ?V (drop_lock (LCsConn a) w')) (?v n)"
      if n: "becomes ?u ?V (?v n)" for n code
    proof -
      have i: "csdk_inv (?v n)" using n by (simp add: becomes_def)
      show ?thesis
        by (rule wp_mono [OF check_result_still [OF i]])
          (use still_becomes [OF i] becomes_trans [OF n] becomes_view [OF n] conn_unlock [OF ok] in auto)
    qed
    with b show ?thesis
      by (intro wp_mono [OF stmt_close_spec [OF nat(1) live_stmt_ptr [OF inv, of _ s]]]) (auto simp: p)
  qed
  show ?thesis
    using lock_unlock(1) [OF ok] becomes_refl [OF ok]
    by (auto simp: csStmt_Close_def wp_simps set_stmt_def split: option.splits
        intro!: idle closed) (simp_all add: open_rows_def open_stmt_def)
qed

section \<open>Bind graphs\<close>

theorem cs_NewBind_spec:
  assumes ok: "csdk_ok w"
  shows "wp (cs_NewBind S count) (\<lambda>r w'. case r of
      Inl e \<Rightarrow> becomes w (cview w) w'
    | Inr b \<Rightarrow> \<not> kbinds (cview w) b \<and> becomes w ((cview w)\<lparr>kbinds := (kbinds (cview w))(b := True)\<rparr>) w') w"
proof -
  have inv: "csdk_inv w" using ok by (simp add: csdk_ok_def)
  note nat = csdk_invD [OF inv]
  note closed = unborn_closed [OF nat(3), of "gnext w"]
  have opened: "becomes w ((cview w)\<lparr>kbinds := (kbinds (cview w))(gnext w := True)\<rparr>)
      (w\<lparr>native_of := n, gnext := Suc (gnext w), gbinds := (gbinds w)(gnext w := \<lparr>bind_ptr = Some p\<rparr>)\<rparr>)"
    if "bind_added p (native_of w) n" for p n
  proof -
    from that have n: "native_ok n" "\<not> v_binds (nview (native_of w)) p"
      "nview n = (nview (native_of w))\<lparr>v_binds := (v_binds (nview (native_of w)))(p := True)\<rparr>"
      unfolding bind_added_def by blast+
    from arg_cong [OF n(3), of v_held] arg_cong [OF n(3), of v_stuck]
    have "held n = held (native_of w)" "stuck n = stuck (native_of w)" by simp_all
    with heap_bind_add [OF nat(2) n(2)] n(1,3) show ?thesis
      by (auto simp: becomes_def locks_def cview_def fun_eq_iff intro!: csdk_invI)
  qed
  show ?thesis
    using becomes_refl [OF ok] closed
    by (auto simp: cs_NewBind_def wp_simps set_bind_def split: option.splits
        intro!: wp_mono [OF bind_new_spec [OF nat(1)]] intro: opened quiet_becomes [OF inv])
qed

theorem csBind_Close_spec:
  assumes ok: "csdk_ok w"
  shows "wp (csBind_Close (Some b)) (\<lambda>r w'.
    r = Inr () \<and> becomes w ((cview w)\<lparr>kbinds := (kbinds (cview w))(b := False)\<rparr>) w') w"
proof -
  have inv: "csdk_inv (take_lock l w)" for l using ok by (simp add: csdk_ok_def)
  let ?V = "(cview w)\<lparr>kbinds := (kbinds (cview w))(b := False)\<rparr>"
  have idle: "becomes w ?V w'" if "becomes w (cview w) w'" "bind_ptr (gbinds w b) = None" for w'
  proof -
    have "?V = cview w" using that(2) by (simp add: cview_def fun_eq_iff)
    with that(1) show ?thesis by simp
  qed
  have closed: "wp (csqlgo_bind_close (Some p)) (\<lambda>_ n. becomes w ?V
      (drop_lock (LCsBind b) (take_lock (LCsBind b) w\<lparr>gbinds := (gbinds w)(b := \<lparr>bind_ptr = None\<rparr>),
        native_of := n\<rparr>))) (native_of (take_lock (LCsBind b) w))"
    if p: "bind_ptr (gbinds w b) = Some p" for p
  proof -
    let ?u = "take_lock (LCsBind b) w"
    note nat = csdk_invD [OF inv, of "LCsBind b"]
    have "becomes ?u ?V (?u\<lparr>gbinds := (gbinds w)(b := \<lparr>bind_ptr = None\<rparr>), native_of := n\<rparr>)"
      if n: "native_ok n" "nview n = (nview (native_of ?u))\<lparr>v_binds := (v_binds (nview (native_of ?u)))(p := False)\<rparr>" for n
    proof -
      from arg_cong [OF n(2), of v_held] arg_cong [OF n(2), of v_stuck]
      have "held n = held (native_of ?u)" "stuck n = stuck (native_of ?u)" by simp_all
      with heap_bind_drop [OF nat(2), of b p] n p show ?thesis
        by (auto simp: becomes_def locks_def cview_def fun_eq_iff intro!: csdk_invI)
    qed
    then show ?thesis
      by (intro wp_mono [OF bind_close_spec [OF nat(1) live_bind_ptr [OF inv, of _ b]]])
        (auto simp: p intro: conn_unlock [OF ok])
  qed
  show ?thesis
    using lock_unlock(2) [OF ok]
    by (auto simp: csBind_Close_def wp_simps set_bind_def intro: idle closed)
qed

end
