(* ===== verification/Cube_Csdk_Run.thy ===== *)
theory Cube_Csdk_Run
  imports Cube_Csdk_Lifecycle
begin

text \<open>
  The private package as a component: its operations as data, runs of arbitrary operation sequences,
  and the properties that hold in every reachable state for every behaviour of the SDK.
\<close>

section \<open>Components\<close>

text \<open>Operations run one after another; their results are dropped.\<close>

definition run_ops :: "('op \<Rightarrow> ('s, 'r) state) \<Rightarrow> 'op list \<Rightarrow> 's \<Rightarrow> 's" where
  "run_ops step ops s = fold (\<lambda>op t. snd (run_state (step op) t)) ops s"

locale component =
  fixes init :: 's and step :: "'op \<Rightarrow> ('s, 'r) state" and inv :: "'s \<Rightarrow> bool"
  assumes init_inv: "inv init"
    and step_inv: "inv s \<Longrightarrow> wp (step op) (\<lambda>_. inv) s"
begin

lemma run_from: "inv s \<Longrightarrow> inv (run_ops step ops s)"
  by (induction ops arbitrary: s) (use step_inv in \<open>auto simp: run_ops_def wp_run\<close>)

lemma reachable_inv: "inv (run_ops step ops init)"
  by (rule run_from [OF init_inv])

end

section \<open>Operations\<close>

text \<open>The exported methods with their arguments; receivers may be nil or any address.\<close>

datatype cs_conn_op =
    CnClose | CnPing | CnExec string | CnSetDatabase string | CnBegin | CnCommit | CnRollback
  | CnChanges | CnAffectedRows | CnLastInsertID | CnQuery string | CnPrepare string
  | CnExecBind string "nat option"

datatype cs_bind_op =
    BdClose | BdSetInt64 int int | BdSetDouble int "64 word" | BdSetText int string
  | BdSetBlob int string | BdSetNull int | BdSetZeroBlob int int

datatype cs_rows_op =
    RwClose | RwNumRows | RwNumColumns | RwColumnType int | RwSeek int | RwField int int | RwColumnName int

datatype cs_stmt_op =
    StClose | StBindInt64 int int | StBindDouble int "64 word" | StBindText int string
  | StBindBlob int string | StBindNull int | StBindZeroBlob int int | StExec | StQuery

datatype cs_op =
    OpOpen cs_options
  | OpNewBind int
  | OnConn "nat option" cs_conn_op
  | OnBind "nat option" cs_bind_op
  | OnRows "nat option" cs_rows_op
  | OnStmt "nat option" cs_stmt_op

definition void :: "('s, 'a) state \<Rightarrow> ('s, unit) state" where
  "void m = do { _ \<leftarrow> m; State_Monad.return () }"

fun conn_step :: "sdk \<Rightarrow> nat option \<Rightarrow> cs_conn_op \<Rightarrow> (csdk, unit) state" where
  "conn_step S c CnClose = void (csConn_Close c)"
| "conn_step S c CnPing = void (csConn_Ping S c)"
| "conn_step S c (CnExec sql) = void (csConn_Exec S c sql)"
| "conn_step S c (CnSetDatabase name) = void (csConn_SetDatabase S c name)"
| "conn_step S c CnBegin = void (csConn_Begin S c)"
| "conn_step S c CnCommit = void (csConn_Commit S c)"
| "conn_step S c CnRollback = void (csConn_Rollback S c)"
| "conn_step S c CnChanges = void (csConn_Changes S c)"
| "conn_step S c CnAffectedRows = void (csConn_AffectedRows S c)"
| "conn_step S c CnLastInsertID = void (csConn_LastInsertID S c)"
| "conn_step S c (CnQuery sql) = void (csConn_Query S c sql)"
| "conn_step S c (CnPrepare sql) = void (csConn_Prepare S c sql)"
| "conn_step S c (CnExecBind sql b) = void (csConn_ExecBind S c sql b)"

fun bind_step :: "sdk \<Rightarrow> nat option \<Rightarrow> cs_bind_op \<Rightarrow> (csdk, unit) state" where
  "bind_step S b BdClose = void (csBind_Close b)"
| "bind_step S b (BdSetInt64 i v) = void (csBind_SetInt64 S b i v)"
| "bind_step S b (BdSetDouble i v) = void (csBind_SetDouble S b i v)"
| "bind_step S b (BdSetText i v) = void (csBind_SetText S b i v)"
| "bind_step S b (BdSetBlob i v) = void (csBind_SetBlob S b i v)"
| "bind_step S b (BdSetNull i) = void (csBind_SetNull S b i)"
| "bind_step S b (BdSetZeroBlob i n) = void (csBind_SetZeroBlob b i n)"

fun rows_step :: "sdk \<Rightarrow> nat option \<Rightarrow> cs_rows_op \<Rightarrow> (csdk, unit) state" where
  "rows_step S r RwClose = void (csRows_Close r)"
| "rows_step S r RwNumRows = void (csRows_NumRows S r)"
| "rows_step S r RwNumColumns = void (csRows_NumColumns S r)"
| "rows_step S r (RwColumnType c) = void (csRows_ColumnType S r c)"
| "rows_step S r (RwSeek n) = void (csRows_Seek S r n)"
| "rows_step S r (RwField n c) = void (csRows_Field S r n c)"
| "rows_step S r (RwColumnName c) = void (csRows_ColumnName S r c)"

fun stmt_step :: "sdk \<Rightarrow> nat option \<Rightarrow> cs_stmt_op \<Rightarrow> (csdk, unit) state" where
  "stmt_step S s StClose = void (csStmt_Close S s)"
| "stmt_step S s (StBindInt64 i v) = void (csStmt_BindInt64 S s i v)"
| "stmt_step S s (StBindDouble i v) = void (csStmt_BindDouble S s i v)"
| "stmt_step S s (StBindText i v) = void (csStmt_BindText S s i v)"
| "stmt_step S s (StBindBlob i v) = void (csStmt_BindBlob S s i v)"
| "stmt_step S s (StBindNull i) = void (csStmt_BindNull S s i)"
| "stmt_step S s (StBindZeroBlob i n) = void (csStmt_BindZeroBlob S s i n)"
| "stmt_step S s StExec = void (csStmt_Exec S s)"
| "stmt_step S s StQuery = void (csStmt_Query S s)"

fun cs_step :: "sdk \<Rightarrow> cs_op \<Rightarrow> (csdk, unit) state" where
  "cs_step S (OpOpen opts) = void (cs_Open S opts)"
| "cs_step S (OpNewBind n) = void (cs_NewBind S n)"
| "cs_step S (OnConn c op) = conn_step S c op"
| "cs_step S (OnBind b op) = bind_step S b op"
| "cs_step S (OnRows r op) = rows_step S r op"
| "cs_step S (OnStmt s op) = stmt_step S s op"

text \<open>Some effect on the view, nothing said about which.\<close>

definition keeps_inv :: "(csdk, 'r) state \<Rightarrow> bool" where
  "keeps_inv m \<longleftrightarrow> (\<forall>w. csdk_ok w \<longrightarrow> wp m (\<lambda>_ w'. \<exists>V. becomes w V w') w)"

lemma csdk_keepsI: "(\<And>w. csdk_ok w \<Longrightarrow> wp m (\<lambda>r w'. \<exists>V. becomes w V w') w) \<Longrightarrow> keeps_inv m"
  by (simp add: keeps_inv_def)

lemma quiet_keeps: "quiet_method m \<Longrightarrow> keeps_inv m"
  by (rule csdk_keepsI, erule (1) quiet_method.keeps_frame, blast)

lemma open_keeps: "keeps_inv (cs_Open S opts)"
  by (rule csdk_keepsI, rule wp_mono [OF cs_Open_spec]) (auto split: sum.splits)

lemma newbind_keeps: "keeps_inv (cs_NewBind S n)"
  by (rule csdk_keepsI, rule wp_mono [OF cs_NewBind_spec]) (auto split: sum.splits)

lemma close_keeps: "keeps_inv (csConn_Close c)"
proof (cases c)
  case None
  then show ?thesis by (simp add: csConn_Close_def quiet_keeps quiet_ok)
next
  case (Some a)
  have "wp (csConn_Close (Some a)) (\<lambda>r w'. \<exists>V. becomes w V w') w" if "csdk_ok w" for w
    by (rule wp_mono [OF csConn_Close_spec [OF that]]) (auto split: if_splits)
  with Some show ?thesis by (simp add: csdk_keepsI)
qed

lemma rows_close_keeps: "keeps_inv (csRows_Close r)"
proof (cases r)
  case None
  then show ?thesis by (simp add: csRows_Close_def quiet_keeps quiet_ok)
next
  case (Some a)
  have "wp (csRows_Close (Some a)) (\<lambda>r w'. \<exists>V. becomes w V w') w" if "csdk_ok w" for w
    by (rule wp_mono [OF csRows_Close_spec [OF that]]) auto
  with Some show ?thesis by (simp add: csdk_keepsI)
qed

lemma stmt_close_keeps: "keeps_inv (csStmt_Close S s)"
proof (cases s)
  case None
  then show ?thesis by (simp add: csStmt_Close_def quiet_keeps quiet_ok)
next
  case (Some a)
  have "wp (csStmt_Close S (Some a)) (\<lambda>r w'. \<exists>V. becomes w V w') w" if "csdk_ok w" for w
    by (rule wp_mono [OF csStmt_Close_spec [OF that]]) auto
  with Some show ?thesis by (simp add: csdk_keepsI)
qed

lemma bind_close_keeps: "keeps_inv (csBind_Close b)"
proof (cases b)
  case None
  then show ?thesis by (simp add: csBind_Close_def quiet_keeps quiet_ok)
next
  case (Some a)
  have "wp (csBind_Close (Some a)) (\<lambda>r w'. \<exists>V. becomes w V w') w" if "csdk_ok w" for w
    by (rule wp_mono [OF csBind_Close_spec [OF that]]) auto
  with Some show ?thesis by (simp add: csdk_keepsI)
qed

lemma query_keeps: "keeps_inv (csConn_Query S c sql)"
proof (cases c)
  case None
  then show ?thesis
    by (simp add: csConn_Query_def with_open_conn_def quiet_keeps quiet_throw quiet_if)
next
  case (Some a)
  have "wp (csConn_Query S (Some a) sql) (\<lambda>r w'. \<exists>V. becomes w V w') w" if "csdk_ok w" for w
    by (rule wp_mono [OF csConn_Query_spec [OF that]]) (auto split: sum.splits)
  with Some show ?thesis by (simp add: csdk_keepsI)
qed

lemma prepare_keeps: "keeps_inv (csConn_Prepare S c sql)"
proof (cases c)
  case None
  then show ?thesis
    by (simp add: csConn_Prepare_def with_open_conn_def quiet_keeps quiet_throw quiet_if)
next
  case (Some a)
  have "wp (csConn_Prepare S (Some a) sql) (\<lambda>r w'. \<exists>V. becomes w V w') w" if "csdk_ok w" for w
    by (rule wp_mono [OF csConn_Prepare_spec [OF that]]) (auto split: sum.splits)
  with Some show ?thesis by (simp add: csdk_keepsI)
qed

lemma stmt_query_keeps: "keeps_inv (csStmt_Query S s)"
proof (cases s)
  case None
  then show ?thesis by (simp add: csStmt_Query_def with_open_stmt_def quiet_keeps quiet_throw)
next
  case (Some a)
  have "wp (csStmt_Query S (Some a)) (\<lambda>r w'. \<exists>V. becomes w V w') w" if ok: "csdk_ok w" for w
  proof -
    obtain c where "kstmts (cview w) a = Some c \<or> kstmts (cview w) a = None" by auto
    from csStmt_Query_spec [OF ok this] show ?thesis
      by (rule wp_mono) (auto split: sum.splits)
  qed
  with Some show ?thesis by (simp add: csdk_keepsI)
qed

lemmas op_keeps = open_keeps newbind_keeps close_keeps rows_close_keeps stmt_close_keeps bind_close_keeps
  query_keeps prepare_keeps stmt_query_keeps
  quiet_methods [THEN quiet_keeps]

lemma void_keeps: "keeps_inv m \<Longrightarrow> keeps_inv (void m)"
  by (simp add: keeps_inv_def void_def wp_simps)

lemma conn_step_keeps: "keeps_inv (conn_step S c op)"
  by (cases op; simp only: conn_step.simps; rule void_keeps, rule op_keeps)

lemma bind_step_keeps: "keeps_inv (bind_step S b op)"
  by (cases op; simp only: bind_step.simps; rule void_keeps, rule op_keeps)

lemma rows_step_keeps: "keeps_inv (rows_step S r op)"
  by (cases op; simp only: rows_step.simps; rule void_keeps, rule op_keeps)

lemma stmt_step_keeps: "keeps_inv (stmt_step S s op)"
  by (cases op; simp only: stmt_step.simps; rule void_keeps, rule op_keeps)

lemma step_keeps: "keeps_inv (cs_step S op)"
  by (cases op; simp only: cs_step.simps; rule void_keeps op_keeps conn_step_keeps bind_step_keeps
      rows_step_keeps stmt_step_keeps, (rule op_keeps)?)

definition between_calls :: "csdk \<Rightarrow> bool" where
  "between_calls w \<longleftrightarrow> csdk_ok w \<and> locks w = ([], False)"

interpretation csdk_comp: component csdk_init "cs_step S" between_calls for S
proof
  show "between_calls csdk_init"
    by (simp add: between_calls_def csdk_init_ok) (simp add: locks_def csdk_init_def native_init_def)
next
  fix w op assume a: "between_calls w"
  then have "wp (cs_step S op) (\<lambda>_ w'. \<exists>V. becomes w V w') w"
    using step_keeps by (simp add: between_calls_def keeps_inv_def)
  then show "wp (cs_step S op) (\<lambda>_. between_calls) w"
    by (rule wp_mono) (use a becomes_ok in \<open>auto simp: between_calls_def becomes_def\<close>)
qed

section \<open>Properties of every run\<close>

abbreviation cs_run :: "sdk \<Rightarrow> cs_op list \<Rightarrow> csdk" where
  "cs_run S ops \<equiv> run_ops (cs_step S) ops csdk_init"

lemma run_ok: "csdk_ok (cs_run S ops)"
  using csdk_comp.reachable_inv by (simp add: between_calls_def)

lemma run_inv: "csdk_inv (cs_run S ops)"
  using run_ok by (simp add: csdk_ok_def)

lemma run_locks: "locks (cs_run S ops) = ([], False)"
  using csdk_comp.reachable_inv by (simp add: between_calls_def)

text \<open>C14: Memory safety of the cgo boundary. Whatever the SDK, the server and the allocator answer, and
  whatever sequence of methods a client calls on whatever receivers and arguments (nil, closed, or never
  opened objects, negative indices, NUL bytes), the bridge never touches a freed or unallocated struct,
  never hands the SDK a destroyed database, cursor or VM, never frees twice and never reads past a
  caller's buffer; no goroutine blocks on a mutex it already holds, and every mutex is released.\<close>

theorem csdk_safe:
  "\<not> fault (native_of (run_ops (cs_step S) ops csdk_init)) \<and>
   \<not> stuck (native_of (run_ops (cs_step S) ops csdk_init)) \<and>
   held (native_of (run_ops (cs_step S) ops csdk_init)) = []"
  using csdk_invD(1) [OF run_inv] run_locks by (simp add: native_ok_def locks_def)

text \<open>C15: No native resource leaks or is shared. In every reachable state a C connection, cursor,
  statement or bind graph is allocated exactly when one open Go object holds it, and never two; in
  particular when every Go object is closed no C struct, no SDK database, cursor or VM is left.\<close>

theorem csdk_no_leak:
  "let w = run_ops (cs_step S) ops csdk_init; n = native_of w in
   (c_conns n p \<noteq> None \<longleftrightarrow> (\<exists>!a. conn_ptr (gconns w a) = Some p)) \<and>
   (c_cursors n p \<noteq> None \<longleftrightarrow> (\<exists>!r. rows_ptr (grows w r) = Some p)) \<and>
   (c_stmts n p \<noteq> None \<longleftrightarrow> (\<exists>!s. stmt_ptr (gstmts w s) = Some p)) \<and>
   (c_binds n p \<noteq> None \<longleftrightarrow> (\<exists>!b. bind_ptr (gbinds w b) = Some p)) \<and>
   (dbs n h \<longleftrightarrow> (\<exists>!q. conn_db (c_conns n) q = Some h)) \<and>
   (cursors n h \<longleftrightarrow> (\<exists>!q. cur_handle (c_cursors n) q = Some h)) \<and>
   (vms n h \<noteq> None \<longleftrightarrow> (\<exists>!q. stmt_vm (c_stmts n) q = Some h))"
proof -
  have o: "L p \<longleftrightarrow> (\<exists>!a. f a = Some p)" if "owns f L" for f :: "nat \<Rightarrow> nat option" and L p
    using that unfolding owns_def by metis
  note h = heap_okD [OF csdk_invD(2) [OF run_inv [of S ops]]]
  note n = native_ok_owns [OF csdk_invD(1) [OF run_inv [of S ops]]]
  show ?thesis
    using o [OF h(1), of p] o [OF h(2), of p] o [OF h(3), of p] o [OF h(4), of p]
      o [OF n(1), of h] o [OF n(2), of h] o [OF n(3), of h]
    by (simp add: Let_def)
qed

text \<open>C24: A connection's \<^verbatim>\<open>children\<close> field is the number of its open cursors plus the number of its
  open statements, in every reachable state, and every open cursor or statement belongs to an open
  connection.\<close>

theorem csdk_children:
  "let w = run_ops (cs_step S) ops csdk_init in
   conn_children (gconns w a) =
     int (length (filter (\<lambda>r. rows_ptr (grows w r) \<noteq> None \<and> rows_conn (grows w r) = Some a) [0..<gnext w]))
     + int (length (filter (\<lambda>s. stmt_ptr (gstmts w s) \<noteq> None \<and> stmt_conn (gstmts w s) = Some a) [0..<gnext w])) \<and>
   {r. rows_ptr (grows w r) \<noteq> None} \<subseteq> {r. \<exists>c. rows_conn (grows w r) = Some c \<and> conn_ptr (gconns w c) \<noteq> None} \<and>
   {s. stmt_ptr (gstmts w s) \<noteq> None} \<subseteq> {s. \<exists>c. stmt_conn (gstmts w s) = Some c \<and> conn_ptr (gconns w c) \<noteq> None}"
proof -
  note h = csdk_invD(2) [OF run_inv [of S ops]]
  have "(\<lambda>r. open_rows R r = Some a) = (\<lambda>r. rows_ptr (R r) \<noteq> None \<and> rows_conn (R r) = Some a)"
    "(\<lambda>s. open_stmt T s = Some a) = (\<lambda>s. stmt_ptr (T s) \<noteq> None \<and> stmt_conn (T s) = Some a)" for R T
    by (auto simp: open_rows_def open_stmt_def fun_eq_iff)
  with heap_okD(7) [OF h, of a] rows_parent [OF h] stmt_parent [OF h] show ?thesis
    by (fastforce simp: Let_def child_count_def count_upto_def)
qed

text \<open>C25: Closing a connection in any reachable state fails with the busy error, and changes no open
  object, exactly when the connection is open and one of its cursors or statements is; in every other
  case it succeeds, the connection is closed afterwards, and no other object is affected.\<close>

theorem csdk_close_contract:
  "let w = run_ops (cs_step S) ops csdk_init; (r, w') = run_state (csConn_Close (Some a)) w in
   if kopen (cview w) a \<and> (\<exists>i. krows (cview w) i = Some a \<or> kstmts (cview w) i = Some a)
   then r = Inl CsBusy \<and> cview w' = cview w
   else r = Inr () \<and> cview w' = (cview w)\<lparr>kopen := (kopen (cview w))(a := False)\<rparr>"
  using csConn_Close_spec [OF run_ok [of S ops], of a]
  by (auto simp: Let_def wp_def kbusy_def becomes_def split: prod.splits if_splits)

end
