(* ===== verification/Cube_Options.thy ===== *)
theory Cube_Options
  imports Cube_Csdk
begin

text \<open>
  \<^verbatim>\<open>cubesql/options.go\<close>: the public connection options, their validation and their translation to the
  options of the private package.
\<close>

section \<open>Options\<close>

text \<open>
  \<^verbatim>\<open>type Encryption uint8\<close> with \<open>EncryptionClear = 0\<close> and \<open>EncryptionAES256 = 1\<close>. \<open>Timeout\<close> is a
  \<^verbatim>\<open>time.Duration\<close>, in nanoseconds.
\<close>

record options =
  Host :: string
  Port :: int
  Username :: string
  Password :: string
  Timeout :: int
  Encryption :: "8 word"

abbreviation (input) EncryptionClear :: "8 word" where "EncryptionClear \<equiv> 0"
abbreviation (input) EncryptionAES256 :: "8 word" where "EncryptionAES256 \<equiv> 1"
abbreviation (input) time_Second :: int where "time_Second \<equiv> 1000000000"

text \<open>\<^verbatim>\<open>seconds := options.Timeout / time.Second; if options.Timeout%time.Second != 0 { seconds++ }\<close>\<close>

definition whole_seconds :: "int \<Rightarrow> int" where
  "whole_seconds t = t div time_Second + (if t mod time_Second \<noteq> 0 then 1 else 0)"

definition options_native :: "options \<Rightarrow> gerror + cs_options" where
  "options_native o' =
     (if Username o' = [] \<or> has_nul (Host o') \<or> has_nul (Username o') \<or> has_nul (Password o')
      then Inl ErrInvalidArgument
      else if Timeout o' < 0 then Inl ErrInvalidArgument
      else if Port o' < 0 \<or> Port o' > 65535 then Inl ErrInvalidArgument
      else if Encryption o' \<noteq> EncryptionClear \<and> Encryption o' \<noteq> EncryptionAES256
      then Inl ErrInvalidArgument
      else (let seconds = whole_seconds (Timeout o')
            in if Timeout o' > 0 \<and> seconds > 2 ^ 31 - 1 then Inl ErrInvalidArgument
               else Inr \<lparr> cs_host = Host o', cs_port = Port o', cs_username = Username o',
                 cs_password = Password o', cs_timeout = (if Timeout o' > 0 then seconds else 0),
                 cs_encryption = (if Encryption o' = EncryptionAES256 then 4 else 0) \<rparr>))"

definition options_Validate :: "options \<Rightarrow> gerror option" where
  "options_Validate o' = (case options_native o' of Inl e \<Rightarrow> Some e | Inr _ \<Rightarrow> None)"

section \<open>Properties\<close>

lemma options_native_cases:
  "options_native o' = Inl ErrInvalidArgument \<or> (\<exists>n. options_native o' = Inr n)"
  by (simp add: options_native_def Let_def)

lemma whole_seconds:
  assumes "0 < t"
  shows "0 < whole_seconds t" "t \<le> whole_seconds t * time_Second" "(whole_seconds t - 1) * time_Second < t"
proof -
  define q m where "q = t div time_Second" and "m = t mod time_Second"
  have t: "t = q * time_Second + m" "0 \<le> m" "m < time_Second"
    by (simp_all add: q_def m_def)
  then show "t \<le> whole_seconds t * time_Second" "(whole_seconds t - 1) * time_Second < t"
    unfolding whole_seconds_def q_def [symmetric] m_def [symmetric] by auto
  from t assms have "0 \<le> q" by linarith
  with t assms show "0 < whole_seconds t"
    unfolding whole_seconds_def q_def [symmetric] m_def [symmetric] by auto
qed

text \<open>The connection requests of a history.\<close>

fun is_connect :: "event \<Rightarrow> bool" where
  "is_connect (EConnect _ _ _ _ _ _) = True"
| "is_connect _ = False"

definition connects :: "csdk \<Rightarrow> event list" where
  "connects w = filter is_connect (hist (native_of w))"

lemma cs_Open_connects:
  assumes "cs_username (open_defaults n) \<noteq> []" "0 \<le> cs_port (open_defaults n)" "0 \<le> cs_timeout (open_defaults n)"
    "cs_encryption (open_defaults n) \<in> {0, 4}"
  shows "connects (snd (run_state (cs_Open S n) w)) =
    (if r_ptr S (EAlloc # hist (native_of w)) then [EConnect (c_string (cs_host (open_defaults n))) (c_int (cs_port (open_defaults n)))
       (c_string (cs_username (open_defaults n))) (c_string (cs_password (open_defaults n)))
       (c_int (cs_timeout (open_defaults n))) (c_int (cs_encryption (open_defaults n)))] else []) @ connects w"
proof -
  have "wp (csqlgo_conn_open S host port user pw secs enc) (\<lambda>_ n'. filter is_connect (hist n') =
      (if r_ptr S (EAlloc # hist n) then [EConnect host port user pw secs enc] else []) @ filter is_connect (hist n)) n"
    for host port user pw secs enc n
    by (auto simp: csqlgo_conn_open_def malloc_ok_def log_call_def new_addr_def db_int_def db_call_def fail_ub_def
        csqlgo_copy_string_def sdk_disconnect_def wp_simps split: option.split)
  note conn = this
  have "wp (cs_Open S n) (\<lambda>_ v. connects v =
    (if r_ptr S (EAlloc # hist (native_of w)) then [EConnect (c_string (cs_host (open_defaults n))) (c_int (cs_port (open_defaults n)))
       (c_string (cs_username (open_defaults n))) (c_string (cs_password (open_defaults n)))
       (c_int (cs_timeout (open_defaults n))) (c_int (cs_encryption (open_defaults n)))] else []) @ connects w) w"
    using assms unfolding cs_Open_def Let_def csN_def
    by (auto simp: wp_simps wp_case cs_new_def set_conn_def connects_def intro!: wp_mono [OF conn] split: prod.split option.split)
  then show ?thesis by (simp add: wp_run)
qed

text \<open>C40: Accepted options reach the SDK unchanged. When \<^verbatim>\<open>native\<close> accepts options, opening a connection
  with its result makes exactly one \<^verbatim>\<open>cubesql_connect\<close> (none only when the allocation before it fails), with
  the requested host (or \<^verbatim>\<open>localhost\<close>), port (or 4430), user name and password, no text cut at a NUL byte,
  code 4 for AES256 and 0 for a clear connection, and a timeout in whole seconds that is the requested
  duration rounded up, never shorter (or the default of 12).\<close>

theorem options_lossless:
  assumes "options_native o' = Inr n"
  shows "\<exists>seconds. (if Timeout o' = 0 then seconds = 12
      else Timeout o' \<le> seconds * time_Second \<and> (seconds - 1) * time_Second < Timeout o') \<and>
    connects (snd (run_state (cs_Open S n) w)) =
      (if r_ptr S (EAlloc # hist (native_of w))
       then [EConnect (if Host o' = [] then ''localhost'' else Host o') (if Port o' = 0 then 4430 else Port o')
          (Username o') (Password o') seconds (if Encryption o' = EncryptionAES256 then 4 else 0)]
       else []) @ connects w"
proof -
  have a: "Username o' \<noteq> []" "\<not> has_nul (Host o')" "\<not> has_nul (Username o')" "\<not> has_nul (Password o')"
    "0 \<le> Timeout o'" "0 \<le> Port o'" "Port o' \<le> 65535"
    and e: "Encryption o' = EncryptionClear \<or> Encryption o' = EncryptionAES256"
    using assms by (auto simp: options_native_def Let_def split: if_splits)
  let ?s = "whole_seconds (Timeout o')" and ?d = "open_defaults n"
  have s: "Timeout o' = 0 \<or> ?s \<le> 2 ^ 31 - 1" and
    n: "n = \<lparr> cs_host = Host o', cs_port = Port o', cs_username = Username o', cs_password = Password o',
        cs_timeout = (if Timeout o' > 0 then ?s else 0),
        cs_encryption = (if Encryption o' = EncryptionAES256 then 4 else 0) \<rparr>"
    using assms a by (auto simp: options_native_def Let_def split: if_splits)
  have host: "\<not> has_nul ''localhost''" by code_simp
  have t: "if Timeout o' = 0 then cs_timeout ?d = 12 else Timeout o' \<le> cs_timeout ?d * time_Second \<and>
      (cs_timeout ?d - 1) * time_Second < Timeout o' \<and> 0 < cs_timeout ?d" "c_int (cs_timeout ?d) = cs_timeout ?d"
    using a whole_seconds [of "Timeout o'"] s by (auto simp: open_defaults_def n Let_def c_int_id)
  have d: "cs_username ?d = Username o'" "cs_password ?d = Password o'" "0 \<le> cs_timeout ?d"
      "cs_encryption ?d = (if Encryption o' = EncryptionAES256 then 4 else 0)"
      "cs_port ?d = (if Port o' = 0 then 4430 else Port o')" "cs_host ?d = (if Host o' = [] then ''localhost'' else Host o')"
    using t a by (auto simp: open_defaults_def n Let_def split: if_splits)
  have "connects (snd (run_state (cs_Open S n) w)) = (if r_ptr S (EAlloc # hist (native_of w)) then
      [EConnect (c_string (cs_host ?d)) (c_int (cs_port ?d)) (c_string (cs_username ?d)) (c_string (cs_password ?d))
       (c_int (cs_timeout ?d)) (c_int (cs_encryption ?d))] else []) @ connects w"
    by (rule cs_Open_connects) (use d a e in auto)
  with t d a host show ?thesis
    by (intro exI [of _ "cs_timeout ?d"]) (auto simp: c_int_id)
qed

text \<open>An SDK that accepts every call, and the options of the witness.\<close>

definition agreeable_sdk :: sdk where
  "agreeable_sdk = \<lparr> r_int = (\<lambda>_. 0), r_int64 = (\<lambda>_. 1), r_ptr = (\<lambda>_. True), r_text = (\<lambda>_. []),
     r_field = (\<lambda>_. Inr ''x''), fmt_g17 = (\<lambda>_. ''0.5'') \<rparr>"

theorem options_lossless_witness:
  "\<exists>seconds. 1500000000 \<le> seconds * time_Second \<and> (seconds - 1) * time_Second < 1500000000 \<and>
    connects (snd (run_state (cs_Open agreeable_sdk \<lparr> cs_host = ''db'', cs_port = 0, cs_username = ''u'', cs_password = [],
       cs_timeout = 2, cs_encryption = 4 \<rparr>) csdk_init)) = [EConnect ''db'' 4430 ''u'' [] seconds 4]"
proof -
  have "options_native \<lparr> Host = ''db'', Port = 0, Username = ''u'', Password = [], Timeout = 1500000000,
      Encryption = EncryptionAES256 \<rparr> = Inr \<lparr> cs_host = ''db'', cs_port = 0, cs_username = ''u'',
      cs_password = [], cs_timeout = 2, cs_encryption = 4 \<rparr>"
    by code_simp
  from options_lossless [OF this, of agreeable_sdk csdk_init] show ?thesis
    by (simp add: agreeable_sdk_def connects_def csdk_init_def native_init_def)
qed

end
