(* ===== verification/Cube_Core.thy ===== *)
theory Cube_Core
  imports Cube_Options Cube_Csdk_Handles
begin

text \<open>
  The public package \<^verbatim>\<open>cubesql\<close>: its objects, contexts, parameter binding (\<^verbatim>\<open>bind.go\<close>,
  \<^verbatim>\<open>context.go\<close>, \<^verbatim>\<open>result.go\<close>) and the helpers its methods share. Methods are in \<^verbatim>\<open>Cube_Conn\<close>
  (connections and transactions), \<^verbatim>\<open>Cube_Rows\<close> and \<^verbatim>\<open>Cube_Stmt\<close>.
\<close>

section \<open>Values\<close>

text \<open>
  A Go \<^verbatim>\<open>any\<close>, by its dynamic type. \<open>ABytes None\<close> is a nil slice, \<open>AZeroBlob\<close> the package's
  \<^verbatim>\<open>ZeroBlob\<close>. The constructors from \<open>ABool\<close> on are types only the \<^verbatim>\<open>database/sql\<close> conversion looks
  into: other signed integer kinds, the unsigned ones (\<open>AUint64Kind\<close> those of kind \<^verbatim>\<open>uint64\<close>), a pointer (\<open>None\<close> nil), a named byte slice or string
  type, a \<^verbatim>\<open>driver.Valuer\<close> with what its method returns, and everything else.
\<close>

datatype any =
    ANil
  | AInt64 int
  | AFloat64 "64 word"
  | AString string
  | ABytes "string option"
  | AZeroBlob int
  | ABool bool
  | ATime int
  | ADecimal nat
  | AIntKind int
  | AUintKind int
  | AUint64Kind int
  | AFloatKind "64 word"
  | ABoolKind bool
  | ABytesKind "string option"
  | AStringKind string
  | APointer "any option"
  | AValuer "gerror + any"
  | AOther nat

text \<open>\<^verbatim>\<open>len(value)\<close> and the bytes of a slice\<close>

definition slice_bytes :: "string option \<Rightarrow> string" where
  "slice_bytes b = (case b of None \<Rightarrow> [] | Some s \<Rightarrow> s)"

section \<open>State\<close>

record conn =
  conn_native :: "nat option"
  txActive :: bool
  children :: int

record rows =
  rows_native :: "nat option"
  parentConn :: "nat option"
  parentStmt :: "nat option"
  closeStmt :: bool
  columns :: "string list"
  types :: "8 word list"
  total :: int
  current :: int
  rows_err :: "gerror option"

record stmt =
  stmt_parent :: "nat option"
  stmt_native :: "nat option"
  queryText :: string
  stmt_rows :: int
  registered :: bool

record tx =
  tx_conn :: "nat option"
  tx_done :: bool

record core =
  csdk_of :: csdk
  conns :: "nat \<Rightarrow> conn"
  rowss :: "nat \<Rightarrow> rows"
  stmts :: "nat \<Rightarrow> stmt"
  txs :: "nat \<Rightarrow> tx"
  co_next :: nat

definition zero_rows :: rows where
  "zero_rows = \<lparr> rows_native = None, parentConn = None, parentStmt = None, closeStmt = False,
     columns = [], types = [], total = 0, current = 0, rows_err = None \<rparr>"

definition core_init :: core where
  "core_init = \<lparr> csdk_of = csdk_init,
     conns = (\<lambda>_. \<lparr>conn_native = None, txActive = False, children = 0\<rparr>),
     rowss = (\<lambda>_. zero_rows),
     stmts = (\<lambda>_. \<lparr>stmt_parent = None, stmt_native = None, queryText = [], stmt_rows = 0, registered = False\<rparr>),
     txs = (\<lambda>_. \<lparr>tx_conn = None, tx_done = False\<rparr>), co_next = 0 \<rparr>"

text \<open>A call into the private package; the public error for its result.\<close>

definition coC :: "(csdk, 'a) state \<Rightarrow> (core, 'a) state" where
  "coC m = zoom csdk_of csdk_of_update m"

definition coE :: "(csdk, gerror + 'a) state \<Rightarrow> (core, gerror + 'a) state" where
  "coE m = mapE publicError (coC m)"

definition co_locked :: "lock \<Rightarrow> (core, 'a) state \<Rightarrow> (core, 'a) state" where
  "co_locked l body =
     do { _ \<leftarrow> coC (csN (acquire l)); r \<leftarrow> body; _ \<leftarrow> coC (csN (release l)); State_Monad.return r }"

definition co_new :: "(core, nat) state" where
  "co_new = do { p \<leftarrow> gets co_next; _ \<leftarrow> modify (\<lambda>w. w\<lparr>co_next := Suc p\<rparr>); State_Monad.return p }"

definition upd_conn :: "nat \<Rightarrow> (conn \<Rightarrow> conn) \<Rightarrow> (core, unit) state" where
  "upd_conn c f = modify (\<lambda>w. w\<lparr>conns := (conns w)(c := f (conns w c))\<rparr>)"

definition upd_rows :: "nat \<Rightarrow> (rows \<Rightarrow> rows) \<Rightarrow> (core, unit) state" where
  "upd_rows r f = modify (\<lambda>w. w\<lparr>rowss := (rowss w)(r := f (rowss w r))\<rparr>)"

definition upd_stmt :: "nat \<Rightarrow> (stmt \<Rightarrow> stmt) \<Rightarrow> (core, unit) state" where
  "upd_stmt s f = modify (\<lambda>w. w\<lparr>stmts := (stmts w)(s := f (stmts w s))\<rparr>)"

definition upd_tx :: "nat \<Rightarrow> (tx \<Rightarrow> tx) \<Rightarrow> (core, unit) state" where
  "upd_tx t f = modify (\<lambda>w. w\<lparr>txs := (txs w)(t := f (txs w t))\<rparr>)"

section \<open>Contexts\<close>

text \<open>
  A \<^verbatim>\<open>context.Context\<close>: a nil interface, one that is never cancelled, or one that is cancelled with
  the given \<^verbatim>\<open>ctx.Err()\<close> when the clock reaches the given time. The clock advances with every check
  and every server call, so a cancellation can fall between any two of them.
\<close>

datatype ctx = NilCtx | Background | CancelAt nat gerror

definition co_clock :: "core \<Rightarrow> nat" where
  "co_clock w = clock (native_of (csdk_of w))"

definition tick_clock :: "(core, nat) state" where
  "tick_clock = do {
     t \<leftarrow> gets co_clock;
     _ \<leftarrow> coC (csN (modify (\<lambda>n. n\<lparr>clock := Suc (clock n)\<rparr>)));
     State_Monad.return t
   }"

definition contextError :: "ctx \<Rightarrow> (core, gerror + unit) state" where
  "contextError ctx =
     (case ctx of
        NilCtx \<Rightarrow> throw ErrInvalidArgument
      | Background \<Rightarrow> do { _ \<leftarrow> tick_clock; ok () }
      | CancelAt n err \<Rightarrow> do { t \<leftarrow> tick_clock; (if n \<le> t then throw err else ok ()) })"

section \<open>Parameters\<close>

text \<open>\<^verbatim>\<open>func setOneShot(bind *csdk.Bind, index int, value any) error\<close>\<close>

definition setOneShot :: "sdk \<Rightarrow> nat option \<Rightarrow> int \<Rightarrow> any \<Rightarrow> (core, gerror + unit) state" where
  "setOneShot S bnd index v =
     (case v of
        ANil \<Rightarrow> coE (csBind_SetNull S bnd index)
      | AInt64 i \<Rightarrow> coE (csBind_SetInt64 S bnd index i)
      | AFloat64 x \<Rightarrow> coE (csBind_SetDouble S bnd index x)
      | AString s \<Rightarrow> coE (csBind_SetText S bnd index s)
      | ABytes b \<Rightarrow> coE (csBind_SetBlob S bnd index (slice_bytes b))
      | AZeroBlob size' \<Rightarrow> coE (csBind_SetZeroBlob bnd index size')
      | _ \<Rightarrow> throw ErrInvalidArgument)"

text \<open>\<^verbatim>\<open>func setPrepared(stmt *csdk.Stmt, index int, value any) error\<close>\<close>

definition setPrepared :: "sdk \<Rightarrow> nat option \<Rightarrow> int \<Rightarrow> any \<Rightarrow> (core, gerror + unit) state" where
  "setPrepared S stmt index v =
     (case v of
        ANil \<Rightarrow> coE (csStmt_BindNull S stmt index)
      | AInt64 i \<Rightarrow> coE (csStmt_BindInt64 S stmt index i)
      | AFloat64 x \<Rightarrow>
          (if is_nan x \<or> is_inf x then throw ErrInvalidArgument
           else coE (csStmt_BindDouble S stmt index x))
      | AString s \<Rightarrow> coE (csStmt_BindText S stmt index s)
      | ABytes b \<Rightarrow>
          (if slice_bytes b = [] then coE (csStmt_BindZeroBlob S stmt index 0)
           else coE (csStmt_BindBlob S stmt index (slice_bytes b)))
      | AZeroBlob size' \<Rightarrow> coE (csStmt_BindZeroBlob S stmt index size')
      | _ \<Rightarrow> throw ErrInvalidArgument)"

text \<open>\<^verbatim>\<open>func hasEmptyBlob(args []any) bool\<close>\<close>

definition hasEmptyBlob :: "any list \<Rightarrow> bool" where
  "hasEmptyBlob args = list_ex (\<lambda>a. case a of ABytes b \<Rightarrow> slice_bytes b = [] | _ \<Rightarrow> False) args"

section \<open>Results\<close>

record result =
  rowsAffected :: int
  rowsError :: "gerror option"
  lastInsertID :: int
  lastError :: "gerror option"

definition Result_RowsAffected :: "result \<Rightarrow> int \<times> gerror option" where
  "Result_RowsAffected r = (rowsAffected r, rowsError r)"

definition Result_LastInsertID :: "result \<Rightarrow> int \<times> gerror option" where
  "Result_LastInsertID r = (lastInsertID r, lastError r)"

text \<open>A \<^verbatim>\<open>(int64, error)\<close> pair; a failed metric reports the value 0.\<close>

definition value_of :: "gerror + int \<Rightarrow> int" where
  "value_of r = (case r of Inl _ \<Rightarrow> 0 | Inr v \<Rightarrow> v)"

definition error_of :: "gerror + 'a \<Rightarrow> gerror option" where
  "error_of r = (case r of Inl e \<Rightarrow> Some e | Inr _ \<Rightarrow> None)"

text \<open>\<^verbatim>\<open>func resultForContext(ctx context.Context, native *csdk.Conn) Result\<close>\<close>

definition resultForContext :: "sdk \<Rightarrow> ctx \<Rightarrow> nat option \<Rightarrow> (core, result) state" where
  "resultForContext S ctx native = do {
     c1 \<leftarrow> contextError ctx;
     (case c1 of
        Inl err \<Rightarrow> State_Monad.return \<lparr>rowsAffected = 0, rowsError = Some err,
                      lastInsertID = 0, lastError = Some err\<rparr>
      | Inr _ \<Rightarrow> do {
          ra \<leftarrow> coE (csConn_AffectedRows S native);
          c2 \<leftarrow> contextError ctx;
          (case c2 of
             Inl err \<Rightarrow> State_Monad.return \<lparr>rowsAffected = value_of ra, rowsError = error_of ra,
                           lastInsertID = 0, lastError = Some err\<rparr>
           | Inr _ \<Rightarrow> do {
               li \<leftarrow> coE (csConn_LastInsertID S native);
               State_Monad.return \<lparr>rowsAffected = value_of ra, rowsError = error_of ra,
                 lastInsertID = value_of li, lastError = error_of li\<rparr> })
        })
   }"

definition resultFor :: "sdk \<Rightarrow> nat option \<Rightarrow> (core, result) state" where
  "resultFor S native = resultForContext S Background native"

end
