(* ===== verification/Cube_Rows.thy ===== *)
theory Cube_Rows
  imports Cube_Core
begin

text \<open>
  Result sets, \<^verbatim>\<open>cubesql/rows.go\<close>, and the two release helpers a result set calls when it is closed
  (\<^verbatim>\<open>releaseChild\<close> of \<^verbatim>\<open>cubesql/conn.go\<close> and \<^verbatim>\<open>releaseRow\<close> of \<^verbatim>\<open>cubesql/stmt.go\<close>).
\<close>

section \<open>Releasing parents\<close>

text \<open>\<^verbatim>\<open>func (conn *Conn) releaseChild()\<close>\<close>

definition releaseChild :: "nat option \<Rightarrow> (core, unit) state" where
  "releaseChild c =
     (case c of
        None \<Rightarrow> State_Monad.return ()
      | Some c \<Rightarrow> co_locked (LConn c)
          (upd_conn c (\<lambda>x. if children x > 0 then x\<lparr>children := children x - 1\<rparr> else x)))"

text \<open>\<^verbatim>\<open>func (stmt *Stmt) releaseRow(closeStatement bool) error\<close>\<close>

definition releaseRow :: "sdk \<Rightarrow> nat \<Rightarrow> bool \<Rightarrow> (core, gerror + unit) state" where
  "releaseRow S s closeStatement = co_locked (LStmt s) (do {
     _ \<leftarrow> upd_stmt s (\<lambda>x. if stmt_rows x > 0 then x\<lparr>stmt_rows := stmt_rows x - 1\<rparr> else x);
     st \<leftarrow> gets (\<lambda>w. stmts w s);
     (if \<not> closeStatement \<or> stmt_native st = None then ok ()
      else if stmt_rows st \<noteq> 0 then throw ErrBusy
      else do {
        _ \<leftarrow> upd_stmt s (\<lambda>x. x\<lparr>stmt_native := None\<rparr>);
        err \<leftarrow> coE (csStmt_Close S (stmt_native st));
        _ \<leftarrow> (if registered st
             then do { _ \<leftarrow> upd_stmt s (\<lambda>x. x\<lparr>registered := False\<rparr>); releaseChild (stmt_parent st) }
             else State_Monad.return ());
        State_Monad.return err })
   })"

section \<open>Column types and values\<close>

abbreviation (input) TypeNone :: "8 word" where "TypeNone \<equiv> 0"
abbreviation (input) TypeInteger :: "8 word" where "TypeInteger \<equiv> 1"
abbreviation (input) TypeFloat :: "8 word" where "TypeFloat \<equiv> 2"
abbreviation (input) TypeText :: "8 word" where "TypeText \<equiv> 3"
abbreviation (input) TypeBlob :: "8 word" where "TypeBlob \<equiv> 4"
abbreviation (input) TypeBoolean :: "8 word" where "TypeBoolean \<equiv> 5"
abbreviation (input) TypeDate :: "8 word" where "TypeDate \<equiv> 6"
abbreviation (input) TypeTime :: "8 word" where "TypeTime \<equiv> 7"
abbreviation (input) TypeTimestamp :: "8 word" where "TypeTimestamp \<equiv> 8"
abbreviation (input) TypeCurrency :: "8 word" where "TypeCurrency \<equiv> 9"

record val =
  val_Type :: "8 word"
  val_Raw :: "string option"
  val_Null :: bool

text \<open>\<^verbatim>\<open>append([]byte(nil), raw...)\<close>: appending nothing to a nil slice leaves it nil.\<close>

definition copy_slice :: "string option \<Rightarrow> string option" where
  "copy_slice b = (if slice_bytes b = [] then None else b)"

text \<open>
  \<^verbatim>\<open>func valueInterface(value Value) (any, error)\<close>; \<open>pf\<close> is \<^verbatim>\<open>strconv.ParseFloat(s, 64)\<close>, as the bits
  of the result.
\<close>

definition valueInterface :: "(string \<Rightarrow> 64 word option) \<Rightarrow> val \<Rightarrow> gerror + any" where
  "valueInterface pf v =
     (let raw = slice_bytes (val_Raw v) in
      if val_Type v = TypeInteger \<or> val_Type v = TypeBoolean then
        (case parse_int64 raw of None \<Rightarrow> Inl ErrScan | Some i \<Rightarrow> Inr (AInt64 i))
      else if val_Type v = TypeFloat \<or> val_Type v = TypeCurrency then
        (case pf raw of None \<Rightarrow> Inl ErrScan | Some x \<Rightarrow> Inr (AFloat64 x))
      else if val_Type v = TypeBlob then Inr (ABytes (copy_slice (val_Raw v)))
      else Inr (AString raw))"

text \<open>
  A scan destination: a pointer to one of the types \<^verbatim>\<open>scanValue\<close> knows, with what it points to
  (the \<^verbatim>\<open>Null...\<close> structs as value and \<^verbatim>\<open>Valid\<close>), a nil interface, or any other type.
\<close>

datatype dest =
    DNil
  | DAny any
  | DInt64 int
  | DFloat64 "64 word"
  | DString string
  | DBytes "string option"
  | DNullInt64 int bool
  | DNullFloat64 "64 word" bool
  | DNullString string bool
  | DNullBytes "string option" bool
  | DValue val
  | DOther nat

text \<open>\<^verbatim>\<open>func scanValue(value Value, destination any) error\<close>, returning the destination afterwards\<close>

definition scanValue :: "(string \<Rightarrow> 64 word option) \<Rightarrow> val \<Rightarrow> dest \<Rightarrow> gerror + dest" where
  "scanValue pf v d =
     (let raw = slice_bytes (val_Raw v) in
      if d = DNil then Inl ErrScan
      else if val_Null v then
        (case d of
           DAny _ \<Rightarrow> Inr (DAny ANil)
         | DBytes _ \<Rightarrow> Inr (DBytes None)
         | DNullInt64 _ _ \<Rightarrow> Inr (DNullInt64 0 False)
         | DNullFloat64 _ _ \<Rightarrow> Inr (DNullFloat64 0 False)
         | DNullString _ _ \<Rightarrow> Inr (DNullString [] False)
         | DNullBytes _ _ \<Rightarrow> Inr (DNullBytes None False)
         | DValue _ \<Rightarrow> Inr (DValue v)
         | _ \<Rightarrow> Inl ErrScan)
      else
        (case d of
           DAny _ \<Rightarrow> (case valueInterface pf v of Inl e \<Rightarrow> Inl e | Inr a \<Rightarrow> Inr (DAny a))
         | DInt64 _ \<Rightarrow> (case parse_int64 raw of None \<Rightarrow> Inl ErrScan | Some i \<Rightarrow> Inr (DInt64 i))
         | DFloat64 _ \<Rightarrow> (case pf raw of None \<Rightarrow> Inl ErrScan | Some x \<Rightarrow> Inr (DFloat64 x))
         | DString _ \<Rightarrow> Inr (DString raw)
         | DBytes old \<Rightarrow> Inr (DBytes (case old of None \<Rightarrow> copy_slice (val_Raw v) | Some _ \<Rightarrow> Some raw))
         | DNullInt64 _ _ \<Rightarrow>
             (case parse_int64 raw of None \<Rightarrow> Inl ErrScan | Some i \<Rightarrow> Inr (DNullInt64 i True))
         | DNullFloat64 _ _ \<Rightarrow>
             (case pf raw of None \<Rightarrow> Inl ErrScan | Some x \<Rightarrow> Inr (DNullFloat64 x True))
         | DNullString _ _ \<Rightarrow> Inr (DNullString raw True)
         | DNullBytes _ _ \<Rightarrow> Inr (DNullBytes (copy_slice (val_Raw v)) True)
         | DValue _ \<Rightarrow> Inr (DValue (v\<lparr>val_Raw := copy_slice (val_Raw v)\<rparr>))
         | _ \<Rightarrow> Inl ErrScan))"

section \<open>Opening and closing a result set\<close>

text \<open>\<^verbatim>\<open>func (rows *Rows) Close() error\<close>\<close>

definition Rows_Close :: "sdk \<Rightarrow> nat option \<Rightarrow> (core, gerror + unit) state" where
  "Rows_Close S rows =
     (case rows of
        None \<Rightarrow> ok ()
      | Some r \<Rightarrow> co_locked (LRows r) (do {
          x \<leftarrow> gets (\<lambda>w. rowss w r);
          (if rows_native x = None then ok ()
           else do {
             _ \<leftarrow> upd_rows r (\<lambda>y. y\<lparr>rows_native := None, parentConn := None, parentStmt := None,
                    closeStmt := False\<rparr>);
             nativeError \<leftarrow> coE (csRows_Close (rows_native x));
             _ \<leftarrow> releaseChild (parentConn x);
             statementError \<leftarrow> (case parentStmt x of
                 None \<Rightarrow> ok ()
               | Some s \<Rightarrow> releaseRow S s (closeStmt x));
             (case join_errors (error_of nativeError) (error_of statementError) of
                None \<Rightarrow> ok () | Some e \<Rightarrow> throw e) }) }))"

text \<open>One turn of the loop of \<^verbatim>\<open>newRowsContext\<close>: name and type of column \<open>index\<close>.\<close>

definition read_column :: "sdk \<Rightarrow> ctx \<Rightarrow> nat option \<Rightarrow> nat \<Rightarrow> int \<Rightarrow> (core, gerror + unit) state" where
  "read_column S ctx native r index =
     (let close_and = (\<lambda>e. do { _ \<leftarrow> Rows_Close S (Some r); throw e }) in
      catchE (contextError ctx) close_and (\<lambda>_.
      catchE (coE (csRows_ColumnName S native index)) close_and (\<lambda>name.
      catchE (contextError ctx) close_and (\<lambda>_.
      catchE (coE (csRows_ColumnType S native index)) close_and (\<lambda>columnType. do {
        _ \<leftarrow> upd_rows r (\<lambda>y. y\<lparr>columns := (columns y)[nat (index - 1) := name],
               types := (types y)[nat (index - 1) := word_of_int columnType]\<rparr>);
        ok () })))))"

text \<open>\<^verbatim>\<open>func newRowsContext(ctx context.Context, native *csdk.Rows) (*Rows, error)\<close>\<close>

definition newRowsContext :: "sdk \<Rightarrow> ctx \<Rightarrow> nat option \<Rightarrow> (core, gerror + nat) state" where
  "newRowsContext S ctx native =
     (let close_and = (\<lambda>e. do { _ \<leftarrow> coC (csRows_Close native); throw e }) in
      catchE (contextError ctx) close_and (\<lambda>_.
      catchE (coE (csRows_NumRows S native)) close_and (\<lambda>total'.
      catchE (contextError ctx) close_and (\<lambda>_.
      catchE (coE (csRows_NumColumns S native)) close_and (\<lambda>count. do {
        r \<leftarrow> co_new;
        _ \<leftarrow> upd_rows r (\<lambda>_. zero_rows\<lparr>rows_native := native, columns := replicate (nat count) [],
               types := replicate (nat count) 0, total := total'\<rparr>);
        tryE (eachE (\<lambda>_ index. read_column S ctx native r index) 0 [1..count]) (\<lambda>_. ok r) })))))"

definition newRows :: "sdk \<Rightarrow> nat option \<Rightarrow> (core, gerror + nat) state" where
  "newRows S native = newRowsContext S Background native"

section \<open>Accessors\<close>

definition Rows_Columns :: "nat option \<Rightarrow> (core, string list) state" where
  "Rows_Columns rows = (case rows of None \<Rightarrow> State_Monad.return []
     | Some r \<Rightarrow> co_locked (LRows r) (gets (\<lambda>w. columns (rowss w r))))"

definition Rows_ColumnTypes :: "nat option \<Rightarrow> (core, 8 word list) state" where
  "Rows_ColumnTypes rows = (case rows of None \<Rightarrow> State_Monad.return []
     | Some r \<Rightarrow> co_locked (LRows r) (gets (\<lambda>w. types (rowss w r))))"

definition Rows_NumRows :: "nat option \<Rightarrow> (core, int) state" where
  "Rows_NumRows rows = (case rows of None \<Rightarrow> State_Monad.return 0
     | Some r \<Rightarrow> co_locked (LRows r) (gets (\<lambda>w. total (rowss w r))))"

definition Rows_Err :: "nat option \<Rightarrow> (core, gerror option) state" where
  "Rows_Err rows = (case rows of None \<Rightarrow> State_Monad.return (Some ErrClosed)
     | Some r \<Rightarrow> co_locked (LRows r) (gets (\<lambda>w. rows_err (rowss w r))))"

section \<open>Moving and reading\<close>

definition Rows_NextContext :: "sdk \<Rightarrow> ctx \<Rightarrow> nat option \<Rightarrow> (core, bool) state" where
  "Rows_NextContext S ctx rows =
     (case rows of
        None \<Rightarrow> State_Monad.return False
      | Some r \<Rightarrow> co_locked (LRows r) (do {
          c \<leftarrow> contextError ctx;
          (case c of
             Inl err \<Rightarrow> do { _ \<leftarrow> upd_rows r (\<lambda>y. y\<lparr>rows_err := Some err\<rparr>); State_Monad.return False }
           | Inr _ \<Rightarrow> do {
               x \<leftarrow> gets (\<lambda>w. rowss w r);
               (if rows_native x = None then do {
                  _ \<leftarrow> (if rows_err x = None then upd_rows r (\<lambda>y. y\<lparr>rows_err := Some ErrClosed\<rparr>)
                       else State_Monad.return ());
                  State_Monad.return False }
                else if rows_err x \<noteq> None \<or> current x \<ge> total x then State_Monad.return False
                else do {
                  let row = current x + 1;
                  res \<leftarrow> coE (csRows_Seek S (rows_native x) row);
                  (case res of
                     Inl err \<Rightarrow> do { _ \<leftarrow> upd_rows r (\<lambda>y. y\<lparr>rows_err := Some err\<rparr>); State_Monad.return False }
                   | Inr _ \<Rightarrow> do { _ \<leftarrow> upd_rows r (\<lambda>y. y\<lparr>current := row\<rparr>); State_Monad.return True }) })
             }) }))"

definition Rows_Next :: "sdk \<Rightarrow> nat option \<Rightarrow> (core, bool) state" where
  "Rows_Next S rows = Rows_NextContext S Background rows"

definition Rows_SeekContext :: "sdk \<Rightarrow> ctx \<Rightarrow> nat option \<Rightarrow> int \<Rightarrow> (core, gerror + unit) state" where
  "Rows_SeekContext S ctx rows row =
     tryE (contextError ctx) (\<lambda>_.
     if row \<le> 0 then throw ErrInvalidArgument
     else (case rows of
        None \<Rightarrow> throw ErrClosed
      | Some r \<Rightarrow> co_locked (LRows r) (do {
          x \<leftarrow> gets (\<lambda>w. rowss w r);
          (if rows_native x = None then throw ErrClosed
           else
             tryE (contextError ctx) (\<lambda>_.
             tryE (coE (csRows_Seek S (rows_native x) row)) (\<lambda>_. do {
               _ \<leftarrow> upd_rows r (\<lambda>y. y\<lparr>current := row, rows_err := None\<rparr>);
               ok () }))) })))"

definition valueLocked :: "sdk \<Rightarrow> ctx \<Rightarrow> nat \<Rightarrow> int \<Rightarrow> (core, gerror + val) state" where
  "valueLocked S ctx r column = do {
     x \<leftarrow> gets (\<lambda>w. rowss w r);
     (if rows_native x = None then throw ErrClosed
      else if current x \<le> 0 \<or> current x > total x \<or> column \<le> 0 \<or> column > int (length (columns x))
      then throw ErrInvalidArgument
      else
        tryE (contextError ctx) (\<lambda>_.
        tryE (coE (csRows_Field S (rows_native x) (current x) column)) (\<lambda>(raw, isNull).
          ok \<lparr>val_Type = types x ! nat (column - 1), val_Raw = raw, val_Null = isNull\<rparr>)))
   }"

definition Rows_ValueContext :: "sdk \<Rightarrow> ctx \<Rightarrow> nat option \<Rightarrow> int \<Rightarrow> (core, gerror + val) state" where
  "Rows_ValueContext S ctx rows column =
     tryE (contextError ctx) (\<lambda>_.
     (case rows of
        None \<Rightarrow> throw ErrClosed
      | Some r \<Rightarrow> co_locked (LRows r) (valueLocked S ctx r column)))"

definition Rows_Value :: "sdk \<Rightarrow> nat option \<Rightarrow> int \<Rightarrow> (core, gerror + val) state" where
  "Rows_Value S rows column = Rows_ValueContext S Background rows column"

text \<open>
  The loop of \<^verbatim>\<open>ScanContext\<close>. The result is the error, if any, and all destinations afterwards: those
  before a failing column have been written.
\<close>

fun scan_columns ::
  "sdk \<Rightarrow> (string \<Rightarrow> 64 word option) \<Rightarrow> ctx \<Rightarrow> nat \<Rightarrow> int \<Rightarrow> dest list \<Rightarrow> (core, gerror option \<times> dest list) state"
  where
  "scan_columns S pf ctx r column [] = State_Monad.return (None, [])"
| "scan_columns S pf ctx r column (d # ds) = do {
     c \<leftarrow> contextError ctx;
     (case c of
        Inl e \<Rightarrow> State_Monad.return (Some e, d # ds)
      | Inr _ \<Rightarrow> do {
          v \<leftarrow> valueLocked S ctx r column;
          (case v of
             Inl e \<Rightarrow> State_Monad.return (Some e, d # ds)
           | Inr v \<Rightarrow>
               (case scanValue pf v d of
                  Inl e \<Rightarrow> State_Monad.return (Some e, d # ds)
                | Inr d' \<Rightarrow> do {
                    rest \<leftarrow> scan_columns S pf ctx r (column + 1) ds;
                    State_Monad.return (fst rest, d' # snd rest) })) })
   }"

definition Rows_ScanContext ::
  "sdk \<Rightarrow> (string \<Rightarrow> 64 word option) \<Rightarrow> ctx \<Rightarrow> nat option \<Rightarrow> dest list \<Rightarrow> (core, gerror option \<times> dest list) state"
  where
  "Rows_ScanContext S pf ctx rows ds = do {
     c \<leftarrow> contextError ctx;
     (case c of
        Inl e \<Rightarrow> State_Monad.return (Some e, ds)
      | Inr _ \<Rightarrow>
          (case rows of
             None \<Rightarrow> State_Monad.return (Some ErrClosed, ds)
           | Some r \<Rightarrow> co_locked (LRows r) (do {
               x \<leftarrow> gets (\<lambda>w. rowss w r);
               (if rows_native x = None then State_Monad.return (Some ErrClosed, ds)
                else if current x \<le> 0 \<or> current x > total x then State_Monad.return (Some ErrScan, ds)
                else if length ds \<noteq> length (columns x) then State_Monad.return (Some ErrScan, ds)
                else scan_columns S pf ctx r 1 ds) })))
   }"

definition Rows_Scan ::
  "sdk \<Rightarrow> (string \<Rightarrow> 64 word option) \<Rightarrow> nat option \<Rightarrow> dest list \<Rightarrow> (core, gerror option \<times> dest list) state"
  where
  "Rows_Scan S pf rows ds = Rows_ScanContext S pf Background rows ds"

end
