(* ===== verification/Cube_Stmt.thy ===== *)
theory Cube_Stmt
  imports Cube_Rows
begin

text \<open>Prepared statements, \<^verbatim>\<open>cubesql/stmt.go\<close>, and \<^verbatim>\<open>addChild\<close> of \<^verbatim>\<open>cubesql/conn.go\<close>.\<close>

definition addChild :: "nat option \<Rightarrow> (core, gerror + unit) state" where
  "addChild c =
     (case c of
        None \<Rightarrow> throw ErrClosed
      | Some c \<Rightarrow> co_locked (LConn c) (do {
          x \<leftarrow> gets (\<lambda>w. conns w c);
          (if conn_native x = None then throw ErrClosed
           else do { _ \<leftarrow> upd_conn c (\<lambda>y. y\<lparr>children := children y + 1\<rparr>); ok () }) }))"

text \<open>\<^verbatim>\<open>func (stmt *Stmt) Close() error\<close>\<close>

definition Stmt_Close :: "sdk \<Rightarrow> nat option \<Rightarrow> (core, gerror + unit) state" where
  "Stmt_Close S stmt =
     (case stmt of
        None \<Rightarrow> ok ()
      | Some s \<Rightarrow> co_locked (LStmt s) (do {
          st \<leftarrow> gets (\<lambda>w. stmts w s);
          (if stmt_native st = None then ok ()
           else if stmt_rows st \<noteq> 0 then throw ErrBusy
           else do {
             _ \<leftarrow> upd_stmt s (\<lambda>x. x\<lparr>stmt_native := None\<rparr>);
             err \<leftarrow> coE (csStmt_Close S (stmt_native st));
             _ \<leftarrow> (if registered st
                  then do { _ \<leftarrow> upd_stmt s (\<lambda>x. x\<lparr>registered := False\<rparr>); releaseChild (stmt_parent st) }
                  else State_Monad.return ());
             State_Monad.return err }) }))"

text \<open>\<^verbatim>\<open>func (stmt *Stmt) call(call func(*csdk.Stmt) error) error\<close>; every error is made public.\<close>

definition Stmt_call ::
  "nat option \<Rightarrow> (nat option \<Rightarrow> (core, gerror + unit) state) \<Rightarrow> (core, gerror + unit) state" where
  "Stmt_call stmt f =
     (case stmt of
        None \<Rightarrow> throw ErrClosed
      | Some s \<Rightarrow> co_locked (LStmt s) (do {
          st \<leftarrow> gets (\<lambda>w. stmts w s);
          (if stmt_native st = None then throw ErrClosed
           else if stmt_rows st \<noteq> 0 then throw ErrBusy
           else mapE publicError (f (stmt_native st))) }))"

definition Stmt_Bind :: "sdk \<Rightarrow> nat option \<Rightarrow> int \<Rightarrow> any \<Rightarrow> (core, gerror + unit) state" where
  "Stmt_Bind S stmt index v =
     (if index \<le> 0 then throw ErrInvalidArgument
      else Stmt_call stmt (\<lambda>native. setPrepared S native index v))"

definition Stmt_BindInt64 :: "sdk \<Rightarrow> nat option \<Rightarrow> int \<Rightarrow> int \<Rightarrow> (core, gerror + unit) state" where
  "Stmt_BindInt64 S stmt index v = Stmt_Bind S stmt index (AInt64 v)"

definition Stmt_BindFloat64 :: "sdk \<Rightarrow> nat option \<Rightarrow> int \<Rightarrow> 64 word \<Rightarrow> (core, gerror + unit) state" where
  "Stmt_BindFloat64 S stmt index v = Stmt_Bind S stmt index (AFloat64 v)"

definition Stmt_BindText :: "sdk \<Rightarrow> nat option \<Rightarrow> int \<Rightarrow> string \<Rightarrow> (core, gerror + unit) state" where
  "Stmt_BindText S stmt index v = Stmt_Bind S stmt index (AString v)"

definition Stmt_BindBlob :: "sdk \<Rightarrow> nat option \<Rightarrow> int \<Rightarrow> string option \<Rightarrow> (core, gerror + unit) state" where
  "Stmt_BindBlob S stmt index v = Stmt_Bind S stmt index (ABytes v)"

definition Stmt_BindNull :: "sdk \<Rightarrow> nat option \<Rightarrow> int \<Rightarrow> (core, gerror + unit) state" where
  "Stmt_BindNull S stmt index = Stmt_Bind S stmt index ANil"

definition Stmt_BindZeroBlob :: "sdk \<Rightarrow> nat option \<Rightarrow> int \<Rightarrow> int \<Rightarrow> (core, gerror + unit) state" where
  "Stmt_BindZeroBlob S stmt index size' = Stmt_Bind S stmt index (AZeroBlob size')"

text \<open>\<^verbatim>\<open>func (stmt *Stmt) ExecContext(ctx context.Context) (Result, error)\<close>\<close>

definition Stmt_ExecContext :: "sdk \<Rightarrow> ctx \<Rightarrow> nat option \<Rightarrow> (core, gerror + result) state" where
  "Stmt_ExecContext S ctx stmt =
     tryE (contextError ctx) (\<lambda>_.
     (case stmt of
        None \<Rightarrow> throw ErrClosed
      | Some s \<Rightarrow> co_locked (LStmt s) (do {
          st \<leftarrow> gets (\<lambda>w. stmts w s);
          (case (stmt_native st, stmt_parent st) of
             (Some n, Some c) \<Rightarrow>
               (if stmt_rows st \<noteq> 0 then throw ErrBusy
                else co_locked (LConn c) (do {
                  cn \<leftarrow> gets (\<lambda>w. conn_native (conns w c));
                  (if cn = None then throw ErrClosed
                   else
                     tryE (contextError ctx) (\<lambda>_.
                     tryE (coE (csStmt_Exec S (Some n))) (\<lambda>_. do {
                       res \<leftarrow> resultForContext S ctx cn;
                       ok res }))) }))
           | _ \<Rightarrow> throw ErrClosed) })))"

definition Stmt_Exec :: "sdk \<Rightarrow> nat option \<Rightarrow> (core, gerror + result) state" where
  "Stmt_Exec S stmt = Stmt_ExecContext S Background stmt"

text \<open>\<^verbatim>\<open>func (stmt *Stmt) query(ctx context.Context, closeWithRows bool) (*Rows, error)\<close>\<close>

definition Stmt_query :: "sdk \<Rightarrow> ctx \<Rightarrow> nat option \<Rightarrow> bool \<Rightarrow> (core, gerror + nat) state" where
  "Stmt_query S ctx stmt closeWithRows =
     tryE (contextError ctx) (\<lambda>_.
     (case stmt of
        None \<Rightarrow> throw ErrClosed
      | Some s \<Rightarrow> (let unlock = coC (csN (release (LStmt s)));
                     close_if = (if closeWithRows then do { _ \<leftarrow> Stmt_Close S stmt; State_Monad.return () }
                                 else State_Monad.return ())
          in do {
          _ \<leftarrow> coC (csN (acquire (LStmt s)));
          st \<leftarrow> gets (\<lambda>w. stmts w s);
          (if stmt_native st = None then do { _ \<leftarrow> unlock; throw ErrClosed }
           else if stmt_rows st \<noteq> 0 then do { _ \<leftarrow> unlock; throw ErrBusy }
           else
             catchE (contextError ctx) (\<lambda>e. do { _ \<leftarrow> unlock; throw e }) (\<lambda>_.
             catchE (coE (csStmt_Query S (stmt_native st))) (\<lambda>e. do { _ \<leftarrow> unlock; throw e }) (\<lambda>nativeRows.
             catchE (newRowsContext S ctx (Some nativeRows))
               (\<lambda>e. do { _ \<leftarrow> unlock; _ \<leftarrow> close_if; throw e }) (\<lambda>r.
             catchE (addChild (stmt_parent st))
               (\<lambda>e. do { _ \<leftarrow> Rows_Close S (Some r); _ \<leftarrow> unlock; _ \<leftarrow> close_if; throw e }) (\<lambda>_. do {
               _ \<leftarrow> upd_stmt s (\<lambda>x. x\<lparr>stmt_rows := stmt_rows x + 1\<rparr>);
               _ \<leftarrow> upd_rows r (\<lambda>y. y\<lparr>parentConn := stmt_parent st, parentStmt := stmt,
                      closeStmt := closeWithRows\<rparr>);
               _ \<leftarrow> unlock;
               ok r }))))) })))"

definition Stmt_QueryContext :: "sdk \<Rightarrow> ctx \<Rightarrow> nat option \<Rightarrow> (core, gerror + nat) state" where
  "Stmt_QueryContext S ctx stmt = Stmt_query S ctx stmt False"

definition Stmt_Query :: "sdk \<Rightarrow> nat option \<Rightarrow> (core, gerror + nat) state" where
  "Stmt_Query S stmt = Stmt_QueryContext S Background stmt"

text \<open>
  \<^verbatim>\<open>func (stmt *Stmt) ResetContext(ctx context.Context) error\<close>. \<open>unregister\<close> is its repeated block
  \<^verbatim>\<open>if stmt.registered { stmt.registered = false; stmt.conn.children-- }\<close>.
\<close>

definition unregister :: "nat \<Rightarrow> nat \<Rightarrow> (core, unit) state" where
  "unregister s c = do {
     st \<leftarrow> gets (\<lambda>w. stmts w s);
     (if registered st
      then do {
        _ \<leftarrow> upd_stmt s (\<lambda>x. x\<lparr>registered := False\<rparr>);
        upd_conn c (\<lambda>y. y\<lparr>children := children y - 1\<rparr>) }
      else State_Monad.return ())
   }"

definition Stmt_ResetContext :: "sdk \<Rightarrow> ctx \<Rightarrow> nat option \<Rightarrow> (core, gerror + unit) state" where
  "Stmt_ResetContext S ctx stmt =
     tryE (contextError ctx) (\<lambda>_.
     (case stmt of
        None \<Rightarrow> throw ErrClosed
      | Some s \<Rightarrow> co_locked (LStmt s) (do {
          st \<leftarrow> gets (\<lambda>w. stmts w s);
          (case (stmt_native st, stmt_parent st) of
             (Some n, Some c) \<Rightarrow>
               (if stmt_rows st \<noteq> 0 then throw ErrBusy
                else co_locked (LConn c) (do {
                  cn \<leftarrow> gets (\<lambda>w. conn_native (conns w c));
                  (if cn = None then throw ErrClosed
                   else
                     tryE (contextError ctx) (\<lambda>_. do {
                     _ \<leftarrow> upd_stmt s (\<lambda>x. x\<lparr>stmt_native := None\<rparr>);
                     (let fail = (\<lambda>e. do { _ \<leftarrow> unregister s c; throw e }) in
                     catchE (coE (csStmt_Close S (Some n))) fail (\<lambda>_.
                     catchE (contextError ctx) fail (\<lambda>_.
                     catchE (coE (csConn_Prepare S cn (queryText st))) fail (\<lambda>replacement. do {
                       _ \<leftarrow> upd_stmt s (\<lambda>x. x\<lparr>stmt_native := Some replacement\<rparr>);
                       ok () })))) })) }))
           | _ \<Rightarrow> throw ErrClosed) })))"

definition Stmt_Reset :: "sdk \<Rightarrow> nat option \<Rightarrow> (core, gerror + unit) state" where
  "Stmt_Reset S stmt = Stmt_ResetContext S Background stmt"

end
