(* ===== verification/Cube_Conn.thy ===== *)
theory Cube_Conn
  imports Cube_Stmt
begin

text \<open>Connections and transactions of the public package: \<^verbatim>\<open>cubesql/conn.go\<close> and \<^verbatim>\<open>cubesql/tx.go\<close>.\<close>

section \<open>Opening and closing\<close>

definition OpenContext :: "sdk \<Rightarrow> ctx \<Rightarrow> options \<Rightarrow> (core, gerror + nat) state" where
  "OpenContext S ctx opts =
     tryE (contextError ctx) (\<lambda>_.
     (case options_native opts of
        Inl e \<Rightarrow> throw e
      | Inr nativeOptions \<Rightarrow>
          tryE (coE (cs_Open S nativeOptions)) (\<lambda>native. do {
            c \<leftarrow> co_new;
            _ \<leftarrow> upd_conn c (\<lambda>_. \<lparr>conn_native = Some native, txActive = False, children = 0\<rparr>);
            ok c })))"

definition Open :: "sdk \<Rightarrow> options \<Rightarrow> (core, gerror + nat) state" where
  "Open S opts = OpenContext S Background opts"

definition Conn_Close :: "nat option \<Rightarrow> (core, gerror + unit) state" where
  "Conn_Close conn =
     (case conn of
        None \<Rightarrow> ok ()
      | Some c \<Rightarrow> co_locked (LConn c) (do {
          x \<leftarrow> gets (\<lambda>w. conns w c);
          (if conn_native x = None then ok ()
           else if txActive x \<or> children x \<noteq> 0 then throw ErrBusy
           else tryE (coE (csConn_Close (conn_native x))) (\<lambda>_. do {
             _ \<leftarrow> upd_conn c (\<lambda>y. y\<lparr>conn_native := None\<rparr>);
             ok () })) }))"

section \<open>Simple calls\<close>

text \<open>\<^verbatim>\<open>func (conn *Conn) call(...)\<close> and \<^verbatim>\<open>metric(...)\<close>, which hold the read lock\<close>

definition Conn_call ::
  "nat option \<Rightarrow> (nat option \<Rightarrow> (core, gerror + unit) state) \<Rightarrow> (core, gerror + unit) state" where
  "Conn_call conn f =
     (case conn of
        None \<Rightarrow> throw ErrClosed
      | Some c \<Rightarrow> co_locked (LConn c) (do {
          x \<leftarrow> gets (\<lambda>w. conns w c);
          (if conn_native x = None then throw ErrClosed else mapE publicError (f (conn_native x))) }))"

definition Conn_metric ::
  "nat option \<Rightarrow> (nat option \<Rightarrow> (csdk, gerror + int) state) \<Rightarrow> (core, gerror + int) state" where
  "Conn_metric conn f =
     (case conn of
        None \<Rightarrow> throw ErrClosed
      | Some c \<Rightarrow> co_locked (LConn c) (do {
          x \<leftarrow> gets (\<lambda>w. conns w c);
          (if conn_native x = None then throw ErrClosed
           else if children x \<noteq> 0 then throw ErrBusy
           else coE (f (conn_native x))) }))"

definition Conn_PingContext :: "sdk \<Rightarrow> ctx \<Rightarrow> nat option \<Rightarrow> (core, gerror + unit) state" where
  "Conn_PingContext S ctx conn =
     tryE (contextError ctx) (\<lambda>_.
     Conn_call conn (\<lambda>native. tryE (contextError ctx) (\<lambda>_. coC (csConn_Ping S native))))"

definition Conn_Ping :: "sdk \<Rightarrow> nat option \<Rightarrow> (core, gerror + unit) state" where
  "Conn_Ping S conn = Conn_PingContext S Background conn"

definition Conn_AffectedRows :: "sdk \<Rightarrow> nat option \<Rightarrow> (core, gerror + int) state" where
  "Conn_AffectedRows S conn = Conn_metric conn (csConn_AffectedRows S)"

definition Conn_LastInsertID :: "sdk \<Rightarrow> nat option \<Rightarrow> (core, gerror + int) state" where
  "Conn_LastInsertID S conn = Conn_metric conn (csConn_LastInsertID S)"

definition Conn_Changes :: "sdk \<Rightarrow> nat option \<Rightarrow> (core, gerror + int) state" where
  "Conn_Changes S conn = Conn_metric conn (csConn_Changes S)"

text \<open>
  \<^verbatim>\<open>conn.mu.Lock()\<close> and the guards most methods start with; \<open>busy\<close> is the method's own busy test, and
  the body gets the native connection.
\<close>

definition with_conn_locked ::
  "nat option \<Rightarrow> (conn \<Rightarrow> bool) \<Rightarrow> (nat \<Rightarrow> nat option \<Rightarrow> (core, gerror + 'a) state) \<Rightarrow> (core, gerror + 'a) state"
  where
  "with_conn_locked conn busy body =
     (case conn of
        None \<Rightarrow> throw ErrClosed
      | Some c \<Rightarrow> co_locked (LConn c) (do {
          x \<leftarrow> gets (\<lambda>w. conns w c);
          (if conn_native x = None then throw ErrClosed
           else if busy x then throw ErrBusy
           else body c (conn_native x)) }))"

definition Conn_SetDatabaseContext :: "sdk \<Rightarrow> ctx \<Rightarrow> nat option \<Rightarrow> string \<Rightarrow> (core, gerror + unit) state"
  where
  "Conn_SetDatabaseContext S ctx conn name =
     tryE (contextError ctx) (\<lambda>_.
     with_conn_locked conn (\<lambda>x. txActive x \<or> children x \<noteq> 0) (\<lambda>c native.
       tryE (contextError ctx) (\<lambda>_. coE (csConn_SetDatabase S native name))))"

definition Conn_SetDatabase :: "sdk \<Rightarrow> nat option \<Rightarrow> string \<Rightarrow> (core, gerror + unit) state" where
  "Conn_SetDatabase S conn name = Conn_SetDatabaseContext S Background conn name"

section \<open>Exec\<close>

text \<open>The loops over the arguments, each value checked against the context first.\<close>

definition bind_prepared :: "sdk \<Rightarrow> ctx \<Rightarrow> nat option \<Rightarrow> any list \<Rightarrow> (core, gerror + unit) state" where
  "bind_prepared S ctx stmt args =
     eachE (\<lambda>index v. tryE (contextError ctx) (\<lambda>_. setPrepared S stmt (int index + 1) v)) 0 args"

definition bind_one_shot :: "sdk \<Rightarrow> ctx \<Rightarrow> nat option \<Rightarrow> any list \<Rightarrow> (core, gerror + unit) state" where
  "bind_one_shot S ctx bnd args =
     eachE (\<lambda>index v. tryE (contextError ctx) (\<lambda>_. setOneShot S bnd (int index + 1) v)) 0 args"

definition Conn_ExecContext :: "sdk \<Rightarrow> ctx \<Rightarrow> nat option \<Rightarrow> string \<Rightarrow> any list \<Rightarrow> (core, gerror + result) state"
  where
  "Conn_ExecContext S ctx conn query args =
     tryE (contextError ctx) (\<lambda>_.
     if query = [] then throw ErrInvalidArgument
     else with_conn_locked conn (\<lambda>x. children x \<noteq> 0) (\<lambda>c native.
       if args = [] then
         tryE (contextError ctx) (\<lambda>_.
         tryE (coE (csConn_Exec S native query)) (\<lambda>_. do {
           res \<leftarrow> resultForContext S ctx native;
           ok res }))
       else if hasEmptyBlob args then
         tryE (contextError ctx) (\<lambda>_.
         tryE (coE (csConn_Prepare S native query)) (\<lambda>st.
         deferE (coC (csStmt_Close S (Some st)))
           (tryE (bind_prepared S ctx (Some st) args) (\<lambda>_.
            tryE (contextError ctx) (\<lambda>_.
            tryE (coE (csStmt_Exec S (Some st))) (\<lambda>_. do {
              res \<leftarrow> resultForContext S ctx native;
              ok res }))))))
       else
         tryE (contextError ctx) (\<lambda>_.
         tryE (coE (cs_NewBind S (int (length args)))) (\<lambda>b.
         deferE (coC (csBind_Close (Some b)))
           (tryE (bind_one_shot S ctx (Some b) args) (\<lambda>_.
            tryE (contextError ctx) (\<lambda>_.
            tryE (coE (csConn_ExecBind S native query (Some b))) (\<lambda>_. do {
              res \<leftarrow> resultForContext S ctx native;
              ok res }))))))))"

definition Conn_Exec :: "sdk \<Rightarrow> nat option \<Rightarrow> string \<Rightarrow> any list \<Rightarrow> (core, gerror + result) state" where
  "Conn_Exec S conn query args = Conn_ExecContext S Background conn query args"

section \<open>Prepare and query\<close>

definition Conn_PrepareContext :: "sdk \<Rightarrow> ctx \<Rightarrow> nat option \<Rightarrow> string \<Rightarrow> (core, gerror + nat) state" where
  "Conn_PrepareContext S ctx conn query =
     tryE (contextError ctx) (\<lambda>_.
     if query = [] then throw ErrInvalidArgument
     else with_conn_locked conn (\<lambda>x. children x \<noteq> 0) (\<lambda>c native.
       tryE (contextError ctx) (\<lambda>_.
       tryE (coE (csConn_Prepare S native query)) (\<lambda>st. do {
         _ \<leftarrow> upd_conn c (\<lambda>y. y\<lparr>children := children y + 1\<rparr>);
         s \<leftarrow> co_new;
         _ \<leftarrow> upd_stmt s (\<lambda>_. \<lparr>stmt_parent = Some c, stmt_native = Some st, queryText = query,
                stmt_rows = 0, registered = True\<rparr>);
         ok s }))))"

definition Conn_Prepare :: "sdk \<Rightarrow> nat option \<Rightarrow> string \<Rightarrow> (core, gerror + nat) state" where
  "Conn_Prepare S conn query = Conn_PrepareContext S Background conn query"

definition Conn_QueryContext :: "sdk \<Rightarrow> ctx \<Rightarrow> nat option \<Rightarrow> string \<Rightarrow> any list \<Rightarrow> (core, gerror + nat) state"
  where
  "Conn_QueryContext S ctx conn query args =
     tryE (contextError ctx) (\<lambda>_.
     if query = [] then throw ErrInvalidArgument
     else if args = [] then
       with_conn_locked conn (\<lambda>x. children x \<noteq> 0) (\<lambda>c native.
         tryE (contextError ctx) (\<lambda>_.
         tryE (coE (csConn_Query S native query)) (\<lambda>nativeRows.
         tryE (newRowsContext S ctx (Some nativeRows)) (\<lambda>r. do {
           _ \<leftarrow> upd_conn c (\<lambda>y. y\<lparr>children := children y + 1\<rparr>);
           _ \<leftarrow> upd_rows r (\<lambda>y. y\<lparr>parentConn := Some c\<rparr>);
           ok r }))))
     else
       tryE (Conn_PrepareContext S ctx conn query) (\<lambda>s.
       let close_and = (\<lambda>e. do { _ \<leftarrow> Stmt_Close S (Some s); throw e }) in
       catchE (eachE (\<lambda>index v. tryE (contextError ctx) (\<lambda>_. Stmt_Bind S (Some s) (int index + 1) v)) 0 args)
         close_and (\<lambda>_.
       catchE (contextError ctx) close_and (\<lambda>_.
       catchE (Stmt_query S ctx (Some s) True) close_and ok))))"

definition Conn_Query :: "sdk \<Rightarrow> nat option \<Rightarrow> string \<Rightarrow> any list \<Rightarrow> (core, gerror + nat) state" where
  "Conn_Query S conn query args = Conn_QueryContext S Background conn query args"

section \<open>Transactions\<close>

definition Conn_BeginContext :: "sdk \<Rightarrow> ctx \<Rightarrow> nat option \<Rightarrow> (core, gerror + nat) state" where
  "Conn_BeginContext S ctx conn =
     tryE (contextError ctx) (\<lambda>_.
     with_conn_locked conn (\<lambda>x. txActive x \<or> children x \<noteq> 0) (\<lambda>c native.
       tryE (contextError ctx) (\<lambda>_.
       tryE (coE (csConn_Begin S native)) (\<lambda>_. do {
         _ \<leftarrow> upd_conn c (\<lambda>y. y\<lparr>txActive := True\<rparr>);
         t \<leftarrow> co_new;
         _ \<leftarrow> upd_tx t (\<lambda>_. \<lparr>tx_conn = Some c, tx_done = False\<rparr>);
         ok t }))))"

definition Conn_Begin :: "sdk \<Rightarrow> nat option \<Rightarrow> (core, gerror + nat) state" where
  "Conn_Begin S conn = Conn_BeginContext S Background conn"

definition finishImplicit :: "sdk \<Rightarrow> ctx \<Rightarrow> nat option \<Rightarrow> bool \<Rightarrow> (core, gerror + unit) state" where
  "finishImplicit S ctx conn commit =
     tryE (contextError ctx) (\<lambda>_.
     with_conn_locked conn (\<lambda>x. txActive x \<or> children x \<noteq> 0) (\<lambda>c native.
       tryE (contextError ctx) (\<lambda>_.
       if commit then coE (csConn_Commit S native) else coE (csConn_Rollback S native))))"

definition Conn_CommitContext :: "sdk \<Rightarrow> ctx \<Rightarrow> nat option \<Rightarrow> (core, gerror + unit) state" where
  "Conn_CommitContext S ctx conn = finishImplicit S ctx conn True"

definition Conn_Commit :: "sdk \<Rightarrow> nat option \<Rightarrow> (core, gerror + unit) state" where
  "Conn_Commit S conn = Conn_CommitContext S Background conn"

definition Conn_RollbackContext :: "sdk \<Rightarrow> ctx \<Rightarrow> nat option \<Rightarrow> (core, gerror + unit) state" where
  "Conn_RollbackContext S ctx conn = finishImplicit S ctx conn False"

definition Conn_Rollback :: "sdk \<Rightarrow> nat option \<Rightarrow> (core, gerror + unit) state" where
  "Conn_Rollback S conn = Conn_RollbackContext S Background conn"

text \<open>The guard of the \<^verbatim>\<open>Tx\<close> methods that go on to the connection, under the transaction's read lock.\<close>

definition with_tx :: "ctx \<Rightarrow> nat option \<Rightarrow> (nat option \<Rightarrow> (core, gerror + 'a) state) \<Rightarrow> (core, gerror + 'a) state"
  where
  "with_tx ctx tx body =
     tryE (contextError ctx) (\<lambda>_.
     (case tx of
        None \<Rightarrow> throw ErrTxDone
      | Some t \<Rightarrow> co_locked (LTx t) (do {
          x \<leftarrow> gets (\<lambda>w. txs w t);
          (if tx_done x \<or> tx_conn x = None then throw ErrTxDone else body (tx_conn x)) })))"

definition Tx_ExecContext :: "sdk \<Rightarrow> ctx \<Rightarrow> nat option \<Rightarrow> string \<Rightarrow> any list \<Rightarrow> (core, gerror + result) state"
  where
  "Tx_ExecContext S ctx tx query args = with_tx ctx tx (\<lambda>conn. Conn_ExecContext S ctx conn query args)"

definition Tx_Exec :: "sdk \<Rightarrow> nat option \<Rightarrow> string \<Rightarrow> any list \<Rightarrow> (core, gerror + result) state" where
  "Tx_Exec S tx query args = Tx_ExecContext S Background tx query args"

definition Tx_QueryContext :: "sdk \<Rightarrow> ctx \<Rightarrow> nat option \<Rightarrow> string \<Rightarrow> any list \<Rightarrow> (core, gerror + nat) state"
  where
  "Tx_QueryContext S ctx tx query args = with_tx ctx tx (\<lambda>conn. Conn_QueryContext S ctx conn query args)"

definition Tx_Query :: "sdk \<Rightarrow> nat option \<Rightarrow> string \<Rightarrow> any list \<Rightarrow> (core, gerror + nat) state" where
  "Tx_Query S tx query args = Tx_QueryContext S Background tx query args"

definition Tx_PrepareContext :: "sdk \<Rightarrow> ctx \<Rightarrow> nat option \<Rightarrow> string \<Rightarrow> (core, gerror + nat) state" where
  "Tx_PrepareContext S ctx tx query = with_tx ctx tx (\<lambda>conn. Conn_PrepareContext S ctx conn query)"

definition Tx_Prepare :: "sdk \<Rightarrow> nat option \<Rightarrow> string \<Rightarrow> (core, gerror + nat) state" where
  "Tx_Prepare S tx query = Tx_PrepareContext S Background tx query"

definition Tx_finish :: "sdk \<Rightarrow> ctx \<Rightarrow> nat option \<Rightarrow> bool \<Rightarrow> (core, gerror + unit) state" where
  "Tx_finish S ctx tx commit =
     tryE (contextError ctx) (\<lambda>_.
     (case tx of
        None \<Rightarrow> throw ErrTxDone
      | Some t \<Rightarrow> co_locked (LTx t) (do {
          x \<leftarrow> gets (\<lambda>w. txs w t);
          (case tx_conn x of
             None \<Rightarrow> throw ErrTxDone
           | Some c \<Rightarrow>
               (if tx_done x then throw ErrTxDone
                else co_locked (LConn c) (do {
                  y \<leftarrow> gets (\<lambda>w. conns w c);
                  (if conn_native y = None then throw ErrClosed
                   else if \<not> txActive y then throw ErrTxDone
                   else if children y \<noteq> 0 then throw ErrBusy
                   else
                     tryE (contextError ctx) (\<lambda>_.
                     tryE (if commit then coE (csConn_Commit S (conn_native y))
                           else coE (csConn_Rollback S (conn_native y))) (\<lambda>_. do {
                       _ \<leftarrow> upd_conn c (\<lambda>z. z\<lparr>txActive := False\<rparr>);
                       _ \<leftarrow> upd_tx t (\<lambda>_. \<lparr>tx_conn = None, tx_done = True\<rparr>);
                       ok () }))) }))) })))"

definition Tx_CommitContext :: "sdk \<Rightarrow> ctx \<Rightarrow> nat option \<Rightarrow> (core, gerror + unit) state" where
  "Tx_CommitContext S ctx tx = Tx_finish S ctx tx True"

definition Tx_Commit :: "sdk \<Rightarrow> nat option \<Rightarrow> (core, gerror + unit) state" where
  "Tx_Commit S tx = Tx_CommitContext S Background tx"

definition Tx_RollbackContext :: "sdk \<Rightarrow> ctx \<Rightarrow> nat option \<Rightarrow> (core, gerror + unit) state" where
  "Tx_RollbackContext S ctx tx = Tx_finish S ctx tx False"

definition Tx_Rollback :: "sdk \<Rightarrow> nat option \<Rightarrow> (core, gerror + unit) state" where
  "Tx_Rollback S tx = Tx_RollbackContext S Background tx"

end
