(* ===== verification/Cube_Core_Abs.thy ===== *)
theory Cube_Core_Abs
  imports Cube_Conn Cube_Csdk_Run
begin

text \<open>
  A verification calculus for the public package. A method is run on the abstract state \<open>acore\<close>: the
  abstract view of the private package, the mutexes held, and the package's own heap. \<open>awp m Q A\<close>
  says that \<open>m\<close>, started in any concrete state with abstraction \<open>A\<close>, keeps the private package's
  invariant and ends in an abstract state with \<open>Q\<close>.
\<close>

section \<open>Abstract states\<close>

record acore =
  a_view :: cview
  a_held :: "lock list"
  a_conns :: "nat \<Rightarrow> conn"
  a_rows :: "nat \<Rightarrow> rows"
  a_stmts :: "nat \<Rightarrow> stmt"
  a_txs :: "nat \<Rightarrow> tx"
  a_next :: nat

definition abs_core :: "core \<Rightarrow> acore" where
  "abs_core w = \<lparr> a_view = cview (csdk_of w), a_held = held (native_of (csdk_of w)), a_conns = conns w,
     a_rows = rowss w, a_stmts = stmts w, a_txs = txs w, a_next = co_next w \<rparr>"

definition awp :: "(core, 'a) state \<Rightarrow> ('a \<Rightarrow> acore \<Rightarrow> bool) \<Rightarrow> acore \<Rightarrow> bool" where
  "awp m Q A \<longleftrightarrow> (\<forall>w. csdk_ok (csdk_of w) \<longrightarrow> abs_core w = A \<longrightarrow>
     wp m (\<lambda>r w'. csdk_ok (csdk_of w') \<and> Q r (abs_core w')) w)"

lemma awpI:
  "(\<And>w. csdk_ok (csdk_of w) \<Longrightarrow> abs_core w = A \<Longrightarrow>
     wp m (\<lambda>r w'. csdk_ok (csdk_of w') \<and> Q r (abs_core w')) w) \<Longrightarrow> awp m Q A"
  by (simp add: awp_def)

lemma awpD:
  "awp m Q A \<Longrightarrow> csdk_ok (csdk_of w) \<Longrightarrow> abs_core w = A \<Longrightarrow>
     wp m (\<lambda>r w'. csdk_ok (csdk_of w') \<and> Q r (abs_core w')) w"
  by (simp add: awp_def)

lemma awp_mono: "awp m P A \<Longrightarrow> (\<And>r B. P r B \<Longrightarrow> Q r B) \<Longrightarrow> awp m Q A"
  by (rule awpI, rule wp_mono, erule (2) awpD) simp

section \<open>Rules\<close>

lemma awp_return: "Q a A \<Longrightarrow> awp (State_Monad.return a) Q A"
  by (auto intro!: awpI simp: wp_simps)

lemma awp_throw: "Q (Inl e) A \<Longrightarrow> awp (throw e) Q A"
  by (auto intro!: awpI simp: wp_simps)

lemma awp_ok: "Q (Inr v) A \<Longrightarrow> awp (ok v) Q A"
  by (auto intro!: awpI simp: wp_simps)

lemma awp_bind: "awp m (\<lambda>r. awp (f r) Q) A \<Longrightarrow> awp (State_Monad.bind m f) Q A"
  by (rule awpI, simp only: wp_bind, rule wp_mono, erule (2) awpD) (auto simp: awp_def)

lemma awp_if: "(b \<Longrightarrow> awp m Q A) \<Longrightarrow> (\<not> b \<Longrightarrow> awp n Q A) \<Longrightarrow> awp (if b then m else n) Q A"
  by simp

lemma awp_case_option:
  "(x = None \<Longrightarrow> awp m Q A) \<Longrightarrow> (\<And>v. x = Some v \<Longrightarrow> awp (f v) Q A) \<Longrightarrow>
     awp (case x of None \<Rightarrow> m | Some v \<Rightarrow> f v) Q A"
  by (cases x) simp_all

lemma awp_case_sum:
  "(\<And>e. r = Inl e \<Longrightarrow> awp (f e) Q A) \<Longrightarrow> (\<And>v. r = Inr v \<Longrightarrow> awp (g v) Q A) \<Longrightarrow>
     awp (case r of Inl e \<Rightarrow> f e | Inr v \<Rightarrow> g v) Q A"
  by (cases r) simp_all

lemma awp_case_prod: "(\<And>x y. p = (x, y) \<Longrightarrow> awp (f x y) Q A) \<Longrightarrow> awp (case p of (x, y) \<Rightarrow> f x y) Q A"
  by (cases p) simp

text \<open>The two continuations of a Go call, as one postcondition.\<close>

definition either :: "('e \<Rightarrow> 's \<Rightarrow> bool) \<Rightarrow> ('a \<Rightarrow> 's \<Rightarrow> bool) \<Rightarrow> 'e + 'a \<Rightarrow> 's \<Rightarrow> bool" where
  "either E P r = (case r of Inl e \<Rightarrow> E e | Inr v \<Rightarrow> P v)"

lemma either_simps [simp]: "either E P (Inl e) = E e" "either E P (Inr v) = P v"
  by (simp_all add: either_def)

lemma eitherI: "(\<And>e. r = Inl e \<Longrightarrow> E e s) \<Longrightarrow> (\<And>v. r = Inr v \<Longrightarrow> P v s) \<Longrightarrow> either E P r s"
  by (cases r) simp_all

lemma awp_tryE: "awp m (either (\<lambda>e. Q (Inl e)) (\<lambda>v. awp (k v) Q)) A \<Longrightarrow> awp (tryE m k) Q A"
  unfolding tryE_def
  by (rule awp_bind, erule awp_mono) (auto intro!: awp_case_sum awp_return simp: either_def)

lemma awp_catchE: "awp m (either (\<lambda>e. awp (h e) Q) (\<lambda>v. awp (k v) Q)) A \<Longrightarrow> awp (catchE m h k) Q A"
  unfolding catchE_def
  by (rule awp_bind, erule awp_mono) (auto intro!: awp_case_sum simp: either_def)

lemma awp_mapE: "awp m (either (\<lambda>e. Q (Inl (f e))) (\<lambda>v. Q (Inr v))) A \<Longrightarrow> awp (mapE f m) Q A"
  unfolding mapE_def
  by (rule awp_bind, erule awp_mono) (auto intro!: awp_return simp: either_def split: sum.splits)

lemma awp_deferE: "awp m (\<lambda>r. awp c (\<lambda>_. Q r)) A \<Longrightarrow> awp (deferE c m) Q A"
  unfolding deferE_def
  by (rule awp_bind, erule awp_mono) (intro awp_bind, erule awp_mono, rule awp_return)

lemma awp_eachE:
  assumes "I A"
    and "\<And>i x B. I B \<Longrightarrow> awp (f i x) (either E (\<lambda>_. I)) B"
  shows "awp (eachE f i xs) (either E (\<lambda>_. I)) A"
  using assms(1)
proof (induction xs arbitrary: i A)
  case Nil
  then show ?case by (simp add: awp_ok)
next
  case (Cons x xs)
  have "either (\<lambda>e. either E (\<lambda>_. I) (Inl e)) (\<lambda>v. awp (eachE f (Suc i) xs) (either E (\<lambda>_. I))) r B"
    if "either E (\<lambda>_. I) r B" for r B
    using that Cons.IH by (cases r) auto
  then show ?case
    unfolding eachE.simps by (intro awp_tryE) (rule awp_mono [OF assms(2) [OF Cons.prems]])
qed

text \<open>Reading and writing the heap.\<close>

lemma awp_gets:
  "Q (g (a_conns A)) A \<Longrightarrow> awp (gets (\<lambda>w. g (conns w))) Q A"
  "Q (h (a_rows A)) A \<Longrightarrow> awp (gets (\<lambda>w. h (rowss w))) Q A"
  "Q (k (a_stmts A)) A \<Longrightarrow> awp (gets (\<lambda>w. k (stmts w))) Q A"
  "Q (l (a_txs A)) A \<Longrightarrow> awp (gets (\<lambda>w. l (txs w))) Q A"
  by (auto intro!: awpI simp: wp_simps abs_core_def)

lemma awp_upd:
  "Q () (A\<lparr>a_conns := (a_conns A)(c := f (a_conns A c))\<rparr>) \<Longrightarrow> awp (upd_conn c f) Q A"
  "Q () (A\<lparr>a_rows := (a_rows A)(r := g (a_rows A r))\<rparr>) \<Longrightarrow> awp (upd_rows r g) Q A"
  "Q () (A\<lparr>a_stmts := (a_stmts A)(s := h (a_stmts A s))\<rparr>) \<Longrightarrow> awp (upd_stmt s h) Q A"
  "Q () (A\<lparr>a_txs := (a_txs A)(t := k (a_txs A t))\<rparr>) \<Longrightarrow> awp (upd_tx t k) Q A"
  by (auto intro!: awpI simp: wp_simps abs_core_def upd_conn_def upd_rows_def upd_stmt_def upd_tx_def)

lemma awp_new: "Q (a_next A) (A\<lparr>a_next := Suc (a_next A)\<rparr>) \<Longrightarrow> awp co_new Q A"
  by (auto intro!: awpI simp: wp_simps abs_core_def co_new_def)

text \<open>Mutexes: a mutex already held must not be taken.\<close>

lemma csdk_ok_take: "csdk_ok w \<Longrightarrow> \<not> cs_lock l \<Longrightarrow> l \<notin> set (held (native_of w)) \<Longrightarrow> csdk_ok (take_lock l w)"
  by (auto simp: csdk_ok_def) (auto simp: take_lock_def)

lemma csdk_ok_drop: "csdk_ok w \<Longrightarrow> csdk_ok (drop_lock l w)"
  by (auto simp: csdk_ok_def) (auto simp: drop_lock_def list_ex_iff dest: notin_set_remove1)

lemma wp_coC: "wp (coC m) Q = (\<lambda>w. wp m (\<lambda>r x. Q r (w\<lparr>csdk_of := x\<rparr>)) (csdk_of w))"
  by (simp add: coC_def wp_simps)

lemma awp_acquire:
  assumes "\<not> cs_lock l" and "l \<notin> set (a_held A)" and "Q () (A\<lparr>a_held := l # a_held A\<rparr>)"
  shows "awp (coC (csN (acquire l))) Q A"
proof (rule awpI)
  fix w assume ok: "csdk_ok (csdk_of w)" and A: "abs_core w = A"
  have "l \<notin> set (held (native_of (csdk_of w)))" using assms(2) A by (auto simp: abs_core_def)
  from csdk_ok_take [OF ok assms(1) this] assms(3) A
  show "wp (coC (csN (acquire l))) (\<lambda>r w'. csdk_ok (csdk_of w') \<and> Q r (abs_core w')) w"
    by (auto simp: wp_coC wp_csN wp_simps acquire_def take_lock_def abs_core_def cview_def)
qed

lemma awp_release:
  assumes "Q () (A\<lparr>a_held := remove1 l (a_held A)\<rparr>)"
  shows "awp (coC (csN (release l))) Q A"
proof (rule awpI)
  fix w assume ok: "csdk_ok (csdk_of w)" and A: "abs_core w = A"
  from csdk_ok_drop [OF ok, of l] assms A
  show "wp (coC (csN (release l))) (\<lambda>r w'. csdk_ok (csdk_of w') \<and> Q r (abs_core w')) w"
    by (auto simp: wp_coC wp_csN wp_simps release_def drop_lock_def abs_core_def cview_def)
qed

lemma awp_locked:
  assumes "\<not> cs_lock l" and "l \<notin> set (a_held A)"
    and "awp body (\<lambda>r B. Q r (B\<lparr>a_held := remove1 l (a_held B)\<rparr>)) (A\<lparr>a_held := l # a_held A\<rparr>)"
  shows "awp (co_locked l body) Q A"
  unfolding co_locked_def
  by (intro awp_bind awp_acquire assms(1,2)) (rule awp_mono [OF assms(3)], intro awp_bind awp_release awp_return)

text \<open>Calls into the private package.\<close>

lemma becomes_abs:
  assumes "csdk_ok (csdk_of w)" and "abs_core w = A" and "becomes (csdk_of w) V x"
  shows "csdk_ok x" and "abs_core (w\<lparr>csdk_of := x\<rparr>) = A\<lparr>a_view := V\<rparr>"
  using assms becomes_ok [OF assms(1,3)] by (auto simp: abs_core_def becomes_def locks_def)

lemma awp_coC_quiet:
  assumes "quiet_method m" and "\<And>r. Q r A"
  shows "awp (coC m) Q A"
proof (rule awpI)
  fix w assume w: "csdk_ok (csdk_of w)" "abs_core w = A"
  have "A\<lparr>a_view := cview (csdk_of w)\<rparr> = A" using w(2) by (auto simp: abs_core_def)
  with becomes_abs [OF w] assms(2) show "wp (coC m) (\<lambda>r w'. csdk_ok (csdk_of w') \<and> Q r (abs_core w')) w"
    unfolding wp_coC by (intro quiet_method.keeps_frame [OF assms(1) w(1)]) auto
qed

lemma awp_coC_spec:
  assumes "\<And>x. csdk_ok x \<Longrightarrow> cview x = a_view A \<Longrightarrow> wp m (\<lambda>r x'. \<exists>V. becomes x V x' \<and> P r V) x"
    and "\<And>r V. P r V \<Longrightarrow> Q r (A\<lparr>a_view := V\<rparr>)"
  shows "awp (coC m) Q A"
proof (rule awpI)
  fix w assume w: "csdk_ok (csdk_of w)" "abs_core w = A"
  then have "cview (csdk_of w) = a_view A" by (auto simp: abs_core_def)
  from assms(1) [OF w(1) this] show "wp (coC m) (\<lambda>r w'. csdk_ok (csdk_of w') \<and> Q r (abs_core w')) w"
    unfolding wp_coC by (rule wp_mono) (auto simp: becomes_abs [OF w] assms(2))
qed

lemma awp_coE: "awp (coC m) (either (\<lambda>e. Q (Inl (publicError e))) (\<lambda>v. Q (Inr v))) A \<Longrightarrow> awp (coE m) Q A"
  unfolding coE_def by (rule awp_mapE)

lemma awp_contextError:
  assumes "\<And>r. Q r A"
  shows "awp (contextError ctx) Q A"
proof (rule awpI)
  fix w assume w: "csdk_ok (csdk_of w)" "abs_core w = A"
  let ?x = "(csdk_of w)\<lparr>native_of := (native_of (csdk_of w))\<lparr>clock := Suc (co_clock w)\<rparr>\<rparr>"
  have n: "native_ok (n\<lparr>clock := k\<rparr>) = native_ok n" "nview (n\<lparr>clock := k\<rparr>) = nview n" for n k
    by (simp_all add: native_ok_def fresh_ok_def vms_ok_def owners_ok_def nview_def)
  have "csdk_ok ?x" using w(1) by (simp add: csdk_ok_def csdk_inv_def n)
  moreover have "abs_core (w\<lparr>csdk_of := ?x\<rparr>) = A" using w(2) by (simp add: abs_core_def cview_def)
  ultimately show "wp (contextError ctx) (\<lambda>r w'. csdk_ok (csdk_of w') \<and> Q r (abs_core w')) w"
    using w assms by (auto simp: contextError_def tick_clock_def wp_simps wp_coC wp_csN co_clock_def split: ctx.splits)
qed

section \<open>The methods of the private package\<close>

lemmas awp_quiet_calls = quiet_methods [THEN awp_coC_quiet]

lemma sum_spec:
  assumes "wp m (\<lambda>r x'. case r of Inl e \<Rightarrow> becomes x (cview x) x'
      | Inr i \<Rightarrow> P i \<and> becomes x (V i) x') x" and "cview x = U"
  shows "wp m (\<lambda>r x'. \<exists>W. becomes x W x' \<and> (case r of Inl e \<Rightarrow> W = U | Inr i \<Rightarrow> P i \<and> W = V i)) x"
  using assms by (elim wp_mono) (auto split: sum.splits)

lemma awp_cs_Open:
  assumes "\<And>e. Q (Inl e) A"
    and "\<And>a. \<not> kopen (a_view A) a \<Longrightarrow>
      Q (Inr a) (A\<lparr>a_view := (a_view A)\<lparr>kopen := (kopen (a_view A))(a := True)\<rparr>\<rparr>)"
  shows "awp (coC (cs_Open S opts)) Q A"
proof (rule awp_coC_spec)
  fix x assume x: "csdk_ok x" "cview x = a_view A"
  show "wp (cs_Open S opts) (\<lambda>r x'. \<exists>W. becomes x W x' \<and> (case r of Inl e \<Rightarrow> W = a_view A
      | Inr a \<Rightarrow> \<not> kopen (a_view A) a \<and> W = (a_view A)\<lparr>kopen := (kopen (a_view A))(a := True)\<rparr>)) x"
    using sum_spec [OF cs_Open_spec [OF x(1)] x(2), of S opts] unfolding x(2) .
qed (use assms in \<open>auto split: sum.splits\<close>)

lemma awp_csConn_Close:
  assumes "p = None \<Longrightarrow> Q (Inr ()) A"
    and "\<And>a. p = Some a \<Longrightarrow> kopen (a_view A) a \<Longrightarrow> kbusy (a_view A) a \<Longrightarrow> Q (Inl CsBusy) A"
    and "\<And>a. p = Some a \<Longrightarrow> \<not> (kopen (a_view A) a \<and> kbusy (a_view A) a) \<Longrightarrow>
      Q (Inr ()) (A\<lparr>a_view := (a_view A)\<lparr>kopen := (kopen (a_view A))(a := False)\<rparr>\<rparr>)"
  shows "awp (coC (csConn_Close p)) Q A"
proof (cases p)
  case None
  with assms(1) show ?thesis
    by (intro awpI) (auto simp: csConn_Close_def wp_coC wp_simps)
next
  case (Some a)
  show ?thesis unfolding Some
  proof (rule awp_coC_spec)
    fix x assume x: "csdk_ok x" "cview x = a_view A"
    show "wp (csConn_Close (Some a)) (\<lambda>r x'. \<exists>W. becomes x W x' \<and>
        (if kopen (a_view A) a \<and> kbusy (a_view A) a then r = Inl CsBusy \<and> W = a_view A
         else r = Inr () \<and> W = (a_view A)\<lparr>kopen := (kopen (a_view A))(a := False)\<rparr>)) x"
      by (rule wp_mono [OF csConn_Close_spec [OF x(1)]]) (auto simp: x(2) split: if_splits)
  qed (use assms(2,3) Some in \<open>auto split: if_splits\<close>)
qed

lemma awp_csConn_Query:
  assumes "\<And>e. Q (Inl e) A"
    and "\<And>a i. p = Some a \<Longrightarrow> krows (a_view A) i = None \<Longrightarrow>
      Q (Inr i) (A\<lparr>a_view := (a_view A)\<lparr>krows := (krows (a_view A))(i \<mapsto> a)\<rparr>\<rparr>)"
  shows "awp (coC (csConn_Query S p sql)) Q A"
proof (cases p)
  case None
  with assms(1) show ?thesis
    by (intro awpI) (auto simp: csConn_Query_def with_open_conn_def wp_coC wp_simps)
next
  case (Some a)
  show ?thesis unfolding Some
  proof (rule awp_coC_spec)
    fix x assume x: "csdk_ok x" "cview x = a_view A"
    show "wp (csConn_Query S (Some a) sql) (\<lambda>r x'. \<exists>W. becomes x W x' \<and> (case r of Inl e \<Rightarrow> W = a_view A
        | Inr i \<Rightarrow> krows (a_view A) i = None \<and> W = (a_view A)\<lparr>krows := (krows (a_view A))(i \<mapsto> a)\<rparr>)) x"
      using sum_spec [OF csConn_Query_spec [OF x(1)] x(2), of S a sql] unfolding x(2) .
  qed (use assms Some in \<open>auto split: sum.splits\<close>)
qed

lemma awp_csConn_Prepare:
  assumes "\<And>e. Q (Inl e) A"
    and "\<And>a i. p = Some a \<Longrightarrow> kstmts (a_view A) i = None \<Longrightarrow>
      Q (Inr i) (A\<lparr>a_view := (a_view A)\<lparr>kstmts := (kstmts (a_view A))(i \<mapsto> a)\<rparr>\<rparr>)"
  shows "awp (coC (csConn_Prepare S p sql)) Q A"
proof (cases p)
  case None
  with assms(1) show ?thesis
    by (intro awpI) (auto simp: csConn_Prepare_def with_open_conn_def wp_coC wp_simps)
next
  case (Some a)
  show ?thesis unfolding Some
  proof (rule awp_coC_spec)
    fix x assume x: "csdk_ok x" "cview x = a_view A"
    show "wp (csConn_Prepare S (Some a) sql) (\<lambda>r x'. \<exists>W. becomes x W x' \<and> (case r of Inl e \<Rightarrow> W = a_view A
        | Inr i \<Rightarrow> kstmts (a_view A) i = None \<and> W = (a_view A)\<lparr>kstmts := (kstmts (a_view A))(i \<mapsto> a)\<rparr>)) x"
      using sum_spec [OF csConn_Prepare_spec [OF x(1)] x(2), of S a sql] unfolding x(2) .
  qed (use assms Some in \<open>auto split: sum.splits\<close>)
qed

lemma awp_csStmt_Query:
  assumes "\<And>e. Q (Inl e) A"
    and "\<And>s a i. p = Some s \<Longrightarrow> kstmts (a_view A) s = Some a \<Longrightarrow> krows (a_view A) i = None \<Longrightarrow>
      Q (Inr i) (A\<lparr>a_view := (a_view A)\<lparr>krows := (krows (a_view A))(i \<mapsto> a)\<rparr>\<rparr>)"
  shows "awp (coC (csStmt_Query S p)) Q A"
proof (cases p)
  case None
  with assms(1) show ?thesis
    by (intro awpI) (auto simp: csStmt_Query_def with_open_stmt_def wp_coC wp_simps)
next
  case (Some s)
  define a where "a = the (kstmts (a_view A) s)"
  show ?thesis unfolding Some
  proof (rule awp_coC_spec)
    fix x assume x: "csdk_ok x" "cview x = a_view A"
    have a: "kstmts (cview x) s = Some a \<or> kstmts (cview x) s = None"
      unfolding x(2) a_def by (cases "kstmts (a_view A) s") auto
    show "wp (csStmt_Query S (Some s)) (\<lambda>r x'. \<exists>W. becomes x W x' \<and> (case r of Inl e \<Rightarrow> W = a_view A
        | Inr i \<Rightarrow> krows (a_view A) i = None \<and> kstmts (a_view A) s = Some a \<and>
            W = (a_view A)\<lparr>krows := (krows (a_view A))(i \<mapsto> a)\<rparr>)) x"
      by (rule wp_mono [OF csStmt_Query_spec [OF x(1) a]]) (auto simp only: x(2) split: sum.splits)
  qed (use assms Some in \<open>auto split: sum.splits\<close>)
qed

lemma awp_csRows_Close:
  assumes "p = None \<Longrightarrow> Q (Inr ()) A"
    and "\<And>r. p = Some r \<Longrightarrow> Q (Inr ()) (A\<lparr>a_view := (a_view A)\<lparr>krows := (krows (a_view A))(r := None)\<rparr>\<rparr>)"
  shows "awp (coC (csRows_Close p)) Q A"
proof (cases p)
  case None
  with assms(1) show ?thesis
    by (intro awpI) (auto simp: csRows_Close_def wp_coC wp_simps)
next
  case (Some r)
  show ?thesis unfolding Some
  proof (rule awp_coC_spec)
    fix x assume x: "csdk_ok x" "cview x = a_view A"
    show "wp (csRows_Close (Some r)) (\<lambda>res x'. \<exists>W. becomes x W x' \<and>
        (res = Inr () \<and> W = (a_view A)\<lparr>krows := (krows (a_view A))(r := None)\<rparr>)) x"
      by (rule wp_mono [OF csRows_Close_spec [OF x(1)]]) (auto simp only: x(2))
  qed (use assms(2) Some in auto)
qed

lemma awp_csStmt_Close:
  assumes "p = None \<Longrightarrow> Q (Inr ()) A"
    and "\<And>s r. p = Some s \<Longrightarrow> Q r (A\<lparr>a_view := (a_view A)\<lparr>kstmts := (kstmts (a_view A))(s := None)\<rparr>\<rparr>)"
  shows "awp (coC (csStmt_Close S p)) Q A"
proof (cases p)
  case None
  with assms(1) show ?thesis
    by (intro awpI) (auto simp: csStmt_Close_def wp_coC wp_simps)
next
  case (Some s)
  show ?thesis unfolding Some
  proof (rule awp_coC_spec)
    fix x assume x: "csdk_ok x" "cview x = a_view A"
    show "wp (csStmt_Close S (Some s)) (\<lambda>res x'. \<exists>W. becomes x W x' \<and>
        W = (a_view A)\<lparr>kstmts := (kstmts (a_view A))(s := None)\<rparr>) x"
      by (rule wp_mono [OF csStmt_Close_spec [OF x(1)]]) (auto simp only: x(2))
  qed (use assms(2) Some in auto)
qed

lemma awp_cs_NewBind:
  assumes "\<And>e. Q (Inl e) A"
    and "\<And>b. \<not> kbinds (a_view A) b \<Longrightarrow>
      Q (Inr b) (A\<lparr>a_view := (a_view A)\<lparr>kbinds := (kbinds (a_view A))(b := True)\<rparr>\<rparr>)"
  shows "awp (coC (cs_NewBind S n)) Q A"
proof (rule awp_coC_spec)
  fix x assume x: "csdk_ok x" "cview x = a_view A"
  show "wp (cs_NewBind S n) (\<lambda>r x'. \<exists>W. becomes x W x' \<and> (case r of Inl e \<Rightarrow> W = a_view A
      | Inr b \<Rightarrow> \<not> kbinds (a_view A) b \<and> W = (a_view A)\<lparr>kbinds := (kbinds (a_view A))(b := True)\<rparr>)) x"
    using sum_spec [OF cs_NewBind_spec [OF x(1)] x(2), of S n] unfolding x(2) .
qed (use assms in \<open>auto split: sum.splits\<close>)

lemma awp_csBind_Close:
  assumes "Q (Inr ()) (A\<lparr>a_view := (a_view A)\<lparr>kbinds := (kbinds (a_view A))(b := False)\<rparr>\<rparr>)"
  shows "awp (coC (csBind_Close (Some b))) Q A"
proof (rule awp_coC_spec)
  fix x assume x: "csdk_ok x" "cview x = a_view A"
  show "wp (csBind_Close (Some b)) (\<lambda>r x'. \<exists>W. becomes x W x' \<and>
      (r = Inr () \<and> W = (a_view A)\<lparr>kbinds := (kbinds (a_view A))(b := False)\<rparr>)) x"
    by (rule wp_mono [OF csBind_Close_spec [OF x(1)]]) (auto simp only: x(2))
qed (use assms in auto)

text \<open>Everything together. \<open>awp_steps\<close> drives a method to its final abstract states.\<close>

lemmas awp_control = awp_return awp_throw awp_ok awp_bind awp_if awp_case_option awp_case_sum awp_case_prod
  awp_tryE awp_catchE awp_mapE awp_deferE awp_gets awp_upd awp_new awp_coE awp_contextError eitherI

lemmas awp_csdk = awp_cs_Open awp_csConn_Close awp_csConn_Query awp_csConn_Prepare awp_csStmt_Query
  awp_csRows_Close awp_csStmt_Close awp_cs_NewBind awp_csBind_Close

lemmas awp_steps = awp_control awp_quiet_calls awp_csdk

lemma awp_setOneShot: "(\<And>r. Q r A) \<Longrightarrow> awp (setOneShot S b i v) Q A"
  unfolding setOneShot_def by (cases v; simp; intro awp_steps) simp_all

lemma awp_setPrepared: "(\<And>r. Q r A) \<Longrightarrow> awp (setPrepared S s i v) Q A"
  unfolding setPrepared_def by (cases v; simp; intro awp_steps conjI impI) simp_all

lemma awp_resultForContext: "(\<And>r. Q r A) \<Longrightarrow> awp (resultForContext S ctx n) Q A"
  unfolding resultForContext_def by (intro awp_steps) simp_all

end
