(* ===== verification/Cube_Core_Heap.thy ===== *)
theory Cube_Core_Heap
  imports Cube_Core_Abs
begin

text \<open>
  The invariant of the public package's heap against the abstract view of the private package, and
  its preservation when objects are opened and closed.
\<close>

section \<open>The invariant\<close>

text \<open>Parents of open result sets and of registered statements.\<close>

definition row_conn :: "(nat \<Rightarrow> rows) \<Rightarrow> nat \<Rightarrow> nat option" where
  "row_conn R r = (if rows_native (R r) = None then None else parentConn (R r))"

definition row_stmt :: "(nat \<Rightarrow> rows) \<Rightarrow> nat \<Rightarrow> nat option" where
  "row_stmt R r = (if rows_native (R r) = None then None else parentStmt (R r))"

definition reg_conn :: "(nat \<Rightarrow> stmt) \<Rightarrow> nat \<Rightarrow> nat option" where
  "reg_conn T s = (if registered (T s) then stmt_parent (T s) else None)"

text \<open>Every open native object belongs to exactly one public object; no bind graph is left over.\<close>

definition natives_ok :: "cview \<Rightarrow> (nat \<Rightarrow> conn) \<Rightarrow> (nat \<Rightarrow> rows) \<Rightarrow> (nat \<Rightarrow> stmt) \<Rightarrow> bool" where
  "natives_ok V C R T \<longleftrightarrow>
     owns (\<lambda>c. conn_native (C c)) (kopen V) \<and>
     owns (\<lambda>r. rows_native (R r)) (\<lambda>x. krows V x \<noteq> None) \<and>
     owns (\<lambda>s. stmt_native (T s)) (\<lambda>x. kstmts V x \<noteq> None) \<and> (\<forall>b. \<not> kbinds V b)"

text \<open>An open result set knows an open connection, and its statement is open on the same one.\<close>

definition rows_ok :: "cview \<Rightarrow> (nat \<Rightarrow> conn) \<Rightarrow> (nat \<Rightarrow> rows) \<Rightarrow> (nat \<Rightarrow> stmt) \<Rightarrow> bool" where
  "rows_ok V C R T \<longleftrightarrow> (\<forall>r x. rows_native (R r) = Some x \<longrightarrow>
     (\<exists>c a. parentConn (R r) = Some c \<and> conn_native (C c) = Some a \<and> krows V x = Some a) \<and>
     (\<forall>s. parentStmt (R r) = Some s \<longrightarrow> stmt_native (T s) \<noteq> None \<and> stmt_parent (T s) = parentConn (R r)))"

text \<open>A statement is registered while it is open, on an open connection.\<close>

definition stmts_ok :: "cview \<Rightarrow> (nat \<Rightarrow> conn) \<Rightarrow> (nat \<Rightarrow> stmt) \<Rightarrow> bool" where
  "stmts_ok V C T \<longleftrightarrow>
     (\<forall>s x. stmt_native (T s) = Some x \<longrightarrow> registered (T s) \<and>
        (\<exists>c a. stmt_parent (T s) = Some c \<and> conn_native (C c) = Some a \<and> kstmts V x = Some a)) \<and>
     (\<forall>s. registered (T s) \<longrightarrow> stmt_native (T s) \<noteq> None)"

text \<open>The counters: \<^verbatim>\<open>stmt.rows\<close> (never above one) and \<^verbatim>\<open>conn.children\<close>.\<close>

definition counts_ok :: "(nat \<Rightarrow> conn) \<Rightarrow> (nat \<Rightarrow> rows) \<Rightarrow> (nat \<Rightarrow> stmt) \<Rightarrow> nat \<Rightarrow> bool" where
  "counts_ok C R T n \<longleftrightarrow>
     (\<forall>s. stmt_rows (T s) = count_upto n (\<lambda>r. row_stmt R r = Some s) \<and> stmt_rows (T s) \<le> 1) \<and>
     (\<forall>c. children (C c) =
        count_upto n (\<lambda>r. row_conn R r = Some c) + count_upto n (\<lambda>s. reg_conn T s = Some c))"

text \<open>A connection is in a transaction exactly while one \<^verbatim>\<open>Tx\<close> is open on it; then it is open itself.\<close>

definition txs_ok :: "(nat \<Rightarrow> conn) \<Rightarrow> (nat \<Rightarrow> tx) \<Rightarrow> bool" where
  "txs_ok C X \<longleftrightarrow> owns (\<lambda>t. tx_conn (X t)) (\<lambda>c. txActive (C c)) \<and>
     (\<forall>t. tx_conn (X t) \<noteq> None \<longrightarrow> \<not> tx_done (X t)) \<and> (\<forall>c. txActive (C c) \<longrightarrow> conn_native (C c) \<noteq> None)"

definition fresh_objs :: "(nat \<Rightarrow> conn) \<Rightarrow> (nat \<Rightarrow> rows) \<Rightarrow> (nat \<Rightarrow> stmt) \<Rightarrow> (nat \<Rightarrow> tx) \<Rightarrow> nat \<Rightarrow> bool" where
  "fresh_objs C R T X n \<longleftrightarrow> (\<forall>a \<ge> n. conn_native (C a) = None \<and> rows_native (R a) = None \<and>
     stmt_native (T a) = None \<and> tx_conn (X a) = None)"

definition hinv ::
  "cview \<Rightarrow> (nat \<Rightarrow> conn) \<Rightarrow> (nat \<Rightarrow> rows) \<Rightarrow> (nat \<Rightarrow> stmt) \<Rightarrow> (nat \<Rightarrow> tx) \<Rightarrow> nat \<Rightarrow> bool" where
  "hinv V C R T X n \<longleftrightarrow> natives_ok V C R T \<and> rows_ok V C R T \<and> stmts_ok V C T \<and> counts_ok C R T n \<and>
     txs_ok C X \<and> fresh_objs C R T X n"

lemmas hinv_defs = hinv_def natives_ok_def rows_ok_def stmts_ok_def counts_ok_def txs_ok_def fresh_objs_def

lemma hinv_init: "hinv (cview csdk_init) (conns core_init) (rowss core_init) (stmts core_init) (txs core_init) 0"
  by (simp add: hinv_defs owns_def cview_def csdk_init_def core_init_def zero_rows_def open_rows_def open_stmt_def)

section \<open>What the invariant gives\<close>

lemma hinvD:
  assumes "hinv V C R T X n"
  shows "owns (\<lambda>c. conn_native (C c)) (kopen V)" "owns (\<lambda>r. rows_native (R r)) (\<lambda>x. krows V x \<noteq> None)"
    "owns (\<lambda>s. stmt_native (T s)) (\<lambda>x. kstmts V x \<noteq> None)" "\<And>b. \<not> kbinds V b"
    "rows_ok V C R T" "stmts_ok V C T" "counts_ok C R T n" "txs_ok C X" "fresh_objs C R T X n"
  using assms by (simp_all add: hinv_def natives_ok_def)

lemma conn_open: "hinv V C R T X n \<Longrightarrow> conn_native (C c) = Some a \<Longrightarrow> kopen V a"
  by (drule hinvD(1), erule (1) owns_live)

lemma rows_parent':
  assumes "hinv V C R T X n" and "rows_native (R r) = Some x"
  obtains c a where "parentConn (R r) = Some c" "conn_native (C c) = Some a" "krows V x = Some a"
    "row_conn R r = Some c"
  using hinvD(5) [OF assms(1)] assms(2) unfolding rows_ok_def row_conn_def by fastforce

lemma rows_parent_ex:
  assumes "hinv V C R T X n" and "rows_native (R r) = Some x"
  shows "\<exists>c. parentConn (R r) = Some c \<and> (\<exists>a. conn_native (C c) = Some a \<and> krows V x = Some a)"
  using hinvD(5) [OF assms(1)] assms(2) unfolding rows_ok_def by blast

lemma stmt_parent_ex:
  assumes "hinv V C R T X n" and "stmt_native (T s) = Some x"
  shows "\<exists>c. stmt_parent (T s) = Some c \<and> (\<exists>a. conn_native (C c) = Some a \<and> kstmts V x = Some a)"
    "registered (T s)"
  using hinvD(6) [OF assms(1)] assms(2) unfolding stmts_ok_def by blast+

lemma rows_stmt:
  assumes "hinv V C R T X n" and "rows_native (R r) = Some x" and "parentStmt (R r) = Some s"
  shows "stmt_native (T s) \<noteq> None" "stmt_parent (T s) = parentConn (R r)" "row_stmt R r = Some s"
  using hinvD(5) [OF assms(1)] assms(2,3) unfolding rows_ok_def row_stmt_def by auto

lemma stmt_open:
  assumes "hinv V C R T X n" and "stmt_native (T s) = Some x"
  obtains c a where "registered (T s)" "stmt_parent (T s) = Some c" "conn_native (C c) = Some a"
    "kstmts V x = Some a" "reg_conn T s = Some c"
  using hinvD(6) [OF assms(1)] assms(2) unfolding stmts_ok_def reg_conn_def by fastforce

lemma stmt_closed:
  assumes "hinv V C R T X n" and "stmt_native (T s) = None"
  shows "\<not> registered (T s)" "stmt_rows (T s) = 0" "row_stmt R r \<noteq> Some s"
proof -
  show "\<not> registered (T s)" using hinvD(6) [OF assms(1)] assms(2) by (auto simp: stmts_ok_def)
  have no: "row_stmt R r \<noteq> Some s" for r
    using hinvD(5) [OF assms(1)] assms(2) by (fastforce simp: rows_ok_def row_stmt_def split: if_splits)
  then show "row_stmt R r \<noteq> Some s" .
  have "count_upto n (\<lambda>r. row_stmt R r = Some s) = 0"
    by (rule count_upto_none) (simp add: no)
  then show "stmt_rows (T s) = 0"
    using hinvD(7) [OF assms(1)] by (simp add: counts_ok_def)
qed

lemma conn_closed:
  assumes "hinv V C R T X n" and "conn_native (C c) = None"
  shows "row_conn R r \<noteq> Some c" "reg_conn T s \<noteq> Some c" "\<not> txActive (C c)" "children (C c) = 0"
proof -
  have r: "row_conn R r \<noteq> Some c" for r
    using hinvD(5) [OF assms(1)] assms(2) by (fastforce simp: rows_ok_def row_conn_def split: if_splits)
  have s: "reg_conn T s \<noteq> Some c" for s
  proof
    assume "reg_conn T s = Some c"
    then have "registered (T s)" "stmt_parent (T s) = Some c" by (auto simp: reg_conn_def split: if_splits)
    moreover obtain x where "stmt_native (T s) = Some x"
      using hinvD(6) [OF assms(1)] calculation(1) by (auto simp: stmts_ok_def)
    ultimately show False
      using stmt_open [OF assms(1)] assms(2) by (metis option.distinct(1) option.inject)
  qed
  show "row_conn R r \<noteq> Some c" "reg_conn T s \<noteq> Some c" by (fact r, fact s)
  show "\<not> txActive (C c)" using hinvD(8) [OF assms(1)] assms(2) by (auto simp: txs_ok_def)
  show "children (C c) = 0"
    using hinvD(7) [OF assms(1)] r s by (simp add: counts_ok_def count_upto_none)
qed

lemma conn_idle:
  assumes "hinv V C R T X n" and "children (C c) = 0"
  shows "row_conn R r \<noteq> Some c" "reg_conn T s \<noteq> Some c"
proof -
  let ?f = "count_upto n (\<lambda>r. row_conn R r = Some c)" and ?g = "count_upto n (\<lambda>s. reg_conn T s = Some c)"
  have "?f + ?g = 0" using hinvD(7) [OF assms(1)] assms(2) by (simp add: counts_ok_def)
  moreover have "0 \<le> ?f" "0 \<le> ?g" by simp_all
  ultimately have "?f = 0" "?g = 0" by linarith+
  then have born: "\<forall>i < n. row_conn R i \<noteq> Some c" "\<forall>i < n. reg_conn T i \<noteq> Some c"
    by (simp_all add: count_upto_zero_iff)
  have unborn: "rows_native (R i) = None" "stmt_native (T i) = None" if "n \<le> i" for i
    using hinvD(9) [OF assms(1)] that by (simp_all add: fresh_objs_def)
  show "row_conn R r \<noteq> Some c"
    using born(1) unborn(1) [of r] by (cases "r < n") (auto simp: row_conn_def)
  show "reg_conn T s \<noteq> Some c"
    using born(2) unborn(2) [of s] stmt_closed(1) [OF assms(1), of s]
    by (cases "s < n") (auto simp: reg_conn_def)
qed

lemma idle_not_busy:
  assumes "hinv V C R T X n" and "conn_native (C c) = Some a" and "children (C c) = 0"
  shows "\<not> kbusy V a"
proof
  assume "kbusy V a"
  then obtain i where i: "krows V i = Some a \<or> kstmts V i = Some a" by (auto simp: kbusy_def)
  show False
  proof (cases "krows V i = Some a")
    case True
    then obtain r where r: "rows_native (R r) = Some i"
      using owns_owner [OF hinvD(2) [OF assms(1)], of i] by auto
    obtain c' a' where p: "conn_native (C c') = Some a'" "krows V i = Some a'" "row_conn R r = Some c'"
      by (rule rows_parent' [OF assms(1) r])
    then have "c' = c" using True assms(2) owns_inj [OF hinvD(1) [OF assms(1)]] by auto
    with p conn_idle(1) [OF assms(1,3)] show False by blast
  next
    case False
    then have k: "kstmts V i = Some a" using i by simp
    then obtain s where s: "stmt_native (T s) = Some i"
      using owns_owner [OF hinvD(3) [OF assms(1)], of i] by auto
    obtain c' a' where p: "conn_native (C c') = Some a'" "kstmts V i = Some a'" "reg_conn T s = Some c'"
      by (rule stmt_open [OF assms(1) s])
    then have "c' = c" using k assms(2) owns_inj [OF hinvD(1) [OF assms(1)]] by auto
    with p conn_idle(2) [OF assms(1,3)] show False by blast
  qed
qed

section \<open>Projections of updated heaps\<close>

lemma row_conn_upd [simp]:
  "row_conn (R(r := y)) = (row_conn R)(r := (if rows_native y = None then None else parentConn y))"
  "row_stmt (R(r := y)) = (row_stmt R)(r := (if rows_native y = None then None else parentStmt y))"
  "reg_conn (T(s := z)) = (reg_conn T)(s := (if registered z then stmt_parent z else None))"
  by (auto simp: fun_eq_iff row_conn_def row_stmt_def reg_conn_def)

lemma row_closed [simp]: "rows_native (R r) = None \<Longrightarrow> row_conn R r = None" "rows_native (R r) = None \<Longrightarrow> row_stmt R r = None"
  by (simp_all add: row_conn_def row_stmt_def)

lemma count_upto_upd:
  assumes "k < n"
  shows "count_upto n (\<lambda>i. (f(k := v)) i = Some c) =
    count_upto n (\<lambda>i. f i = Some c) - (if f k = Some c then 1 else 0) + (if v = Some c then 1 else 0)"
  using count_upto_change [OF assms, of "\<lambda>i. (f(k := v)) i = Some c" "\<lambda>i. f i = Some c"] by simp

lemma owns_fields:
  "owns (\<lambda>c. conn_native ((C(k := x)) c)) L = owns ((\<lambda>c. conn_native (C c))(k := conn_native x)) L"
  "owns (\<lambda>r. rows_native ((R(i := y)) r)) M = owns ((\<lambda>r. rows_native (R r))(i := rows_native y)) M"
  "owns (\<lambda>s. stmt_native ((T(j := z)) s)) N = owns ((\<lambda>s. stmt_native (T s))(j := stmt_native z)) N"
  "owns (\<lambda>t. tx_conn ((X(h := u)) t)) O' = owns ((\<lambda>t. tx_conn (X t))(h := tx_conn u)) O'"
  by (auto intro!: arg_cong [where f = "\<lambda>f. owns f _"] simp: fun_eq_iff)

lemma map_dom_upd:
  "(\<lambda>x. (m(i \<mapsto> a)) x \<noteq> None) = (\<lambda>x. m x \<noteq> None)(i := True)"
  "(\<lambda>x. (m(i := None)) x \<noteq> None) = (\<lambda>x. m x \<noteq> None)(i := False)"
  by (simp_all add: fun_eq_iff)

section \<open>Steps\<close>

text \<open>A new address.\<close>

lemma hinv_grow:
  assumes "hinv V C R T X n"
  shows "hinv V C R T X (Suc n)"
proof -
  have "rows_native (R n) = None" "stmt_native (T n) = None"
    using hinvD(9) [OF assms] by (simp_all add: fresh_objs_def)
  then have "row_stmt R n = None" "row_conn R n = None" "reg_conn T n = None"
    using stmt_closed(1) [OF assms] by (auto simp: reg_conn_def)
  then have "counts_ok C R T (Suc n)"
    using hinvD(7) [OF assms] by (simp add: counts_ok_def count_upto_Suc) metis
  moreover have "fresh_objs C R T X (Suc n)"
    using hinvD(9) [OF assms] by (simp add: fresh_objs_def)
  ultimately show ?thesis using assms by (simp add: hinv_def)
qed

text \<open>Only a cursor position or a closed object changes.\<close>

lemma hinv_rows_same:
  assumes h: "hinv V C R T X n"
    and same: "rows_native y = rows_native (R r)" "parentConn y = parentConn (R r) \<or> rows_native y = None"
      "parentStmt y = parentStmt (R r) \<or> rows_native y = None"
  shows "hinv V C (R(r := y)) T X n"
proof -
  let ?R = "R(r := y)"
  have n: "rows_native (?R i) = rows_native (R i)" for i using same(1) by simp
  have c: "row_conn ?R = row_conn R" "row_stmt ?R = row_stmt R"
    using same by (auto simp: fun_eq_iff row_conn_def row_stmt_def)
  have "natives_ok V C ?R T" using hinvD(1-4) [OF h] n by (simp only: natives_ok_def) simp
  moreover have "rows_ok V C ?R T" using hinvD(5) [OF h] same by (auto simp: rows_ok_def)
  moreover have "counts_ok C ?R T n" using hinvD(7) [OF h] unfolding counts_ok_def c .
  moreover have "fresh_objs C ?R T X n" using hinvD(9) [OF h] by (simp only: fresh_objs_def n)
  ultimately show ?thesis using h by (simp add: hinv_def)
qed

text \<open>Opening and closing a connection.\<close>

lemma hinv_conn_add:
  assumes h: "hinv V C R T X n" and new: "\<not> kopen V a" and c: "c < n" "conn_native (C c) = None"
  shows "hinv (V\<lparr>kopen := (kopen V)(a := True)\<rparr>)
    (C(c := \<lparr>conn_native = Some a, txActive = False, children = 0\<rparr>)) R T X n"
proof -
  let ?V = "V\<lparr>kopen := (kopen V)(a := True)\<rparr>" and
    ?C = "C(c := \<lparr>conn_native = Some a, txActive = False, children = 0\<rparr>)"
  note k = conn_closed [OF h c(2)]
  have "natives_ok ?V ?C R T"
    using hinvD(1-4) [OF h] c new by (simp add: natives_ok_def owns_fields owns_give del: fun_upd_apply)
  moreover have "rows_ok ?V ?C R T"
    using hinvD(5) [OF h] c(2) by (fastforce simp: rows_ok_def)
  moreover have "stmts_ok ?V ?C T"
    using hinvD(6) [OF h] c(2) by (fastforce simp: stmts_ok_def)
  moreover have "counts_ok ?C R T n"
    using hinvD(7) [OF h] k(4) by (simp add: counts_ok_def) metis
  moreover have "txs_ok ?C X"
  proof -
    have "(\<lambda>x. txActive (?C x)) = (\<lambda>x. txActive (C x))" using k(3) by (simp add: fun_eq_iff)
    then show ?thesis using hinvD(8) [OF h] k(3) unfolding txs_ok_def by auto
  qed
  moreover have "fresh_objs ?C R T X n"
    using hinvD(9) [OF h] c by (simp add: fresh_objs_def)
  ultimately show ?thesis by (simp add: hinv_def)
qed

lemma hinv_conn_drop:
  assumes h: "hinv V C R T X n" and c: "conn_native (C c) = Some a" "children (C c) = 0" "\<not> txActive (C c)"
  shows "hinv (V\<lparr>kopen := (kopen V)(a := False)\<rparr>) (C(c := (C c)\<lparr>conn_native := None\<rparr>)) R T X n"
proof -
  let ?V = "V\<lparr>kopen := (kopen V)(a := False)\<rparr>" and ?C = "C(c := (C c)\<lparr>conn_native := None\<rparr>)"
  have "natives_ok ?V ?C R T"
    using hinvD(1-4) [OF h] c by (simp add: natives_ok_def owns_fields owns_drop del: fun_upd_apply)
  moreover have "rows_ok ?V ?C R T"
    unfolding rows_ok_def
  proof (intro allI impI conjI)
    fix r x assume r: "rows_native (R r) = Some x"
    obtain c' a' where p: "parentConn (R r) = Some c'" "conn_native (C c') = Some a'" "krows V x = Some a'"
        "row_conn R r = Some c'"
      by (rule rows_parent' [OF h r])
    moreover have "c' \<noteq> c" using conn_idle(1) [OF h c(2), of r] p(4) by blast
    ultimately show "\<exists>c' a'. parentConn (R r) = Some c' \<and> conn_native (?C c') = Some a' \<and> krows ?V x = Some a'"
      by simp
    fix s assume "parentStmt (R r) = Some s"
    from rows_stmt(1,2) [OF h r this] show "stmt_native (T s) \<noteq> None" "stmt_parent (T s) = parentConn (R r)" .
  qed
  moreover have "stmts_ok ?V ?C T"
    unfolding stmts_ok_def
  proof (intro allI impI conjI)
    fix s x assume s: "stmt_native (T s) = Some x"
    obtain c' a' where p: "registered (T s)" "stmt_parent (T s) = Some c'" "conn_native (C c') = Some a'"
        "kstmts V x = Some a'" "reg_conn T s = Some c'"
      by (rule stmt_open [OF h s])
    moreover have "c' \<noteq> c" using conn_idle(2) [OF h c(2), of s] p(5) by blast
    ultimately show "registered (T s)"
      "\<exists>c' a'. stmt_parent (T s) = Some c' \<and> conn_native (?C c') = Some a' \<and> kstmts ?V x = Some a'"
      by simp_all
  next
    fix s assume "registered (T s)"
    with stmt_closed(1) [OF h] show "stmt_native (T s) \<noteq> None" by blast
  qed
  moreover have "counts_ok ?C R T n"
    using hinvD(7) [OF h] by (simp add: counts_ok_def) metis
  moreover have "txs_ok ?C X"
  proof -
    have "(\<lambda>x. txActive (?C x)) = (\<lambda>x. txActive (C x))" by (simp add: fun_eq_iff)
    then show ?thesis using hinvD(8) [OF h] c(3) unfolding txs_ok_def by auto
  qed
  moreover have "fresh_objs ?C R T X n"
    using hinvD(9) [OF h] by (simp add: fresh_objs_def)
  ultimately show ?thesis by (simp add: hinv_def)
qed

text \<open>Counters after a change of one object.\<close>

lemma countsD:
  assumes "hinv V C R T X n"
  shows "stmt_rows (T s) = count_upto n (\<lambda>r. row_stmt R r = Some s)" "stmt_rows (T s) \<le> 1"
    "children (C c) = count_upto n (\<lambda>r. row_conn R r = Some c) + count_upto n (\<lambda>s. reg_conn T s = Some c)"
  using hinvD(7) [OF assms] unfolding counts_ok_def by blast+

lemma born:
  assumes "hinv V C R T X n"
  shows "conn_native (C i) \<noteq> None \<Longrightarrow> i < n" "rows_native (R i) \<noteq> None \<Longrightarrow> i < n"
    "stmt_native (T i) \<noteq> None \<Longrightarrow> i < n" "tx_conn (X i) \<noteq> None \<Longrightarrow> i < n"
  using hinvD(9) [OF assms] unfolding fresh_objs_def by (metis not_le)+

lemma row_counts:
  assumes h: "hinv V C R T X n" and r: "rows_native (R r) = Some x"
  shows "parentConn (R r) = Some c \<Longrightarrow> 0 < children (C c)"
    "parentStmt (R r) = Some s \<Longrightarrow> stmt_rows (T s) = 1"
proof -
  have n: "r < n" using born(2) [OF h] r by simp
  have pos: "0 < count_upto n P" if "P r" for P
    using that n count_upto_zero_iff [of n P] count_upto_nonneg [of n P] by (metis order_le_less)
  show "0 < children (C c)" if "parentConn (R r) = Some c"
  proof -
    have "row_conn R r = Some c" using that r by (simp add: row_conn_def)
    from pos [of "\<lambda>r. row_conn R r = Some c", OF this] show ?thesis
      using countsD(3) [OF h, of c] count_upto_nonneg [of n "\<lambda>s. reg_conn T s = Some c"] by linarith
  qed
  show "stmt_rows (T s) = 1" if "parentStmt (R r) = Some s"
  proof -
    have "row_stmt R r = Some s" using that r by (simp add: row_stmt_def)
    from pos [of "\<lambda>r. row_stmt R r = Some s", OF this] show ?thesis
      using countsD(1,2) [OF h, of s] by linarith
  qed
qed

lemma stmt_counts:
  assumes h: "hinv V C R T X n" and s: "stmt_native (T s) = Some x" and c: "stmt_parent (T s) = Some c"
  shows "0 < children (C c)"
proof -
  have n: "s < n" using born(3) [OF h] s by simp
  have "reg_conn T s = Some c" using stmt_open [OF h s] c by auto
  then have "count_upto n (\<lambda>s. reg_conn T s = Some c) \<noteq> 0" using n by (auto simp: count_upto_zero_iff)
  then show ?thesis
    using countsD(3) [OF h, of c] count_upto_nonneg [of n "\<lambda>s. reg_conn T s = Some c"]
      count_upto_nonneg [of n "\<lambda>r. row_conn R r = Some c"] by linarith
qed

lemma stmt_no_rows:
  assumes h: "hinv V C R T X n" and s: "stmt_rows (T s) = 0"
  shows "row_stmt R r \<noteq> Some s"
proof (cases "r < n")
  case True
  with countsD(1) [OF h, of s] s show ?thesis by (simp add: count_upto_zero_iff)
next
  case False
  then have "rows_native (R r) = None" using born(2) [OF h] by blast
  then show ?thesis by simp
qed

text \<open>A result set is opened on a connection, and possibly on a statement, or closed.\<close>

lemma hinv_rows_add:
  assumes h: "hinv V C R T X n" and r: "r < n" "rows_native (R r) = None" and x: "krows V x = None"
    and c: "conn_native (C c) = Some a"
    and y: "rows_native y = Some x" "parentConn y = Some c"
    and V: "V' = V\<lparr>krows := (krows V)(x \<mapsto> a)\<rparr>"
    and C: "C' = C(c := (C c)\<lparr>children := children (C c) + 1\<rparr>)"
    and T: "case parentStmt y of None \<Rightarrow> T' = T | Some s \<Rightarrow> stmt_native (T s) \<noteq> None \<and> stmt_parent (T s) = Some c \<and>
       stmt_rows (T s) = 0 \<and> T' = T(s := (T s)\<lparr>stmt_rows := 1\<rparr>)"
  shows "hinv V' C' (R(r := y)) T' X n"
proof -
  let ?R = "R(r := y)"
  have t: "stmt_native (T' s) = stmt_native (T s)" "stmt_parent (T' s) = stmt_parent (T s)"
      "registered (T' s) = registered (T s)" "reg_conn T' = reg_conn T"
      "stmt_rows (T' s) = stmt_rows (T s) + (if parentStmt y = Some s then 1 else 0)" for s
    using T by (auto simp: reg_conn_def fun_eq_iff split: option.splits)
  have cn: "conn_native (C' i) = conn_native (C i)" "txActive (C' i) = txActive (C i)" for i
    using C by auto
  have ri: "rows_native (?R i) = rows_native (R i)" if "i \<noteq> r" for i using that by simp
  have "natives_ok V' C' ?R T'"
    using hinvD(1-4) [OF h] r(2) x
    by (simp add: V natives_ok_def owns_fields map_dom_upd y cn t owns_give del: fun_upd_apply not_None_eq)
  moreover have "rows_ok V' C' ?R T'"
    unfolding rows_ok_def
  proof (intro allI impI conjI)
    fix i z assume i: "rows_native (?R i) = Some z"
    show "\<exists>c a. parentConn (?R i) = Some c \<and> conn_native (C' c) = Some a \<and> krows V' z = Some a"
    proof (cases "i = r")
      case False
      then have i': "rows_native (R i) = Some z" using i by simp
      have "z \<noteq> x" using rows_parent_ex [OF h i'] x by auto
      then show ?thesis
        using rows_parent_ex [OF h i'] False by (simp add: V cn)
    next
      case True
      then have "z = x" using i y by simp
      then show ?thesis using True y c by (simp add: V cn)
    qed
    fix s assume s: "parentStmt (?R i) = Some s"
    have "stmt_native (T s) \<noteq> None \<and> stmt_parent (T s) = parentConn (?R i)"
    proof (cases "i = r")
      case True
      with s T y show ?thesis by simp
    next
      case False
      with rows_stmt(1,2) [OF h, of i z s] i s show ?thesis by simp
    qed
    then show "stmt_native (T' s) \<noteq> None" "stmt_parent (T' s) = parentConn (?R i)" by (simp_all add: t)
  qed
  moreover have "stmts_ok V' C' T'"
    using hinvD(6) [OF h] by (simp add: stmts_ok_def t cn V)
  moreover have "counts_ok C' ?R T' n"
    unfolding counts_ok_def
  proof (intro conjI allI)
    have none: "row_conn R r = None" "row_stmt R r = None" using r(2) by simp_all
    fix s
    show "stmt_rows (T' s) = count_upto n (\<lambda>i. row_stmt ?R i = Some s)"
      unfolding row_conn_upd(2) count_upto_upd [OF r(1)] t countsD(1) [OF h] none using y by simp
    show "stmt_rows (T' s) \<le> 1"
      using countsD(2) [OF h, of s] T by (auto simp: t)
    fix d
    show "children (C' d) = count_upto n (\<lambda>i. row_conn ?R i = Some d) + count_upto n (\<lambda>s. reg_conn T' s = Some d)"
      unfolding row_conn_upd(1) count_upto_upd [OF r(1)] t none using y countsD(3) [OF h] C by simp
  qed
  moreover have "txs_ok C' X" using hinvD(8) [OF h] by (simp add: txs_ok_def cn)
  moreover have "fresh_objs C' ?R T' X n" using hinvD(9) [OF h] r(1) by (simp add: fresh_objs_def cn t)
  ultimately show ?thesis by (simp add: hinv_def)
qed

lemma hinv_rows_drop:
  assumes h: "hinv V C R T X n" and x: "rows_native (R r) = Some x" and c: "parentConn (R r) = Some c"
    and y: "rows_native y = None"
    and V: "V' = V\<lparr>krows := (krows V)(x := None)\<rparr>"
    and C: "C' = C(c := (C c)\<lparr>children := children (C c) - 1\<rparr>)"
    and T: "T' = (case parentStmt (R r) of None \<Rightarrow> T | Some s \<Rightarrow> T(s := (T s)\<lparr>stmt_rows := 0\<rparr>))"
  shows "hinv V' C' (R(r := y)) T' X n"
proof -
  let ?R = "R(r := y)"
  have n: "r < n" using born(2) [OF h] x by simp
  have t: "stmt_native (T' s) = stmt_native (T s)" "stmt_parent (T' s) = stmt_parent (T s)"
      "registered (T' s) = registered (T s)" "reg_conn T' = reg_conn T"
      "stmt_rows (T' s) = stmt_rows (T s) - (if parentStmt (R r) = Some s then 1 else 0)" for s
    using row_counts(2) [OF h x] by (auto simp: T reg_conn_def fun_eq_iff split: option.splits)
  have cn: "conn_native (C' i) = conn_native (C i)" "txActive (C' i) = txActive (C i)" for i
    using C by auto
  have some: "row_conn R r = Some c" "row_stmt R r = parentStmt (R r)"
    using x c by (simp_all add: row_conn_def row_stmt_def)
  have "natives_ok V' C' ?R T'"
    using hinvD(1-4) [OF h] x
    by (simp add: V natives_ok_def owns_fields map_dom_upd y cn t owns_drop del: fun_upd_apply not_None_eq)
  moreover have "rows_ok V' C' ?R T'"
    unfolding rows_ok_def
  proof (intro allI impI conjI)
    fix i z assume "rows_native (?R i) = Some z"
    then have i: "i \<noteq> r" "rows_native (R i) = Some z" using y by (auto split: if_splits)
    then have "z \<noteq> x" using x owns_inj [OF hinvD(2) [OF h]] by blast
    then show "\<exists>c a. parentConn (?R i) = Some c \<and> conn_native (C' c) = Some a \<and> krows V' z = Some a"
      using rows_parent_ex [OF h i(2)] i(1) by (simp add: V cn)
    fix s assume "parentStmt (?R i) = Some s"
    then show "stmt_native (T' s) \<noteq> None" "stmt_parent (T' s) = parentConn (?R i)"
      using rows_stmt(1,2) [OF h i(2)] i(1) by (simp_all add: t)
  qed
  moreover have "stmts_ok V' C' T'"
    using hinvD(6) [OF h] by (simp add: stmts_ok_def t cn V)
  moreover have "counts_ok C' ?R T' n"
    unfolding counts_ok_def
  proof (intro conjI allI)
    fix s
    show "stmt_rows (T' s) = count_upto n (\<lambda>i. row_stmt ?R i = Some s)"
      unfolding row_conn_upd(2) count_upto_upd [OF n] t countsD(1) [OF h] some using y by simp
    show "stmt_rows (T' s) \<le> 1"
      using countsD(2) [OF h, of s] by (simp add: t)
    fix d
    show "children (C' d) = count_upto n (\<lambda>i. row_conn ?R i = Some d) + count_upto n (\<lambda>s. reg_conn T' s = Some d)"
      unfolding row_conn_upd(1) count_upto_upd [OF n] t some using y countsD(3) [OF h] C by simp
  qed
  moreover have "txs_ok C' X" using hinvD(8) [OF h] by (simp add: txs_ok_def cn)
  moreover have "fresh_objs C' ?R T' X n" using hinvD(9) [OF h] n by (simp add: fresh_objs_def cn t)
  ultimately show ?thesis by (simp add: hinv_def)
qed

text \<open>A statement is prepared, or closed when no result set reads from it.\<close>

lemma hinv_stmt_add:
  assumes h: "hinv V C R T X n" and s: "s < n" "stmt_native (T s) = None" and x: "kstmts V x = None"
    and c: "conn_native (C c) = Some a"
    and z: "stmt_native z = Some x" "stmt_parent z = Some c" "registered z" "stmt_rows z = 0"
    and V: "V' = V\<lparr>kstmts := (kstmts V)(x \<mapsto> a)\<rparr>"
    and C: "C' = C(c := (C c)\<lparr>children := children (C c) + 1\<rparr>)"
  shows "hinv V' C' R (T(s := z)) X n"
proof -
  let ?T = "T(s := z)"
  note k = stmt_closed [OF h s(2)]
  have cn: "conn_native (C' i) = conn_native (C i)" "txActive (C' i) = txActive (C i)" for i
    using C by auto
  have none: "reg_conn T s = None" using k(1) by (simp add: reg_conn_def)
  have "natives_ok V' C' R ?T"
    using hinvD(1-4) [OF h] s x
    by (simp add: V natives_ok_def owns_fields map_dom_upd z cn owns_give del: fun_upd_apply not_None_eq)
  moreover have "rows_ok V' C' R ?T"
    unfolding rows_ok_def
  proof (intro allI impI conjI)
    fix i y assume i: "rows_native (R i) = Some y"
    then show "\<exists>c a. parentConn (R i) = Some c \<and> conn_native (C' c) = Some a \<and> krows V' y = Some a"
      using rows_parent_ex [OF h i] by (simp add: V cn)
    fix q assume q: "parentStmt (R i) = Some q"
    have "q \<noteq> s" using rows_stmt(3) [OF h i q] k(3) [of i] by blast
    then show "stmt_native (?T q) \<noteq> None" "stmt_parent (?T q) = parentConn (R i)"
      using rows_stmt(1,2) [OF h i q] by simp_all
  qed
  moreover have "stmts_ok V' C' ?T"
    unfolding stmts_ok_def
  proof (intro conjI allI impI)
    fix i y assume i: "stmt_native (?T i) = Some y"
    show "registered (?T i)"
      using i z(3) stmt_parent_ex(2) [OF h, of i y] by (cases "i = s") simp_all
    show "\<exists>c a. stmt_parent (?T i) = Some c \<and> conn_native (C' c) = Some a \<and> kstmts V' y = Some a"
    proof (cases "i = s")
      case True
      then have "y = x" using i z(1) by simp
      then show ?thesis using True z c by (simp add: V cn)
    next
      case False
      then have i': "stmt_native (T i) = Some y" using i by simp
      have "y \<noteq> x" using stmt_parent_ex(1) [OF h i'] x by auto
      then show ?thesis using stmt_parent_ex(1) [OF h i'] False by (simp add: V cn)
    qed
  next
    fix i assume "registered (?T i)"
    then show "stmt_native (?T i) \<noteq> None"
      using z(1) stmt_closed(1) [OF h, of i] by (cases "i = s") auto
  qed
  moreover have "counts_ok C' R ?T n"
    unfolding counts_ok_def
  proof (intro conjI allI)
    fix i
    show "stmt_rows (?T i) = count_upto n (\<lambda>r. row_stmt R r = Some i)" "stmt_rows (?T i) \<le> 1"
      using countsD(1,2) [OF h, of i] k(2) z(4) by auto
    fix d
    show "children (C' d) = count_upto n (\<lambda>i. row_conn R i = Some d) + count_upto n (\<lambda>s. reg_conn ?T s = Some d)"
      unfolding row_conn_upd(3) count_upto_upd [OF s(1)] none using z countsD(3) [OF h] C by simp
  qed
  moreover have "txs_ok C' X" using hinvD(8) [OF h] by (simp add: txs_ok_def cn)
  moreover have "fresh_objs C' R ?T X n" using hinvD(9) [OF h] s(1) by (simp add: fresh_objs_def cn)
  ultimately show ?thesis by (simp add: hinv_def)
qed

lemma hinv_stmt_drop:
  assumes h: "hinv V C R T X n" and x: "stmt_native (T s) = Some x" and c: "stmt_parent (T s) = Some c"
    and idle: "stmt_rows (T s) = 0"
    and z: "stmt_native z = None" "\<not> registered z" "stmt_rows z = 0"
    and V: "V' = V\<lparr>kstmts := (kstmts V)(x := None)\<rparr>"
    and C: "C' = C(c := (C c)\<lparr>children := children (C c) - 1\<rparr>)"
  shows "hinv V' C' R (T(s := z)) X n"
proof -
  let ?T = "T(s := z)"
  have n: "s < n" using born(3) [OF h] x by simp
  have cn: "conn_native (C' i) = conn_native (C i)" "txActive (C' i) = txActive (C i)" for i
    using C by auto
  have some: "reg_conn T s = Some c" using stmt_parent_ex(2) [OF h x] c by (simp add: reg_conn_def)
  have other: "q \<noteq> s" if "rows_native (R i) = Some y" "parentStmt (R i) = Some q" for i y q
    using rows_stmt(3) [OF h that] stmt_no_rows [OF h idle, of i] by blast
  have "natives_ok V' C' R ?T"
    using hinvD(1-4) [OF h] x
    by (simp add: V natives_ok_def owns_fields map_dom_upd z cn owns_drop del: fun_upd_apply not_None_eq)
  moreover have "rows_ok V' C' R ?T"
    unfolding rows_ok_def
  proof (intro allI impI conjI)
    fix i y assume i: "rows_native (R i) = Some y"
    then show "\<exists>c a. parentConn (R i) = Some c \<and> conn_native (C' c) = Some a \<and> krows V' y = Some a"
      using rows_parent_ex [OF h i] by (simp add: V cn)
    fix q assume q: "parentStmt (R i) = Some q"
    then show "stmt_native (?T q) \<noteq> None" "stmt_parent (?T q) = parentConn (R i)"
      using rows_stmt(1,2) [OF h i q] other [OF i q] by simp_all
  qed
  moreover have "stmts_ok V' C' ?T"
    unfolding stmts_ok_def
  proof (intro conjI allI impI)
    fix i y assume "stmt_native (?T i) = Some y"
    then have i: "i \<noteq> s" "stmt_native (T i) = Some y" using z(1) by (auto split: if_splits)
    then have "y \<noteq> x" using x owns_inj [OF hinvD(3) [OF h]] by blast
    then show "registered (?T i)"
      "\<exists>c a. stmt_parent (?T i) = Some c \<and> conn_native (C' c) = Some a \<and> kstmts V' y = Some a"
      using stmt_parent_ex [OF h i(2)] i(1) by (simp_all add: V cn)
  next
    fix i assume "registered (?T i)"
    then show "stmt_native (?T i) \<noteq> None"
      using z(2) stmt_closed(1) [OF h, of i] by (cases "i = s") auto
  qed
  moreover have "counts_ok C' R ?T n"
    unfolding counts_ok_def
  proof (intro conjI allI)
    fix i
    show "stmt_rows (?T i) = count_upto n (\<lambda>r. row_stmt R r = Some i)" "stmt_rows (?T i) \<le> 1"
      using countsD(1,2) [OF h, of i] idle z(3) by auto
    fix d
    show "children (C' d) = count_upto n (\<lambda>i. row_conn R i = Some d) + count_upto n (\<lambda>s. reg_conn ?T s = Some d)"
      unfolding row_conn_upd(3) count_upto_upd [OF n] some using z countsD(3) [OF h] C by simp
  qed
  moreover have "txs_ok C' X" using hinvD(8) [OF h] by (simp add: txs_ok_def cn)
  moreover have "fresh_objs C' R ?T X n" using hinvD(9) [OF h] n by (simp add: fresh_objs_def cn)
  ultimately show ?thesis by (simp add: hinv_def)
qed

text \<open>A transaction begins or ends.\<close>

lemma hinv_tx:
  assumes h: "hinv V C R T X n" and "txs_ok C' X'"
    and "\<And>i. conn_native (C' i) = conn_native (C i)" "\<And>i. children (C' i) = children (C i)"
    and "\<forall>i \<ge> n. tx_conn (X' i) = None"
  shows "hinv V C' R T X' n"
proof -
  have "counts_ok C' R T n"
    using hinvD(7) [OF h] unfolding counts_ok_def assms(4) .
  with assms show ?thesis
    by (simp add: hinv_def natives_ok_def rows_ok_def stmts_ok_def fresh_objs_def)
qed

lemma hinv_tx_add:
  assumes h: "hinv V C R T X n" and t: "t < n" "tx_conn (X t) = None"
    and c: "conn_native (C c) \<noteq> None" "\<not> txActive (C c)"
  shows "hinv V (C(c := (C c)\<lparr>txActive := True\<rparr>)) R T (X(t := \<lparr>tx_conn = Some c, tx_done = False\<rparr>)) n"
proof (rule hinv_tx [OF h])
  let ?C = "C(c := (C c)\<lparr>txActive := True\<rparr>)" and ?X = "X(t := \<lparr>tx_conn = Some c, tx_done = False\<rparr>)"
  have "(\<lambda>i. txActive (?C i)) = (\<lambda>i. txActive (C i))(c := True)" by (simp add: fun_eq_iff)
  then have "owns (\<lambda>t. tx_conn (?X t)) (\<lambda>i. txActive (?C i))"
    using hinvD(8) [OF h] t(2) c(2) by (simp add: txs_ok_def owns_fields owns_give del: fun_upd_apply)
  moreover have "\<not> tx_done (?X i)" if "tx_conn (?X i) \<noteq> None" for i
    using that hinvD(8) [OF h] by (cases "i = t") (auto simp: txs_ok_def)
  moreover have "conn_native (?C i) \<noteq> None" if "txActive (?C i)" for i
    using that hinvD(8) [OF h] c(1) by (cases "i = c") (auto simp: txs_ok_def)
  ultimately show "txs_ok ?C ?X" unfolding txs_ok_def by blast
qed (use hinvD(9) [OF h] t(1) in \<open>auto simp: fresh_objs_def\<close>)

lemma hinv_tx_drop:
  assumes h: "hinv V C R T X n" and t: "tx_conn (X t) = Some c" and x: "tx_conn x = None"
  shows "hinv V (C(c := (C c)\<lparr>txActive := False\<rparr>)) R T (X(t := x)) n"
proof (rule hinv_tx [OF h])
  let ?C = "C(c := (C c)\<lparr>txActive := False\<rparr>)" and ?X = "X(t := x)"
  have "(\<lambda>i. txActive (?C i)) = (\<lambda>i. txActive (C i))(c := False)" by (simp add: fun_eq_iff)
  then have "owns (\<lambda>t. tx_conn (?X t)) (\<lambda>i. txActive (?C i))"
    using hinvD(8) [OF h] t x by (simp add: txs_ok_def owns_fields owns_drop del: fun_upd_apply)
  moreover have "\<not> tx_done (?X i)" if "tx_conn (?X i) \<noteq> None" for i
    using that x hinvD(8) [OF h] by (cases "i = t") (auto simp: txs_ok_def)
  moreover have "conn_native (?C i) \<noteq> None" if "txActive (?C i)" for i
    using that hinvD(8) [OF h] by (cases "i = c") (auto simp: txs_ok_def)
  ultimately show "txs_ok ?C ?X" unfolding txs_ok_def by blast
qed (use hinvD(9) [OF h] x in \<open>auto simp: fresh_objs_def\<close>)

end
