(* ===== verification/Cube_Core_Safety.thy ===== *)
theory Cube_Core_Safety
  imports Cube_Core_Heap
begin

text \<open>
  Every method of the public package keeps the invariant of \<^verbatim>\<open>Cube_Core_Heap\<close> and the set of mutexes
  it was called with. The methods that open or close an object are specified first; the others follow.
\<close>

section \<open>Frames\<close>

definition hok :: "acore \<Rightarrow> bool" where
  "hok A \<longleftrightarrow> hinv (a_view A) (a_conns A) (a_rows A) (a_stmts A) (a_txs A) (a_next A)"

text \<open>
  A method that keeps \<open>I\<close>, whatever it returns: the invariant with the mutexes \<open>L\<close> held, or one
  particular abstract state.
\<close>

definition keeps :: "(acore \<Rightarrow> bool) \<Rightarrow> (core, 'a) state \<Rightarrow> bool" where
  "keeps I m \<longleftrightarrow> (\<forall>A. I A \<longrightarrow> awp m (\<lambda>_. I) A)"

definition ready :: "lock list \<Rightarrow> acore \<Rightarrow> bool" where
  "ready L = (\<lambda>A. hok A \<and> a_held A = L)"

text \<open>
  The mutexes a method may be called with: those of the \<^verbatim>\<open>database/sql\<close> adapter, and for methods that a
  transaction calls also those of transactions.
\<close>

fun adapter_lock :: "lock \<Rightarrow> bool" where
  "adapter_lock (LAdConn _) = True"
| "adapter_lock (LAdStmt _) = True"
| "adapter_lock (LAdTx _) = True"
| "adapter_lock _ = False"

definition under_ad :: "lock list \<Rightarrow> bool" where
  "under_ad L \<longleftrightarrow> list_all adapter_lock L"

definition under_tx :: "lock list \<Rightarrow> bool" where
  "under_tx L \<longleftrightarrow> list_all (\<lambda>l. adapter_lock l \<or> (\<exists>t. l = LTx t)) L"

lemma under_ad_simps [simp]:
  "under_ad []" "under_ad (l # L) = (adapter_lock l \<and> under_ad L)"
  "under_ad L \<Longrightarrow> under_tx L" "under_ad L \<Longrightarrow> LTx t \<notin> set L"
  "under_tx (LTx t # L) = under_tx L"
  by (auto simp: under_ad_def under_tx_def list_all_iff)

lemma under_tx_simps [simp]:
  "under_tx []"
  "under_tx L \<Longrightarrow> LConn c \<notin> set L" "under_tx L \<Longrightarrow> LStmt s \<notin> set L" "under_tx L \<Longrightarrow> LRows r \<notin> set L"
  by (auto simp: under_tx_def list_all_iff)

lemma cs_lock_simps [simp]: "\<not> cs_lock (LConn c)" "\<not> cs_lock (LStmt s)" "\<not> cs_lock (LRows r)" "\<not> cs_lock (LTx t)"
  by simp_all

lemma hok_init: "hok (abs_core core_init)"
  using hinv_init by (simp add: hok_def abs_core_def core_init_def)

text \<open>Rules for goals whose postcondition is a pair of continuations.\<close>

lemma either_any: "(\<And>e. E e s) \<Longrightarrow> (\<And>v. P v s) \<Longrightarrow> either E P r s"
  by (cases r) simp_all

lemma either_Inl: "E e s \<Longrightarrow> either E P (Inl e) s"
  by simp

lemma either_Inr: "P v s \<Longrightarrow> either E P (Inr v) s"
  by simp

lemma awp_coE_either: "awp (coC m) (either (\<lambda>e. E (publicError e)) P) A \<Longrightarrow> awp (coE m) (either E P) A"
  by (rule awp_coE) (simp add: either_def cong: sum.case_cong)

lemma awp_mapE_either: "awp m (either (\<lambda>e. E (f e)) P) A \<Longrightarrow> awp (mapE f m) (either E P) A"
  by (rule awp_mapE) (simp add: either_def cong: sum.case_cong)

lemmas awp_simple = awp_throw awp_ok awp_bind awp_catchE awp_tryE awp_coE_either awp_mapE_either
  awp_contextError [OF either_any] awp_quiet_calls [OF either_any] either_Inl either_Inr

section \<open>Opening a result set\<close>

text \<open>
  A result set under construction at \<open>r\<close>: its native cursor \<open>x\<close> is open and it has no parent yet.
\<close>

definition building :: "acore \<Rightarrow> nat \<Rightarrow> nat \<Rightarrow> acore \<Rightarrow> bool" where
  "building A x r B \<longleftrightarrow> r = a_next A \<and> (\<exists>y. rows_native y = Some x \<and> parentConn y = None \<and>
     parentStmt y = None \<and> closeStmt y = False \<and> B = A\<lparr>a_rows := (a_rows A)(r := y), a_next := Suc r\<rparr>)"

text \<open>The state after a failure: the native cursor is closed, at most one closed object was allocated.\<close>

definition abandoned :: "acore \<Rightarrow> nat \<Rightarrow> acore \<Rightarrow> bool" where
  "abandoned A x B \<longleftrightarrow> (let V = (a_view A)\<lparr>krows := (krows (a_view A))(x := None)\<rparr> in
     B = A\<lparr>a_view := V\<rparr> \<or>
     (\<exists>y. rows_native y = None \<and>
        B = A\<lparr>a_view := V, a_rows := (a_rows A)(a_next A := y), a_next := Suc (a_next A)\<rparr>))"

lemma awp_releaseChild:
  assumes "c = None \<Longrightarrow> Q () A"
    and "\<And>k. c = Some k \<Longrightarrow> LConn k \<notin> set (a_held A) \<and> Q () (A\<lparr>a_conns := (a_conns A)(k :=
      (if children (a_conns A k) > 0 then (a_conns A k)\<lparr>children := children (a_conns A k) - 1\<rparr> else a_conns A k))\<rparr>)"
  shows "awp (releaseChild c) Q A"
proof (cases c)
  case None
  with assms(1) show ?thesis by (simp add: releaseChild_def awp_return)
next
  case (Some k)
  with assms(2) [OF Some] show ?thesis
    unfolding releaseChild_def Some option.case
    by (intro awp_locked awp_upd) (auto split: if_splits)
qed

lemma building_close:
  assumes "building A x r B" and "LRows r \<notin> set (a_held A)"
  shows "awp (Rows_Close S (Some r)) (\<lambda>_. abandoned A x) B"
proof -
  obtain y where y: "rows_native y = Some x" "parentConn y = None" "parentStmt y = None" "closeStmt y = False"
    and B: "r = a_next A" "B = A\<lparr>a_rows := (a_rows A)(r := y), a_next := Suc r\<rparr>"
    using assms(1) by (auto simp: building_def)
  let ?y = "y\<lparr>rows_native := None, parentConn := None, parentStmt := None, closeStmt := False\<rparr>"
  have end_: "abandoned A x (A\<lparr>a_next := Suc (a_next A), a_rows := (a_rows A)(a_next A := ?y),
      a_view := (a_view A)\<lparr>krows := (krows (a_view A))(x := None)\<rparr>\<rparr>)"
    unfolding abandoned_def Let_def by (intro disjI2 exI [of _ ?y]) simp
  show ?thesis
    unfolding Rows_Close_def option.case
    by (intro awp_locked awp_steps awp_releaseChild)
      (use assms(2) y B end_ in \<open>simp_all add: join_errors_def error_of_def awp_ok awp_return\<close>)
qed

lemma building_upd:
  assumes "building A x r B"
    and "\<And>y. rows_native (f y) = rows_native y \<and> parentConn (f y) = parentConn y \<and>
      parentStmt (f y) = parentStmt y \<and> closeStmt (f y) = closeStmt y"
  shows "building A x r (B\<lparr>a_rows := (a_rows B)(r := f (a_rows B r))\<rparr>)"
  using assms unfolding building_def by fastforce

lemma awp_read_column:
  assumes "building A x r B" and "LRows r \<notin> set (a_held A)"
  shows "awp (read_column S ctx n r i) (either (\<lambda>_. abandoned A x) (\<lambda>_. building A x r)) B"
proof -
  have close: "awp (State_Monad.bind (Rows_Close S (Some r)) (\<lambda>_. throw e)) (either (\<lambda>_. abandoned A x) (\<lambda>_. building A x r)) B"
    for e by (intro awp_bind awp_mono [OF building_close [OF assms]] awp_throw) simp
  show ?thesis
    unfolding read_column_def Let_def
    by (intro close awp_simple awp_upd) (rule building_upd [OF assms(1)], simp)
qed

lemma buildingI:
  "rows_native y = Some x \<Longrightarrow> parentConn y = None \<Longrightarrow> parentStmt y = None \<Longrightarrow> \<not> closeStmt y \<Longrightarrow>
   building A x (a_next A) (A\<lparr>a_next := Suc (a_next A), a_rows := (a_rows A)(a_next A := y)\<rparr>)"
  unfolding building_def by (intro conjI exI [of _ y]) simp_all

lemma awp_newRowsContext:
  assumes x: "krows (a_view A) x = Some a" and L: "\<And>r. LRows r \<notin> set (a_held A)"
  shows "awp (newRowsContext S ctx (Some x)) (either (\<lambda>_. abandoned A x) (\<lambda>r. building A x r)) A"
proof -
  have close: "awp (State_Monad.bind (coC (csRows_Close (Some x))) (\<lambda>_. throw e))
      (either (\<lambda>_. abandoned A x) (\<lambda>r. building A x r)) A" for e
    by (intro awp_bind awp_csRows_Close awp_throw) (auto simp: abandoned_def Let_def)
  have body: "awp (tryE (eachE (\<lambda>_. read_column S ctx (Some x) r) 0 [1..count]) (\<lambda>_. ok r))
      (either (\<lambda>_. abandoned A x) (\<lambda>r. building A x r)) B" if "building A x r B" for r B count
  proof -
    have "awp (eachE (\<lambda>_. read_column S ctx (Some x) r) 0 [1..count])
        (either (\<lambda>_. abandoned A x) (\<lambda>_. building A x r)) B"
      using that by (rule awp_eachE) (erule awp_read_column, rule L)
    then show ?thesis
      by (intro awp_tryE, elim awp_mono) (auto simp: either_def split: sum.splits intro: awp_ok)
  qed
  show ?thesis
    unfolding newRowsContext_def Let_def
    by (intro close body awp_catchE awp_coE_either awp_contextError [OF either_any] awp_quiet_calls [OF either_any]
        awp_bind awp_new awp_upd) (simp add: buildingI zero_rows_def)
qed

section \<open>Composing methods that keep the invariant\<close>

lemma hok_held [simp]: "hok (A\<lparr>a_held := L\<rparr>) = hok A"
  by (simp add: hok_def)

lemma keepsI: "(\<And>A. I A \<Longrightarrow> awp m (\<lambda>_. I) A) \<Longrightarrow> keeps I m"
  by (simp add: keeps_def)

lemma awp_keeps: "keeps I m \<Longrightarrow> I A \<Longrightarrow> (\<And>r B. I B \<Longrightarrow> Q r B) \<Longrightarrow> awp m Q A"
  unfolding keeps_def by (blast intro: awp_mono)

lemma keeps_readyI:
  "(\<And>A. hok A \<Longrightarrow> a_held A = L \<Longrightarrow> awp m (\<lambda>_ B. hok B \<and> a_held B = L) A) \<Longrightarrow> keeps (ready L) m"
  by (simp add: keeps_def ready_def)

lemma keeps_return: "keeps I (State_Monad.return v)" "keeps I (ok v)" "keeps I (throw e)"
  by (auto intro!: keepsI awp_return awp_ok awp_throw)

lemma keeps_bind: "keeps I m \<Longrightarrow> (\<And>v. keeps I (k v)) \<Longrightarrow> keeps I (State_Monad.bind m k)"
  by (rule keepsI, rule awp_bind, erule (1) awp_keeps) (auto intro: awp_keeps)

lemma keeps_tryE: "keeps I m \<Longrightarrow> (\<And>v. keeps I (k v)) \<Longrightarrow> keeps I (tryE m k)"
  unfolding tryE_def by (rule keeps_bind) (auto intro: keeps_return split: sum.split)

lemma keeps_catchE: "keeps I m \<Longrightarrow> (\<And>e. keeps I (h e)) \<Longrightarrow> (\<And>v. keeps I (k v)) \<Longrightarrow> keeps I (catchE m h k)"
  unfolding catchE_def by (rule keeps_bind) (auto split: sum.split)

lemma keeps_mapE: "keeps I m \<Longrightarrow> keeps I (mapE f m)"
  unfolding mapE_def by (rule keeps_bind) (auto intro: keeps_return split: sum.split)

lemma keeps_coE: "keeps I (coC m) \<Longrightarrow> keeps I (coE m)"
  unfolding coE_def by (rule keeps_mapE)

lemma keeps_eachE: "(\<And>i x. keeps I (f i x)) \<Longrightarrow> keeps I (eachE f i xs)"
  by (induction xs arbitrary: i) (auto intro: keeps_return keeps_tryE)

lemma keeps_if: "(b \<Longrightarrow> keeps I m) \<Longrightarrow> (\<not> b \<Longrightarrow> keeps I n) \<Longrightarrow> keeps I (if b then m else n)"
  by simp

lemma keeps_case_option: "(x = None \<Longrightarrow> keeps I m) \<Longrightarrow> (\<And>v. x = Some v \<Longrightarrow> keeps I (f v)) \<Longrightarrow>
    keeps I (case x of None \<Rightarrow> m | Some v \<Rightarrow> f v)"
  by (cases x) simp_all

lemma keeps_case_sum: "(\<And>e. keeps I (f e)) \<Longrightarrow> (\<And>v. keeps I (g v)) \<Longrightarrow>
    keeps I (case r of Inl e \<Rightarrow> f e | Inr v \<Rightarrow> g v)"
  by (cases r) simp_all

lemma keeps_case_prod: "(\<And>x y. keeps I (f x y)) \<Longrightarrow> keeps I (case p of (x, y) \<Rightarrow> f x y)"
  by (cases p) simp

lemma keeps_gets: "keeps I (gets (\<lambda>w. g (conns w)))" "keeps I (gets (\<lambda>w. h (rowss w)))"
  "keeps I (gets (\<lambda>w. k (stmts w)))" "keeps I (gets (\<lambda>w. l (txs w)))"
  by (auto intro!: keepsI awp_gets)

lemma keeps_locked:
  "\<not> cs_lock l \<Longrightarrow> l \<notin> set L \<Longrightarrow> keeps (ready (l # L)) m \<Longrightarrow> keeps (ready L) (co_locked l m)"
  by (rule keepsI, rule awp_locked, assumption, simp add: ready_def) (erule awp_keeps, auto simp: ready_def)

lemma keeps_contextError: "keeps I (contextError ctx)"
  by (auto intro!: keepsI awp_contextError)

lemma keeps_quiet: "quiet_method m \<Longrightarrow> keeps I (coC m)"
  by (auto intro!: keepsI awp_coC_quiet)

lemma keeps_resultForContext: "keeps I (resultForContext S ctx n)"
  by (auto intro!: keepsI awp_resultForContext)

lemma keeps_set: "keeps I (setOneShot S b i v)" "keeps I (setPrepared S st i v)"
  by (auto intro!: keepsI awp_setOneShot awp_setPrepared)

text \<open>Moving a cursor.\<close>

lemma keeps_upd_rows:
  assumes "\<And>y. rows_native (f y) = rows_native y" "\<And>y. parentConn (f y) = parentConn y"
    "\<And>y. parentStmt (f y) = parentStmt y"
  shows "keeps (ready L) (upd_rows r f)"
  by (rule keeps_readyI, rule awp_upd) (use assms in \<open>simp add: hok_def hinv_rows_same\<close>)

lemmas keeps_calls = quiet_methods [THEN keeps_quiet]
  keeps_contextError keeps_resultForContext keeps_set

lemmas keeps_control = keeps_return keeps_bind keeps_tryE keeps_catchE keeps_mapE keeps_coE keeps_eachE
  keeps_if keeps_case_option keeps_case_sum keeps_case_prod keeps_gets keeps_locked

section \<open>Methods that open and close nothing\<close>

named_theorems keeps_methods

lemma keeps_with_conn:
  "under_tx L \<Longrightarrow> (\<And>c n. keeps (ready (LConn c # L)) (body c n)) \<Longrightarrow> keeps (ready L) (with_conn_locked conn busy body)"
  unfolding with_conn_locked_def by (intro keeps_control) simp_all

lemma keeps_Conn_call: "under_tx L \<Longrightarrow> (\<And>c n. keeps (ready (LConn c # L)) (f n)) \<Longrightarrow> keeps (ready L) (Conn_call conn f)"
  unfolding Conn_call_def by (intro keeps_control) simp_all

lemma keeps_Ping [keeps_methods]: "under_tx L \<Longrightarrow> keeps (ready L) (Conn_PingContext S ctx conn)"
  unfolding Conn_PingContext_def by (intro keeps_control keeps_Conn_call keeps_calls)

lemma keeps_metrics [keeps_methods]:
  assumes "under_tx L"
  shows "keeps (ready L) (Conn_AffectedRows S conn)" "keeps (ready L) (Conn_LastInsertID S conn)" "keeps (ready L) (Conn_Changes S conn)"
  unfolding Conn_AffectedRows_def Conn_LastInsertID_def Conn_Changes_def Conn_metric_def
  by (intro keeps_control keeps_calls; simp add: assms)+

lemma keeps_SetDatabase [keeps_methods]: "under_tx L \<Longrightarrow> keeps (ready L) (Conn_SetDatabaseContext S ctx conn name)"
  unfolding Conn_SetDatabaseContext_def by (intro keeps_control keeps_calls keeps_with_conn)

lemma keeps_finishImplicit [keeps_methods]: "under_tx L \<Longrightarrow> keeps (ready L) (finishImplicit S ctx conn commit)"
  unfolding finishImplicit_def by (intro keeps_control keeps_calls keeps_with_conn)

lemma keeps_Rows_read [keeps_methods]:
  assumes "under_tx L"
  shows "keeps (ready L) (Rows_Columns rows)" "keeps (ready L) (Rows_ColumnTypes rows)" "keeps (ready L) (Rows_NumRows rows)"
    "keeps (ready L) (Rows_Err rows)"
  unfolding Rows_Columns_def Rows_ColumnTypes_def Rows_NumRows_def Rows_Err_def
  by (intro keeps_control; simp add: assms)+

lemma keeps_Next [keeps_methods]: "under_tx L \<Longrightarrow> keeps (ready L) (Rows_NextContext S ctx rows)"
  unfolding Rows_NextContext_def Let_def
  by (intro keeps_control keeps_calls keeps_upd_rows) simp_all

lemma keeps_Seek [keeps_methods]: "under_tx L \<Longrightarrow> keeps (ready L) (Rows_SeekContext S ctx rows row)"
  unfolding Rows_SeekContext_def by (intro keeps_control keeps_calls keeps_upd_rows) simp_all

lemma keeps_valueLocked: "keeps I (valueLocked S ctx r column)"
  unfolding valueLocked_def by (intro keeps_control keeps_calls)

lemma keeps_Value [keeps_methods]: "under_tx L \<Longrightarrow> keeps (ready L) (Rows_ValueContext S ctx rows column)"
  unfolding Rows_ValueContext_def by (intro keeps_control keeps_calls keeps_valueLocked) simp_all

lemma keeps_scan_columns: "keeps I (scan_columns S pf ctx r column ds)"
  by (induction ds arbitrary: column)
    (auto intro!: keeps_return keeps_bind keeps_contextError keeps_valueLocked split: sum.split)

lemma keeps_Scan [keeps_methods]: "under_tx L \<Longrightarrow> keeps (ready L) (Rows_ScanContext S pf ctx rows ds)"
  unfolding Rows_ScanContext_def by (intro keeps_control keeps_calls keeps_scan_columns) simp_all

lemma keeps_Bind [keeps_methods]: "under_tx L \<Longrightarrow> keeps (ready L) (Stmt_Bind S stmt i v)"
  unfolding Stmt_Bind_def Stmt_call_def by (intro keeps_control keeps_calls) simp_all

lemma keeps_Stmt_Exec [keeps_methods]: "under_tx L \<Longrightarrow> keeps (ready L) (Stmt_ExecContext S ctx stmt)"
  unfolding Stmt_ExecContext_def by (intro keeps_control keeps_calls) simp_all

end
