(* ===== verification/Cube_Core_Lifecycle.thy ===== *)
theory Cube_Core_Lifecycle
  imports Cube_Core_Safety
begin

text \<open>
  The methods of the public package that open or close connections, statements, result sets and
  transactions keep the invariant.
\<close>

section \<open>Connections\<close>

lemma keeps_with_connI:
  assumes L: "under_tx L"
    and "\<And>A c n. hok A \<Longrightarrow> a_held A = LConn c # L \<Longrightarrow> conn_native (a_conns A c) = Some n \<Longrightarrow>
      \<not> busy (a_conns A c) \<Longrightarrow> awp (body c (Some n)) (\<lambda>_ B. hok B \<and> a_held B = LConn c # L) A"
  shows "keeps (ready L) (with_conn_locked conn busy body)"
proof (rule keeps_readyI)
  fix A assume A: "hok A" "a_held A = L"
  have "awp (body c (conn_native (a_conns A c))) (\<lambda>_ B. hok B \<and> remove1 (LConn c) (a_held B) = L)
      (A\<lparr>a_held := LConn c # a_held A\<rparr>)"
    if "conn_native (a_conns A c) \<noteq> None" "\<not> busy (a_conns A c)" for c
    using that A by (auto intro!: awp_mono [OF assms(2)])
  then show "awp (with_conn_locked conn busy body) (\<lambda>_ B. hok B \<and> a_held B = L) A"
    unfolding with_conn_locked_def
    by (intro awp_case_option awp_throw awp_locked awp_bind awp_gets awp_if) (use A L in simp_all)
qed

lemma hok_D: "hok A \<Longrightarrow> hinv (a_view A) (a_conns A) (a_rows A) (a_stmts A) (a_txs A) (a_next A)"
  by (simp add: hok_def)

lemma keeps_Open [keeps_methods]: "keeps (ready L) (OpenContext S ctx opts)"
proof (rule keeps_readyI)
  fix A assume A: "hok A" "a_held A = L"
  have "hok (A\<lparr>a_view := (a_view A)\<lparr>kopen := (kopen (a_view A))(a := True)\<rparr>, a_next := Suc (a_next A),
      a_conns := (a_conns A)(a_next A := \<lparr>conn_native = Some a, txActive = False, children = 0\<rparr>)\<rparr>)"
    if "\<not> kopen (a_view A) a" for a
    using hinv_conn_add [OF hinv_grow [OF hok_D [OF A(1)]] that, of "a_next A"]
      hinvD(9) [OF hok_D [OF A(1)]] by (simp add: hok_def fresh_objs_def)
  then show "awp (OpenContext S ctx opts) (\<lambda>_ B. hok B \<and> a_held B = L) A"
    unfolding OpenContext_def
    by (intro awp_simple awp_case_sum awp_cs_Open awp_new awp_upd) (simp_all add: A)
qed

lemma keeps_Conn_Close [keeps_methods]:
  assumes L: "under_tx L"
  shows "keeps (ready L) (Conn_Close conn)"
proof (rule keeps_readyI)
  fix A assume A: "hok A" "a_held A = L"
  have "hok (A\<lparr>a_view := (a_view A)\<lparr>kopen := (kopen (a_view A))(a := False)\<rparr>,
      a_conns := (a_conns A)(c := (a_conns A c)\<lparr>conn_native := None\<rparr>)\<rparr>)"
    if "conn_native (a_conns A c) = Some a" "children (a_conns A c) = 0" "\<not> txActive (a_conns A c)" for c a
    using hinv_conn_drop [OF hok_D [OF A(1)] that] by (simp add: hok_def)
  then show "awp (Conn_Close conn) (\<lambda>_ B. hok B \<and> a_held B = L) A"
    unfolding Conn_Close_def
    by (intro awp_case_option awp_ok awp_locked awp_bind awp_gets awp_if awp_throw awp_tryE awp_coE_either
        awp_csConn_Close either_Inl either_Inr awp_upd) (use A L in simp_all)
qed

section \<open>Exec\<close>

text \<open>What runs while a temporary statement or bind graph is open leaves the abstract state as it is.\<close>

lemma keeps_binders: "keeps I (bind_prepared S ctx st args)" "keeps I (bind_one_shot S ctx b args)"
  unfolding bind_prepared_def bind_one_shot_def by (intro keeps_control keeps_calls)+

lemma keeps_exec_prepared:
  "keeps I (tryE (bind_prepared S ctx st args) (\<lambda>_. tryE (contextError ctx) (\<lambda>_.
     tryE (coE (csStmt_Exec S st)) (\<lambda>_. do { res \<leftarrow> resultForContext S ctx n; ok res }))))"
  by (intro keeps_control keeps_calls keeps_binders)

lemma keeps_exec_bound:
  "keeps I (tryE (bind_one_shot S ctx b args) (\<lambda>_. tryE (contextError ctx) (\<lambda>_.
     tryE (coE (csConn_ExecBind S n query b)) (\<lambda>_. do { res \<leftarrow> resultForContext S ctx n; ok res }))))"
  by (intro keeps_control keeps_calls keeps_binders)

lemma view_restore [simp]:
  "kstmts V i = None \<Longrightarrow> V\<lparr>kstmts := (kstmts V)(i := None)\<rparr> = V"
  "\<not> kbinds V b \<Longrightarrow> V\<lparr>kbinds := (kbinds V)(b := False)\<rparr> = V"
  by (simp_all add: fun_upd_idem)

lemma keeps_temporary_stmt:
  assumes "\<And>st I. keeps I (body st)"
  shows "keeps I (tryE (coE (csConn_Prepare S n query)) (\<lambda>st. deferE (coC (csStmt_Close S (Some st))) (body st)))"
proof (rule keepsI)
  fix A assume A: "I A"
  have "awp (deferE (coC (csStmt_Close S (Some i))) (body i)) (\<lambda>_. I)
      (A\<lparr>a_view := (a_view A)\<lparr>kstmts := (kstmts (a_view A))(i \<mapsto> a)\<rparr>\<rparr>)" (is "awp _ _ ?B")
    if "kstmts (a_view A) i = None" for i a
    by (intro awp_deferE, rule awp_keeps [OF assms [of "(=) ?B"]], simp, rule awp_csStmt_Close)
      (use A that in auto)
  then show "awp (tryE (coE (csConn_Prepare S n query)) (\<lambda>st. deferE (coC (csStmt_Close S (Some st))) (body st)))
      (\<lambda>_. I) A"
    by (intro awp_tryE awp_coE_either awp_csConn_Prepare either_Inl either_Inr) (use A in simp_all)
qed

lemma keeps_temporary_bind:
  assumes "\<And>b I. keeps I (body b)"
  shows "keeps I (tryE (coE (cs_NewBind S k)) (\<lambda>b. deferE (coC (csBind_Close (Some b))) (body b)))"
proof (rule keepsI)
  fix A assume A: "I A"
  have "awp (deferE (coC (csBind_Close (Some b))) (body b)) (\<lambda>_. I)
      (A\<lparr>a_view := (a_view A)\<lparr>kbinds := (kbinds (a_view A))(b := True)\<rparr>\<rparr>)" (is "awp _ _ ?B")
    if "\<not> kbinds (a_view A) b" for b
    by (intro awp_deferE, rule awp_keeps [OF assms [of "(=) ?B"]], simp, rule awp_csBind_Close)
      (use A that in auto)
  then show "awp (tryE (coE (cs_NewBind S k)) (\<lambda>b. deferE (coC (csBind_Close (Some b))) (body b)))
      (\<lambda>_. I) A"
    by (intro awp_tryE awp_coE_either awp_cs_NewBind either_Inl either_Inr) (use A in simp_all)
qed

lemma keeps_Exec [keeps_methods]: "under_tx L \<Longrightarrow> keeps (ready L) (Conn_ExecContext S ctx conn query args)"
  unfolding Conn_ExecContext_def
  by (intro keeps_temporary_stmt keeps_temporary_bind keeps_exec_prepared keeps_exec_bound
      keeps_control keeps_calls keeps_with_conn)

section \<open>Statements\<close>

lemma hok_stmt_add:
  assumes A: "hok A" and c: "conn_native (a_conns A c) = Some a" and i: "kstmts (a_view A) i = None"
  shows "hok (A\<lparr>a_view := (a_view A)\<lparr>kstmts := (kstmts (a_view A))(i \<mapsto> a)\<rparr>,
    a_conns := (a_conns A)(c := (a_conns A c)\<lparr>children := children (a_conns A c) + 1\<rparr>), a_next := Suc (a_next A),
    a_stmts := (a_stmts A)(a_next A := \<lparr>stmt_parent = Some c, stmt_native = Some i, queryText = query,
      stmt_rows = 0, registered = True\<rparr>)\<rparr>)"
  by (simp add: hok_def, rule hinv_stmt_add [OF hinv_grow [OF hok_D [OF A]] _ _ i c])
    (use hinvD(9) [OF hok_D [OF A]] in \<open>simp_all add: fresh_objs_def\<close>)

lemma keeps_Prepare [keeps_methods]:
  assumes "under_tx L"
  shows "keeps (ready L) (Conn_PrepareContext S ctx conn query)"
proof -
  have "awp (tryE (contextError ctx) (\<lambda>_. tryE (coE (csConn_Prepare S (Some n) query)) (\<lambda>st. do {
         _ \<leftarrow> upd_conn c (\<lambda>y. y\<lparr>children := children y + 1\<rparr>);
         s \<leftarrow> co_new;
         _ \<leftarrow> upd_stmt s (\<lambda>_. \<lparr>stmt_parent = Some c, stmt_native = Some st, queryText = query,
                stmt_rows = 0, registered = True\<rparr>);
         ok s }))) (\<lambda>_ B. hok B \<and> a_held B = LConn c # L) A"
    if A: "hok A" "a_held A = LConn c # L" and n: "conn_native (a_conns A c) = Some n" for A c n
    by (intro awp_tryE awp_contextError [OF either_any] awp_coE_either awp_csConn_Prepare either_Inl either_Inr
        awp_bind awp_upd awp_new awp_ok) (use A hok_stmt_add [OF A(1) n] in simp_all)
  then show ?thesis
    unfolding Conn_PrepareContext_def
    by (intro keeps_control keeps_calls keeps_with_connI assms)
qed

lemma stmt_closed_hok:
  assumes A: "hok A" and s: "stmt_native (a_stmts A s) = Some x" "stmt_rows (a_stmts A s) = 0"
    and c: "stmt_parent (a_stmts A s) = Some c"
  shows "hok (A\<lparr>a_view := (a_view A)\<lparr>kstmts := (kstmts (a_view A))(x := None)\<rparr>,
    a_conns := (a_conns A)(c := (a_conns A c)\<lparr>children := children (a_conns A c) - 1\<rparr>),
    a_stmts := (a_stmts A)(s := (a_stmts A s)\<lparr>stmt_native := None, registered := False\<rparr>)\<rparr>)"
  by (simp add: hok_def, rule hinv_stmt_drop [OF hok_D [OF A] s(1) c s(2)]) (use s(2) in simp_all)

text \<open>The part \<^verbatim>\<open>Close\<close> and \<^verbatim>\<open>releaseRow\<close> share: the native statement is closed and the connection told.\<close>

definition close_body :: "sdk \<Rightarrow> nat \<Rightarrow> stmt \<Rightarrow> (core, gerror + unit) state" where
  "close_body S s st = do {
     _ \<leftarrow> upd_stmt s (\<lambda>x. x\<lparr>stmt_native := None\<rparr>);
     err \<leftarrow> coE (csStmt_Close S (stmt_native st));
     _ \<leftarrow> (if registered st
          then do { _ \<leftarrow> upd_stmt s (\<lambda>x. x\<lparr>registered := False\<rparr>); releaseChild (stmt_parent st) }
          else State_Monad.return ());
     State_Monad.return err }"

lemma awp_close_body:
  assumes A: "hok A" "stmt_native (a_stmts A s) \<noteq> None" "stmt_rows (a_stmts A s) = 0"
    and L: "\<And>c. LConn c \<notin> set (a_held A)"
  shows "awp (close_body S s (a_stmts A s)) (\<lambda>_ B. hok B \<and> a_held B = a_held A) A"
proof -
  obtain x where x: "stmt_native (a_stmts A s) = Some x" using A(2) by blast
  obtain c where c: "stmt_parent (a_stmts A s) = Some c" and r: "registered (a_stmts A s)"
    using stmt_parent_ex [OF hok_D [OF A(1)] x] by blast
  show ?thesis
    unfolding close_body_def x c
    by (intro awp_bind awp_upd awp_coE either_any awp_csStmt_Close awp_if awp_releaseChild awp_return)
      (use stmt_closed_hok [OF A(1) x A(3) c] stmt_counts [OF hok_D [OF A(1)] x c] L r
        in \<open>simp_all add: awp_return hok_def\<close>)
qed

lemma keeps_Stmt_Close [keeps_methods]:
  assumes "under_tx L"
  shows "keeps (ready L) (Stmt_Close S stmt)"
proof (rule keeps_readyI)
  fix A assume A: "hok A" "a_held A = L"
  have "awp (close_body S s (a_stmts A s)) (\<lambda>_ B. hok B \<and> remove1 (LStmt s) (a_held B) = L)
      (A\<lparr>a_held := LStmt s # a_held A\<rparr>)"
    if "stmt_native (a_stmts A s) \<noteq> None" "stmt_rows (a_stmts A s) = 0" for s
    using awp_close_body [of "A\<lparr>a_held := LStmt s # a_held A\<rparr>" s S] A that assms
    by (auto elim!: awp_mono)
  then show "awp (Stmt_Close S stmt) (\<lambda>_ B. hok B \<and> a_held B = L) A"
    unfolding Stmt_Close_def close_body_def [symmetric]
    by (intro awp_case_option awp_ok awp_locked awp_bind awp_gets awp_if awp_throw) (use A assms in simp_all)
qed

lemma awp_releaseRow:
  assumes s: "stmt_rows (a_stmts A s) = 1"
    and h: "hok (A\<lparr>a_stmts := (a_stmts A)(s := (a_stmts A s)\<lparr>stmt_rows := 0\<rparr>)\<rparr>)"
    and L: "LStmt s \<notin> set (a_held A)" "\<And>c. LConn c \<notin> set (a_held A)"
  shows "awp (releaseRow S s closeStatement) (\<lambda>_ B. hok B \<and> a_held B = a_held A) A"
proof -
  let ?B = "A\<lparr>a_held := LStmt s # a_held A, a_stmts := (a_stmts A)(s := (a_stmts A s)\<lparr>stmt_rows := 0\<rparr>)\<rparr>"
  have B: "hok ?B" using h by (simp add: hok_def)
  have "awp (close_body S s ((a_stmts A s)\<lparr>stmt_rows := 0\<rparr>))
      (\<lambda>_ B. hok B \<and> remove1 (LStmt s) (a_held B) = a_held A) ?B"
    if "stmt_native (a_stmts A s) \<noteq> None"
    using awp_close_body [OF B, of s S] that L by (auto elim!: awp_mono)
  then show ?thesis
    unfolding releaseRow_def close_body_def [symmetric]
    by (intro awp_locked awp_bind awp_upd awp_gets awp_if awp_ok awp_throw) (use s h L in simp_all)
qed

section \<open>Result sets\<close>

lemma keeps_Rows_Close [keeps_methods]:
  assumes L: "under_tx L"
  shows "keeps (ready L) (Rows_Close S rows)"
proof (rule keeps_readyI)
  fix A assume A: "hok A" "a_held A = L"
  note h = hok_D [OF A(1)]
  have "awp (co_locked (LRows r) (do {
          x \<leftarrow> gets (\<lambda>w. rowss w r);
          (if rows_native x = None then ok ()
           else do {
             _ \<leftarrow> upd_rows r (\<lambda>y. y\<lparr>rows_native := None, parentConn := None, parentStmt := None,
                    closeStmt := False\<rparr>);
             nativeError \<leftarrow> coE (csRows_Close (rows_native x));
             _ \<leftarrow> releaseChild (parentConn x);
             statementError \<leftarrow> (case parentStmt x of
                 None \<Rightarrow> ok ()
               | Some s \<Rightarrow> releaseRow S s (closeStmt x));
             (case join_errors (error_of nativeError) (error_of statementError) of
                None \<Rightarrow> ok () | Some e \<Rightarrow> throw e) }) }))
      (\<lambda>_ B. hok B \<and> a_held B = L) A" for r
  proof (cases "rows_native (a_rows A r)")
    case None
    then show ?thesis
      by (intro awp_locked awp_bind awp_gets awp_if awp_ok) (use A L in simp_all)
  next
    case (Some x)
    obtain c where c: "parentConn (a_rows A r) = Some c" using rows_parent_ex [OF h Some] by blast
    note n = row_counts [OF h Some]
    let ?y = "(a_rows A r)\<lparr>rows_native := None, parentConn := None, parentStmt := None, closeStmt := False\<rparr>"
    let ?B = "A\<lparr>a_held := LRows r # a_held A, a_rows := (a_rows A)(r := ?y),
      a_view := (a_view A)\<lparr>krows := (krows (a_view A))(x := None)\<rparr>,
      a_conns := (a_conns A)(c := (a_conns A c)\<lparr>children := children (a_conns A c) - 1\<rparr>)\<rparr>"
    have rest: "awp (case parentStmt (a_rows A r) of None \<Rightarrow> ok () | Some s \<Rightarrow> releaseRow S s (closeStmt (a_rows A r)))
        (\<lambda>_ B. hok B \<and> a_held B = LRows r # L) ?B"
    proof (cases "parentStmt (a_rows A r)")
      case None
      then show ?thesis
        using hinv_rows_drop [OF h Some c, of ?y] A by (auto intro!: awp_ok simp: hok_def)
    next
      case (Some s)
      have "hok (?B\<lparr>a_stmts := (a_stmts ?B)(s := (a_stmts ?B s)\<lparr>stmt_rows := 0\<rparr>)\<rparr>)"
        using hinv_rows_drop [OF h \<open>rows_native (a_rows A r) = Some x\<close> c, of ?y] Some by (simp add: hok_def)
      from awp_releaseRow [OF _ this, of S "closeStmt (a_rows A r)"] n(2) [OF Some] A L Some
      show ?thesis by (auto elim!: awp_mono)
    qed
    have join: "awp (case join_errors a b of None \<Rightarrow> ok () | Some e \<Rightarrow> throw e)
        (\<lambda>_ B. hok B \<and> remove1 (LRows r) (a_held B) = L) B"
      if "hok B" "a_held B = LRows r # L" for a b B
      using that by (intro awp_case_option awp_ok awp_throw) simp_all
    have "awp (do { statementError \<leftarrow> (case parentStmt z of None \<Rightarrow> ok () | Some s \<Rightarrow> releaseRow S s (closeStmt z));
          case join_errors (error_of e) (error_of statementError) of None \<Rightarrow> ok () | Some e \<Rightarrow> throw e })
        (\<lambda>_ B. hok B \<and> remove1 (LRows r) (a_held B) = L) B"
      if "z = a_rows A r" "B = ?B" for z B and e :: "gerror + unit"
      unfolding that by (rule awp_bind, rule awp_mono [OF rest]) (use join in blast)
    then show ?thesis
      using A L Some c n(1) [OF c]
      by (intro awp_locked awp_bind awp_gets awp_if awp_ok awp_upd awp_coE awp_csRows_Close either_Inr
          awp_releaseChild) simp_all
  qed
  then show "awp (Rows_Close S rows) (\<lambda>_ B. hok B \<and> a_held B = L) A"
    unfolding Rows_Close_def by (intro awp_case_option awp_ok) (use A in simp_all)
qed

text \<open>
  A native cursor \<open>x\<close> has just been opened from a state where the invariant held: what \<open>newRowsContext\<close>
  leaves behind when it fails, and when its result set is given its parents.
\<close>

definition with_cursor_open :: "acore \<Rightarrow> nat \<Rightarrow> nat \<Rightarrow> acore" where
  "with_cursor_open A x a = A\<lparr>a_view := (a_view A)\<lparr>krows := (krows (a_view A))(x \<mapsto> a)\<rparr>\<rparr>"

lemma hok_abandoned:
  assumes A: "hok A" and x: "krows (a_view A) x = None" and B: "abandoned (with_cursor_open A x a) x B"
  shows "hok B" "a_held B = a_held A"
proof -
  have V: "(a_view A)\<lparr>krows := (krows (a_view A))(x := None)\<rparr> = a_view A"
    using x by (simp add: fun_upd_idem)
  have closed: "rows_native (a_rows A (a_next A)) = None"
    using hinvD(9) [OF hok_D [OF A]] by (simp add: fresh_objs_def)
  consider "B = A" | y where "rows_native y = None" "B = A\<lparr>a_rows := (a_rows A)(a_next A := y), a_next := Suc (a_next A)\<rparr>"
    using B V unfolding abandoned_def with_cursor_open_def Let_def by auto
  then have "hok B \<and> a_held B = a_held A"
  proof cases
    case 1
    with A show ?thesis by simp
  next
    case 2
    with hinv_rows_same [OF hinv_grow [OF hok_D [OF A]], of y "a_next A"] closed show ?thesis
      by (simp add: hok_def)
  qed
  then show "hok B" "a_held B = a_held A" by simp_all
qed

lemma hinv_adopted:
  assumes A: "hok A" and x: "krows (a_view A) x = None" and B: "building (with_cursor_open A x a) x r B"
    and c: "conn_native (a_conns A c) = Some a" and y: "rows_native y = Some x" "parentConn y = Some c"
    and C: "C' = (a_conns A)(c := (a_conns A c)\<lparr>children := children (a_conns A c) + 1\<rparr>)"
    and T: "case parentStmt y of None \<Rightarrow> T' = a_stmts A | Some s \<Rightarrow> stmt_native (a_stmts A s) \<noteq> None \<and>
       stmt_parent (a_stmts A s) = Some c \<and> stmt_rows (a_stmts A s) = 0 \<and>
       T' = (a_stmts A)(s := (a_stmts A s)\<lparr>stmt_rows := 1\<rparr>)"
  shows "hinv (a_view B) C' ((a_rows B)(r := y)) T' (a_txs B) (a_next B)"
proof -
  obtain z where z: "r = a_next A" "B = A\<lparr>a_view := (a_view A)\<lparr>krows := (krows (a_view A))(x \<mapsto> a)\<rparr>,
      a_rows := (a_rows A)(r := z), a_next := Suc r\<rparr>"
    using B unfolding building_def with_cursor_open_def by auto
  have "rows_native (a_rows A r) = None"
    using hinvD(9) [OF hok_D [OF A]] z(1) by (simp add: fresh_objs_def)
  from hinv_rows_add [OF hinv_grow [OF hok_D [OF A]] _ this x c y refl C T] z show ?thesis by simp
qed

lemma building_frame:
  "building A x r B \<Longrightarrow> a_held B = a_held A \<and> a_conns B = a_conns A \<and> a_stmts B = a_stmts A \<and>
    rows_native (a_rows B r) = Some x \<and> parentStmt (a_rows B r) = None"
  by (auto simp: building_def)

lemma keeps_one_shot_query:
  assumes L: "under_tx L"
  shows "keeps (ready L) (with_conn_locked conn (\<lambda>x. children x \<noteq> 0) (\<lambda>c native.
         tryE (contextError ctx) (\<lambda>_.
         tryE (coE (csConn_Query S native query)) (\<lambda>nativeRows.
         tryE (newRowsContext S ctx (Some nativeRows)) (\<lambda>r. do {
           _ \<leftarrow> upd_conn c (\<lambda>y. y\<lparr>children := children y + 1\<rparr>);
           _ \<leftarrow> upd_rows r (\<lambda>y. y\<lparr>parentConn := Some c\<rparr>);
           ok r })))))"
proof (rule keeps_with_connI [OF L])
  fix A c n assume A: "hok A" "a_held A = LConn c # L" and n: "conn_native (a_conns A c) = Some n"
  have rows: "awp (tryE (newRowsContext S ctx (Some x)) (\<lambda>r. do {
           _ \<leftarrow> upd_conn c (\<lambda>y. y\<lparr>children := children y + 1\<rparr>);
           _ \<leftarrow> upd_rows r (\<lambda>y. y\<lparr>parentConn := Some c\<rparr>);
           ok r })) (\<lambda>_ B. hok B \<and> a_held B = LConn c # L) (with_cursor_open A x n)"
    if x: "krows (a_view A) x = None" for x
  proof (rule awp_tryE, rule awp_mono [OF awp_newRowsContext [of _ x n]])
    show "krows (a_view (with_cursor_open A x n)) x = Some n" by (simp add: with_cursor_open_def)
    show "LRows r \<notin> set (a_held (with_cursor_open A x n))" for r
      using A L by (simp add: with_cursor_open_def)
    fix r :: "gerror + nat" and B assume "either (\<lambda>_. abandoned (with_cursor_open A x n) x) (building (with_cursor_open A x n) x) r B"
    then consider e where "r = Inl e" "abandoned (with_cursor_open A x n) x B"
      | i where "r = Inr i" "building (with_cursor_open A x n) x i B"
      by (cases r) auto
    then show "either (\<lambda>_ B. hok B \<and> a_held B = LConn c # L) (\<lambda>r. awp (do {
           _ \<leftarrow> upd_conn c (\<lambda>y. y\<lparr>children := children y + 1\<rparr>);
           _ \<leftarrow> upd_rows r (\<lambda>y. y\<lparr>parentConn := Some c\<rparr>);
           ok r }) (\<lambda>_ B. hok B \<and> a_held B = LConn c # L)) r B"
    proof cases
      case 1
      with hok_abandoned [OF A(1) x] A(2) show ?thesis by simp
    next
      case 2
      note b = building_frame [OF 2(2)]
      have "hinv (a_view B) ((a_conns A)(c := (a_conns A c)\<lparr>children := children (a_conns A c) + 1\<rparr>))
          ((a_rows B)(i := (a_rows B i)\<lparr>parentConn := Some c\<rparr>)) (a_stmts A) (a_txs B) (a_next B)"
        by (rule hinv_adopted [OF A(1) x 2(2) n _ _ refl]) (use b in simp_all)
      then show ?thesis
        unfolding 2(1) either_simps
        by (intro awp_bind awp_upd awp_ok) (use b A in \<open>simp add: hok_def with_cursor_open_def\<close>)
    qed
  qed
  show "awp (tryE (contextError ctx) (\<lambda>_.
         tryE (coE (csConn_Query S (Some n) query)) (\<lambda>nativeRows.
         tryE (newRowsContext S ctx (Some nativeRows)) (\<lambda>r. do {
           _ \<leftarrow> upd_conn c (\<lambda>y. y\<lparr>children := children y + 1\<rparr>);
           _ \<leftarrow> upd_rows r (\<lambda>y. y\<lparr>parentConn := Some c\<rparr>);
           ok r })))) (\<lambda>_ B. hok B \<and> a_held B = LConn c # L) A"
    by (rule awp_tryE, rule awp_contextError [OF either_any], use A in simp)
      (intro awp_tryE [of "coE _"] awp_coE_either awp_csConn_Query either_Inl either_Inr,
        use A rows in \<open>auto simp: with_cursor_open_def\<close>)
qed

lemma awp_addChild:
  assumes "conn_native (a_conns A c) \<noteq> None" and "LConn c \<notin> set (a_held A)"
    and "Q (Inr ()) (A\<lparr>a_conns := (a_conns A)(c := (a_conns A c)\<lparr>children := children (a_conns A c) + 1\<rparr>)\<rparr>)"
  shows "awp (addChild (Some c)) Q A"
  unfolding addChild_def option.case
  by (intro awp_locked awp_bind awp_gets awp_if awp_upd awp_ok awp_throw) (use assms in simp_all)

text \<open>What follows the native query in \<open>Stmt_query\<close>, with the statement's mutex held.\<close>

definition adopt_rows :: "sdk \<Rightarrow> ctx \<Rightarrow> nat \<Rightarrow> stmt \<Rightarrow> bool \<Rightarrow> nat \<Rightarrow> (core, gerror + nat) state" where
  "adopt_rows S ctx s st closeWithRows nativeRows =
     (let unlock = coC (csN (release (LStmt s)));
          close_if = (if closeWithRows then do { _ \<leftarrow> Stmt_Close S (Some s); State_Monad.return () }
                      else State_Monad.return ()) in
      catchE (newRowsContext S ctx (Some nativeRows))
        (\<lambda>e. do { _ \<leftarrow> unlock; _ \<leftarrow> close_if; throw e }) (\<lambda>r.
      catchE (addChild (stmt_parent st))
        (\<lambda>e. do { _ \<leftarrow> Rows_Close S (Some r); _ \<leftarrow> unlock; _ \<leftarrow> close_if; throw e }) (\<lambda>_. do {
        _ \<leftarrow> upd_stmt s (\<lambda>x. x\<lparr>stmt_rows := stmt_rows x + 1\<rparr>);
        _ \<leftarrow> upd_rows r (\<lambda>y. y\<lparr>parentConn := stmt_parent st, parentStmt := Some s,
               closeStmt := closeWithRows\<rparr>);
        _ \<leftarrow> unlock;
        ok r })))"

lemma awp_adopt_rows:
  assumes A: "hok A" "a_held A = LStmt s # L" and L: "under_tx L"
    and s: "stmt_native (a_stmts A s) \<noteq> None" "stmt_rows (a_stmts A s) = 0" "stmt_parent (a_stmts A s) = Some c"
    and n: "conn_native (a_conns A c) = Some a" and x: "krows (a_view A) x = None"
  shows "awp (adopt_rows S ctx s (a_stmts A s) cl x) (\<lambda>_ B. hok B \<and> a_held B = L) (with_cursor_open A x a)"
  unfolding adopt_rows_def Let_def
proof (rule awp_catchE, rule awp_mono [OF awp_newRowsContext [of _ x a]])
  show "krows (a_view (with_cursor_open A x a)) x = Some a" by (simp add: with_cursor_open_def)
  show "LRows r \<notin> set (a_held (with_cursor_open A x a))" for r
    using A L by (simp add: with_cursor_open_def)
  fix r :: "gerror + nat" and B assume "either (\<lambda>_. abandoned (with_cursor_open A x a) x) (building (with_cursor_open A x a) x) r B"
  then consider e where "r = Inl e" "abandoned (with_cursor_open A x a) x B"
    | i where "r = Inr i" "building (with_cursor_open A x a) x i B"
    by (cases r) auto
  then show "either (\<lambda>e. awp (do { _ \<leftarrow> coC (csN (release (LStmt s)));
         _ \<leftarrow> if cl then do { _ \<leftarrow> Stmt_Close S (Some s); State_Monad.return () } else State_Monad.return (); throw e })
        (\<lambda>(_ :: gerror + nat) B. hok B \<and> a_held B = L))
      (\<lambda>r. awp (catchE (addChild (stmt_parent (a_stmts A s)))
        (\<lambda>e. do { _ \<leftarrow> Rows_Close S (Some r); _ \<leftarrow> coC (csN (release (LStmt s)));
           _ \<leftarrow> if cl then do { _ \<leftarrow> Stmt_Close S (Some s); State_Monad.return () } else State_Monad.return (); throw e })
        (\<lambda>_. do {
        _ \<leftarrow> upd_stmt s (\<lambda>x. x\<lparr>stmt_rows := stmt_rows x + 1\<rparr>);
        _ \<leftarrow> upd_rows r (\<lambda>y. y\<lparr>parentConn := stmt_parent (a_stmts A s), parentStmt := Some s, closeStmt := cl\<rparr>);
        _ \<leftarrow> coC (csN (release (LStmt s)));
        ok r })) (\<lambda>_ B. hok B \<and> a_held B = L)) r B"
  proof cases
    case 1
    have B: "hok B" "a_held B = LStmt s # L" using hok_abandoned [OF A(1) x 1(2)] A(2) by simp_all
    have "keeps (ready L) (do {
        _ \<leftarrow> if cl then do { _ \<leftarrow> Stmt_Close S (Some s); State_Monad.return () } else State_Monad.return ();
        (throw e :: (core, gerror + nat) state) })"
      by (intro keeps_control keeps_Stmt_Close L)
    then show ?thesis
      unfolding 1(1) either_simps
      by (intro awp_bind [of "coC _"] awp_release) (erule awp_keeps; use B in \<open>simp add: ready_def\<close>)
  next
    case 2
    note b = building_frame [OF 2(2)]
    have "hinv (a_view B) ((a_conns A)(c := (a_conns A c)\<lparr>children := children (a_conns A c) + 1\<rparr>))
        ((a_rows B)(i := (a_rows B i)\<lparr>parentConn := Some c, parentStmt := Some s, closeStmt := cl\<rparr>))
        ((a_stmts A)(s := (a_stmts A s)\<lparr>stmt_rows := 1\<rparr>)) (a_txs B) (a_next B)"
      by (rule hinv_adopted [OF A(1) x 2(2) n _ _ refl]) (use b s in simp_all)
    then show ?thesis
      unfolding 2(1) either_simps s(3)
      by (intro awp_catchE awp_addChild either_Inr awp_bind awp_upd awp_release awp_ok)
        (use b A n L s in \<open>simp_all add: hok_def with_cursor_open_def\<close>)
  qed
qed

lemma keeps_Stmt_query [keeps_methods]:
  assumes L: "under_tx L"
  shows "keeps (ready L) (Stmt_query S ctx stmt cl)"
proof (rule keeps_readyI)
  fix A assume A: "hok A" "a_held A = L"
  let ?P = "\<lambda>_ B. hok B \<and> a_held B = L"
  have rows: "awp (adopt_rows S ctx s (a_stmts A s) cl x) ?P B"
    if "stmt_native (a_stmts A s) \<noteq> None" "stmt_rows (a_stmts A s) = 0" "stmt_native (a_stmts A s) = Some i"
      "kstmts (a_view A) i = Some a" "krows (a_view A) x = None"
      "B = A\<lparr>a_held := LStmt s # L, a_view := (a_view A)\<lparr>krows := (krows (a_view A))(x \<mapsto> a)\<rparr>\<rparr>" for s i a x B
  proof -
    note i = that(3)
    obtain c a' where c: "stmt_parent (a_stmts A s) = Some c" "conn_native (a_conns A c) = Some a'"
        "kstmts (a_view A) i = Some a'"
      using stmt_parent_ex [OF hok_D [OF A(1)] i] by blast
    then show ?thesis
      using awp_adopt_rows [of "A\<lparr>a_held := LStmt s # L\<rparr>" s L c a x S ctx cl] that A(1) L
      by (simp add: with_cursor_open_def)
  qed
  have body: "awp (do {
          _ \<leftarrow> coC (csN (acquire (LStmt s)));
          st \<leftarrow> gets (\<lambda>w. stmts w s);
          (if stmt_native st = None then do { _ \<leftarrow> coC (csN (release (LStmt s))); throw ErrClosed }
           else if stmt_rows st \<noteq> 0 then do { _ \<leftarrow> coC (csN (release (LStmt s))); throw ErrBusy }
           else
             catchE (contextError ctx) (\<lambda>e. do { _ \<leftarrow> coC (csN (release (LStmt s))); throw e }) (\<lambda>_.
             catchE (coE (csStmt_Query S (stmt_native st)))
               (\<lambda>e. do { _ \<leftarrow> coC (csN (release (LStmt s))); throw e }) (adopt_rows S ctx s st cl))) }) ?P A" for s
    by (intro awp_bind awp_acquire awp_gets awp_if awp_release awp_throw awp_catchE
        awp_contextError [OF either_any] awp_coE_either awp_csStmt_Query either_Inl either_Inr)
      (use A L rows in simp_all)
  show "awp (Stmt_query S ctx stmt cl) ?P A"
  proof (cases stmt)
    case None
    then show ?thesis
      unfolding Stmt_query_def
      by (intro awp_tryE awp_contextError [OF either_any]) (use A in \<open>simp_all add: awp_throw\<close>)
  next
    case (Some s)
    show ?thesis
      unfolding Stmt_query_def Some option.case Let_def
      by (rule awp_tryE, rule awp_contextError [OF either_any], use A in simp)
        (rule body [unfolded adopt_rows_def Let_def])
  qed
qed

lemma keeps_Query [keeps_methods]: "under_tx L \<Longrightarrow> keeps (ready L) (Conn_QueryContext S ctx conn query args)"
  unfolding Conn_QueryContext_def Let_def
  by (intro keeps_one_shot_query keeps_control keeps_calls keeps_methods)

section \<open>Resetting a statement\<close>

lemma awp_unregister:
  assumes "registered (a_stmts A s)"
    and "Q () (A\<lparr>a_stmts := (a_stmts A)(s := (a_stmts A s)\<lparr>registered := False\<rparr>),
      a_conns := (a_conns A)(c := (a_conns A c)\<lparr>children := children (a_conns A c) - 1\<rparr>)\<rparr>)"
  shows "awp (unregister s c) Q A"
  unfolding unregister_def by (intro awp_bind awp_gets awp_if awp_upd) (use assms in simp_all)

lemma hok_stmt_swap:
  assumes A: "hok A" and s: "stmt_native (a_stmts A s) = Some x" "stmt_rows (a_stmts A s) = 0"
    and c: "stmt_parent (a_stmts A s) = Some c" "conn_native (a_conns A c) = Some a"
    and i: "((kstmts (a_view A))(x := None)) i = None"
  shows "hok (A\<lparr>a_stmts := (a_stmts A)(s := (a_stmts A s)\<lparr>stmt_native := Some i\<rparr>),
    a_view := (a_view A)\<lparr>kstmts := (kstmts (a_view A))(x := None, i \<mapsto> a)\<rparr>\<rparr>)"
proof -
  let ?z = "(a_stmts A s)\<lparr>stmt_native := None, registered := False\<rparr>"
  let ?C = "(a_conns A)(c := (a_conns A c)\<lparr>children := children (a_conns A c) - 1\<rparr>)"
  note h = hinv_stmt_drop [OF hok_D [OF A] s(1) c(1) s(2), of ?z _ ?C, OF _ _ _ refl refl]
  have h': "hinv ((a_view A)\<lparr>kstmts := (kstmts (a_view A))(x := None)\<rparr>) ?C (a_rows A) ((a_stmts A)(s := ?z))
      (a_txs A) (a_next A)"
    by (rule h) (use s in simp_all)
  have n: "s < a_next A" using born(3) [OF hok_D [OF A]] s(1) by simp
  show ?thesis
    by (simp add: hok_def)
      (rule hinv_stmt_add [OF h' n, of i c a "(a_stmts A s)\<lparr>stmt_native := Some i\<rparr>", simplified],
        use i c s stmt_parent_ex(2) [OF hok_D [OF A] s(1)] in \<open>auto simp: fun_upd_idem\<close>)
qed

text \<open>The replacement of the native statement, with both mutexes held.\<close>

definition replace_native :: "sdk \<Rightarrow> ctx \<Rightarrow> nat \<Rightarrow> nat \<Rightarrow> stmt \<Rightarrow> nat \<Rightarrow> nat option \<Rightarrow> (core, gerror + unit) state" where
  "replace_native S ctx s c st n cn = do {
     _ \<leftarrow> upd_stmt s (\<lambda>x. x\<lparr>stmt_native := None\<rparr>);
     (let fail = (\<lambda>e. do { _ \<leftarrow> unregister s c; throw e }) in
     catchE (coE (csStmt_Close S (Some n))) fail (\<lambda>_.
     catchE (contextError ctx) fail (\<lambda>_.
     catchE (coE (csConn_Prepare S cn (queryText st))) fail (\<lambda>replacement. do {
       _ \<leftarrow> upd_stmt s (\<lambda>x. x\<lparr>stmt_native := Some replacement\<rparr>);
       ok () })))) }"

lemma awp_replace_native:
  assumes A: "hok A" and s: "stmt_native (a_stmts A s) = Some x" "stmt_rows (a_stmts A s) = 0"
    and c: "stmt_parent (a_stmts A s) = Some c" "conn_native (a_conns A c) = Some a"
  shows "awp (replace_native S ctx s c (a_stmts A s) x (Some a)) (\<lambda>_ B. hok B \<and> a_held B = a_held A) A"
proof -
  have r: "registered (a_stmts A s)" using stmt_parent_ex(2) [OF hok_D [OF A] s(1)] .
  let ?A = "A\<lparr>a_stmts := (a_stmts A)(s := (a_stmts A s)\<lparr>stmt_native := None\<rparr>),
      a_view := (a_view A)\<lparr>kstmts := (kstmts (a_view A))(x := None)\<rparr>\<rparr>"
  have fail: "awp (do { _ \<leftarrow> unregister s c; throw e }) (\<lambda>(_ :: gerror + unit) B. hok B \<and> a_held B = a_held A) B"
    if "B = ?A" for e :: gerror and B
    unfolding that
    by (intro awp_bind awp_unregister awp_throw)
      (use r stmt_closed_hok [OF A s c(1)] in \<open>simp_all add: hok_def\<close>)
  show ?thesis
    unfolding replace_native_def Let_def
    by (intro awp_bind [of "upd_stmt _ _"] awp_upd awp_catchE awp_coE_either awp_csStmt_Close either_any
        awp_contextError [OF either_any] awp_csConn_Prepare either_Inl either_Inr awp_ok fail)
      (use hok_stmt_swap [OF A s c] in \<open>auto simp: hok_def\<close>)
qed

lemma keeps_Reset [keeps_methods]:
  assumes L: "under_tx L"
  shows "keeps (ready L) (Stmt_ResetContext S ctx stmt)"
proof (rule keeps_readyI)
  fix A assume A: "hok A" "a_held A = L"
  have replace: "awp (replace_native S ctx s c (a_stmts A s) n (conn_native (a_conns A c)))
      (\<lambda>_ B. hok B \<and> remove1 (LStmt s) (remove1 (LConn c) (a_held B)) = L)
      (A\<lparr>a_held := LConn c # LStmt s # L\<rparr>)"
    if "stmt_native (a_stmts A s) = Some n" "stmt_parent (a_stmts A s) = Some c" "stmt_rows (a_stmts A s) = 0"
      "conn_native (a_conns A c) \<noteq> None" for s n c
  proof -
    let ?B = "A\<lparr>a_held := LConn c # LStmt s # L\<rparr>"
    have "awp (replace_native S ctx s c (a_stmts ?B s) n (Some (the (conn_native (a_conns A c)))))
        (\<lambda>_ B. hok B \<and> a_held B = a_held ?B) ?B"
      by (rule awp_replace_native) (use that A(1) in auto)
    with that(4) show ?thesis by (auto elim!: awp_mono)
  qed
  show "awp (Stmt_ResetContext S ctx stmt) (\<lambda>_ B. hok B \<and> a_held B = L) A"
    unfolding Stmt_ResetContext_def replace_native_def [symmetric] prod.case
    by (intro awp_tryE [of "contextError ctx"] awp_contextError [OF either_any] awp_case_option awp_throw awp_locked
        awp_bind awp_gets awp_if awp_tryE) (use A L replace in simp_all)
qed

section \<open>Transactions\<close>

lemma keeps_Begin [keeps_methods]:
  assumes L: "under_tx L"
  shows "keeps (ready L) (Conn_BeginContext S ctx conn)"
proof -
  have "awp (tryE (contextError ctx) (\<lambda>_.
       tryE (coE (csConn_Begin S (Some n))) (\<lambda>_. do {
         _ \<leftarrow> upd_conn c (\<lambda>y. y\<lparr>txActive := True\<rparr>);
         t \<leftarrow> co_new;
         _ \<leftarrow> upd_tx t (\<lambda>_. \<lparr>tx_conn = Some c, tx_done = False\<rparr>);
         ok t }))) (\<lambda>_ B. hok B \<and> a_held B = LConn c # L) A"
    if A: "hok A" "a_held A = LConn c # L" "conn_native (a_conns A c) = Some n" "\<not> txActive (a_conns A c)" for A c n
  proof -
    have "tx_conn (a_txs A (a_next A)) = None"
      using hinvD(9) [OF hok_D [OF A(1)]] by (simp add: fresh_objs_def)
    with hinv_tx_add [OF hinv_grow [OF hok_D [OF A(1)]], of "a_next A" c] A show ?thesis
      by (intro awp_tryE awp_contextError [OF either_any] awp_coE_either awp_quiet_calls [OF either_any]
          awp_bind awp_upd awp_new awp_ok) (simp_all add: hok_def)
  qed
  then show ?thesis
    unfolding Conn_BeginContext_def
    by (intro keeps_tryE keeps_calls keeps_with_connI L) auto
qed

lemma keeps_Tx_finish [keeps_methods]:
  assumes L: "under_ad L"
  shows "keeps (ready L) (Tx_finish S ctx tx commit)"
proof (rule keeps_readyI)
  fix A assume A: "hok A" "a_held A = L"
  have "hok (A\<lparr>a_conns := (a_conns A)(c := (a_conns A c)\<lparr>txActive := False\<rparr>),
      a_txs := (a_txs A)(t := \<lparr>tx_conn = None, tx_done = True\<rparr>)\<rparr>)"
    if "tx_conn (a_txs A t) = Some c" for t c
    using hinv_tx_drop [OF hok_D [OF A(1)] that] by (simp add: hok_def)
  then show "awp (Tx_finish S ctx tx commit) (\<lambda>_ B. hok B \<and> a_held B = L) A"
    unfolding Tx_finish_def
    by (intro awp_tryE awp_contextError [OF either_any] awp_case_option awp_throw awp_locked awp_bind
        awp_gets awp_if awp_coE_either awp_quiet_calls [OF either_any] awp_upd awp_ok)
      (use A L in \<open>simp_all add: hok_def\<close>)
qed

lemma keeps_with_tx:
  "under_ad L \<Longrightarrow> (\<And>t conn. keeps (ready (LTx t # L)) (body conn)) \<Longrightarrow> keeps (ready L) (with_tx ctx tx body)"
  unfolding with_tx_def by (intro keeps_control keeps_calls) simp_all

lemma keeps_Tx_methods [keeps_methods]:
  "under_ad L \<Longrightarrow> keeps (ready L) (Tx_ExecContext S ctx tx query args)"
  "under_ad L \<Longrightarrow> keeps (ready L) (Tx_QueryContext S ctx tx query args)"
  "under_ad L \<Longrightarrow> keeps (ready L) (Tx_PrepareContext S ctx tx query)"
  unfolding Tx_ExecContext_def Tx_QueryContext_def Tx_PrepareContext_def
  by (intro keeps_with_tx keeps_methods; simp)+

end
