(* ===== verification/Cube_Core_Run.thy ===== *)
theory Cube_Core_Run
  imports Cube_Core_Lifecycle
begin

text \<open>
  The public package as a component: its exported methods as data, runs of arbitrary sequences of them,
  and the properties that hold in every reachable state for every behaviour of SDK, server and contexts.
\<close>

section \<open>Operations\<close>

text \<open>
  The exported methods with their arguments. The variants without a context pass \<open>Background\<close>, and
  \<^verbatim>\<open>BindInt64\<close> and its siblings call \<^verbatim>\<open>Bind\<close>.
\<close>

datatype co_conn_op =
    CClose | CPing ctx | CSetDatabase ctx string | CExec ctx string "any list" | CQuery ctx string "any list"
  | CPrepare ctx string | CAffectedRows | CLastInsertID | CChanges | CBegin ctx | CCommit ctx | CRollback ctx

datatype co_stmt_op = SClose | SBind int any | SExec ctx | SQuery ctx | SReset ctx

datatype co_rows_op =
    RClose | RColumns | RColumnTypes | RNumRows | RErr | RNext ctx | RSeek ctx int | RValue ctx int
  | RScan ctx "dest list"

datatype co_tx_op = TExec ctx string "any list" | TQuery ctx string "any list" | TPrepare ctx string
  | TCommit ctx | TRollback ctx

datatype co_op =
    CoOpen ctx options
  | CoConn "nat option" co_conn_op
  | CoStmt "nat option" co_stmt_op
  | CoRows "nat option" co_rows_op
  | CoTx "nat option" co_tx_op

type_synonym parse_float = "string \<Rightarrow> 64 word option"

fun co_conn_step :: "sdk \<Rightarrow> nat option \<Rightarrow> co_conn_op \<Rightarrow> (core, unit) state" where
  "co_conn_step S c CClose = void (Conn_Close c)"
| "co_conn_step S c (CPing ctx) = void (Conn_PingContext S ctx c)"
| "co_conn_step S c (CSetDatabase ctx name) = void (Conn_SetDatabaseContext S ctx c name)"
| "co_conn_step S c (CExec ctx query args) = void (Conn_ExecContext S ctx c query args)"
| "co_conn_step S c (CQuery ctx query args) = void (Conn_QueryContext S ctx c query args)"
| "co_conn_step S c (CPrepare ctx query) = void (Conn_PrepareContext S ctx c query)"
| "co_conn_step S c CAffectedRows = void (Conn_AffectedRows S c)"
| "co_conn_step S c CLastInsertID = void (Conn_LastInsertID S c)"
| "co_conn_step S c CChanges = void (Conn_Changes S c)"
| "co_conn_step S c (CBegin ctx) = void (Conn_BeginContext S ctx c)"
| "co_conn_step S c (CCommit ctx) = void (Conn_CommitContext S ctx c)"
| "co_conn_step S c (CRollback ctx) = void (Conn_RollbackContext S ctx c)"

fun co_stmt_step :: "sdk \<Rightarrow> nat option \<Rightarrow> co_stmt_op \<Rightarrow> (core, unit) state" where
  "co_stmt_step S s SClose = void (Stmt_Close S s)"
| "co_stmt_step S s (SBind i v) = void (Stmt_Bind S s i v)"
| "co_stmt_step S s (SExec ctx) = void (Stmt_ExecContext S ctx s)"
| "co_stmt_step S s (SQuery ctx) = void (Stmt_QueryContext S ctx s)"
| "co_stmt_step S s (SReset ctx) = void (Stmt_ResetContext S ctx s)"

fun co_rows_step :: "sdk \<Rightarrow> parse_float \<Rightarrow> nat option \<Rightarrow> co_rows_op \<Rightarrow> (core, unit) state" where
  "co_rows_step S pf r RClose = void (Rows_Close S r)"
| "co_rows_step S pf r RColumns = void (Rows_Columns r)"
| "co_rows_step S pf r RColumnTypes = void (Rows_ColumnTypes r)"
| "co_rows_step S pf r RNumRows = void (Rows_NumRows r)"
| "co_rows_step S pf r RErr = void (Rows_Err r)"
| "co_rows_step S pf r (RNext ctx) = void (Rows_NextContext S ctx r)"
| "co_rows_step S pf r (RSeek ctx row) = void (Rows_SeekContext S ctx r row)"
| "co_rows_step S pf r (RValue ctx column) = void (Rows_ValueContext S ctx r column)"
| "co_rows_step S pf r (RScan ctx ds) = void (Rows_ScanContext S pf ctx r ds)"

fun co_tx_step :: "sdk \<Rightarrow> nat option \<Rightarrow> co_tx_op \<Rightarrow> (core, unit) state" where
  "co_tx_step S t (TExec ctx query args) = void (Tx_ExecContext S ctx t query args)"
| "co_tx_step S t (TQuery ctx query args) = void (Tx_QueryContext S ctx t query args)"
| "co_tx_step S t (TPrepare ctx query) = void (Tx_PrepareContext S ctx t query)"
| "co_tx_step S t (TCommit ctx) = void (Tx_CommitContext S ctx t)"
| "co_tx_step S t (TRollback ctx) = void (Tx_RollbackContext S ctx t)"

fun co_step :: "sdk \<Rightarrow> parse_float \<Rightarrow> co_op \<Rightarrow> (core, unit) state" where
  "co_step S pf (CoOpen ctx opts) = void (OpenContext S ctx opts)"
| "co_step S pf (CoConn c op) = co_conn_step S c op"
| "co_step S pf (CoStmt s op) = co_stmt_step S s op"
| "co_step S pf (CoRows r op) = co_rows_step S pf r op"
| "co_step S pf (CoTx t op) = co_tx_step S t op"

section \<open>The component\<close>

lemma keeps_void: "keeps I m \<Longrightarrow> keeps I (void m)"
  unfolding void_def by (intro keeps_control)

lemma keeps_finish [keeps_methods]:
  "under_tx L \<Longrightarrow> keeps (ready L) (Conn_CommitContext S ctx conn)"
  "under_tx L \<Longrightarrow> keeps (ready L) (Conn_RollbackContext S ctx conn)"
  "under_tx L \<Longrightarrow> keeps (ready L) (Stmt_QueryContext S ctx stmt)"
  "under_ad L \<Longrightarrow> keeps (ready L) (Tx_CommitContext S ctx tx)"
  "under_ad L \<Longrightarrow> keeps (ready L) (Tx_RollbackContext S ctx tx)"
  unfolding Conn_CommitContext_def Conn_RollbackContext_def Stmt_QueryContext_def Tx_CommitContext_def
    Tx_RollbackContext_def
  by (intro keeps_methods; assumption)+

lemma co_conn_step_keeps: "keeps (ready []) (co_conn_step S c op)"
  by (cases op; simp only: co_conn_step.simps; intro keeps_void keeps_methods; simp)

lemma co_stmt_step_keeps: "keeps (ready []) (co_stmt_step S s op)"
  by (cases op; simp only: co_stmt_step.simps; intro keeps_void keeps_methods; simp)

lemma co_rows_step_keeps: "keeps (ready []) (co_rows_step S pf r op)"
  by (cases op; simp only: co_rows_step.simps; intro keeps_void keeps_methods; simp)

lemma co_tx_step_keeps: "keeps (ready []) (co_tx_step S t op)"
  by (cases op; simp only: co_tx_step.simps; intro keeps_void keeps_methods; simp)

lemma co_step_keeps: "keeps (ready []) (co_step S pf op)"
  by (cases op; simp only: co_step.simps)
    (intro keeps_void keeps_methods co_conn_step_keeps co_stmt_step_keeps co_rows_step_keeps co_tx_step_keeps)+

text \<open>
  The private package's invariant and the package's own, with the mutexes \<open>L\<close> held; none between two calls.
\<close>

definition core_at :: "lock list \<Rightarrow> core \<Rightarrow> bool" where
  "core_at L = (\<lambda>w. csdk_ok (csdk_of w) \<and> ready L (abs_core w))"

definition core_ok :: "core \<Rightarrow> bool" where
  "core_ok = core_at []"

lemma keeps_core_at: "keeps (ready L) m \<Longrightarrow> core_at L w \<Longrightarrow> wp m (\<lambda>_. core_at L) w"
  using awpD [of m "\<lambda>_. ready L" "abs_core w" w] by (simp add: keeps_def core_at_def)

lemma keeps_core_ok: "keeps (ready []) m \<Longrightarrow> core_ok w \<Longrightarrow> wp m (\<lambda>_. core_ok) w"
  unfolding core_ok_def by (rule keeps_core_at)

lemma core_ok_init: "core_ok core_init"
proof -
  have "csdk_ok (csdk_of core_init)" using csdk_init_ok by (simp add: core_init_def)
  moreover have "a_held (abs_core core_init) = []"
    by (simp add: abs_core_def core_init_def csdk_init_def native_init_def)
  ultimately show ?thesis using hok_init by (simp add: core_ok_def core_at_def ready_def)
qed

interpretation core_comp: component core_init "co_step S pf" core_ok for S pf
  by unfold_locales (rule core_ok_init, rule keeps_core_ok, rule co_step_keeps)

section \<open>Properties of every run\<close>

abbreviation co_run :: "sdk \<Rightarrow> parse_float \<Rightarrow> co_op list \<Rightarrow> core" where
  "co_run S pf ops \<equiv> run_ops (co_step S pf) ops core_init"

lemma co_run_ok: "core_ok (co_run S pf ops)"
  by (rule core_comp.reachable_inv)

lemma co_run_csdk: "csdk_ok (csdk_of (co_run S pf ops))"
  using co_run_ok by (simp add: core_ok_def core_at_def)

lemma co_run_hok: "hok (abs_core (co_run S pf ops))" "a_held (abs_core (co_run S pf ops)) = []"
  using co_run_ok by (simp_all add: core_ok_def core_at_def ready_def)

lemma co_run_hinv:
  "hinv (cview (csdk_of (co_run S pf ops))) (conns (co_run S pf ops)) (rowss (co_run S pf ops))
     (stmts (co_run S pf ops)) (txs (co_run S pf ops)) (co_next (co_run S pf ops))"
  using hok_D [OF co_run_hok(1), of S pf ops] by (simp add: abs_core_def)

text \<open>C13: The whole driver below \<^verbatim>\<open>database/sql\<close> is memory safe and free of self-deadlock. Whatever the
  SDK answers, whenever contexts are cancelled and whatever sequence of public methods a client calls on
  whatever receivers and arguments, the bridge never touches freed memory or a destroyed SDK handle, no
  call blocks on a mutex it already holds (connections, statements, result sets and transactions of the
  public package and connections and bind graphs of the private one), and no call leaves one locked.\<close>

theorem core_safe:
  "let n = native_of (csdk_of (run_ops (co_step S pf) ops core_init)) in
   \<not> fault n \<and> \<not> stuck n \<and> held n = []"
proof -
  note ok = co_run_csdk [of S pf ops]
  have "csdk_inv (csdk_of (co_run S pf ops))" "\<not> stuck (native_of (csdk_of (co_run S pf ops)))"
    using ok by (simp_all add: csdk_ok_def)
  with csdk_invD(1) co_run_hok(2) [of S pf ops] show ?thesis
    by (simp add: Let_def native_ok_def abs_core_def)
qed

text \<open>C10: Nothing leaks through the public package. In every reachable state the open connections,
  result sets and statements of the private package are exactly those that one open public object holds,
  no two public objects share one, and no bind graph outlives the \<^verbatim>\<open>Exec\<close> that built it; temporary
  statements, cursors of failed queries and statements closed with their result set are all gone.\<close>

theorem core_no_leak:
  "let w = run_ops (co_step S pf) ops core_init; V = cview (csdk_of w) in
   (kopen V p \<longleftrightarrow> (\<exists>!c. conn_native (conns w c) = Some p)) \<and>
   (krows V p \<noteq> None \<longleftrightarrow> (\<exists>!r. rows_native (rowss w r) = Some p)) \<and>
   (kstmts V p \<noteq> None \<longleftrightarrow> (\<exists>!s. stmt_native (stmts w s) = Some p)) \<and> \<not> kbinds V p"
proof -
  have o: "L p \<longleftrightarrow> (\<exists>!a. f a = Some p)" if "owns f L" for f :: "nat \<Rightarrow> nat option" and L
    using that unfolding owns_def by metis
  note h = hinvD [OF co_run_hinv [of S pf ops]]
  show ?thesis
    using o [OF h(1)] o [OF h(2)] o [OF h(3)] h(4) by (simp add: Let_def)
qed

text \<open>C6: The counters of the public package are exact. In every reachable state \<^verbatim>\<open>conn.children\<close> is
  the number of open result sets of the connection plus the number of its registered statements, and
  \<^verbatim>\<open>stmt.rows\<close> is the number of open result sets of the statement, which is at most one.\<close>

theorem core_children:
  "let w = run_ops (co_step S pf) ops core_init in
   children (conns w c) =
     int (length (filter (\<lambda>r. rows_native (rowss w r) \<noteq> None \<and> parentConn (rowss w r) = Some c) [0..<co_next w]))
     + int (length (filter (\<lambda>s. registered (stmts w s) \<and> stmt_parent (stmts w s) = Some c) [0..<co_next w])) \<and>
   stmt_rows (stmts w s) =
     int (length (filter (\<lambda>r. rows_native (rowss w r) \<noteq> None \<and> parentStmt (rowss w r) = Some s) [0..<co_next w])) \<and>
   stmt_rows (stmts w s) \<le> 1"
proof -
  note n = countsD [OF co_run_hinv [of S pf ops]]
  have "(\<lambda>r. row_conn R r = Some c) = (\<lambda>r. rows_native (R r) \<noteq> None \<and> parentConn (R r) = Some c)"
    "(\<lambda>r. row_stmt R r = Some s) = (\<lambda>r. rows_native (R r) \<noteq> None \<and> parentStmt (R r) = Some s)"
    "(\<lambda>s. reg_conn T s = Some c) = (\<lambda>s. registered (T s) \<and> stmt_parent (T s) = Some c)" for R T
    by (auto simp: fun_eq_iff row_conn_def row_stmt_def reg_conn_def)
  with n(1,2) [of s] n(3) [of c] show ?thesis by (simp add: Let_def count_upto_def)
qed

end
