(* ===== verification/Cube_Core_Effects.thy ===== *)
theory Cube_Core_Effects
  imports Cube_Core_Run
begin

text \<open>
  What single methods of the public package do to the open objects, in any reachable state: the methods
  that change none, the contracts of those that close or open one, and what a failure leaves behind.
\<close>

section \<open>Methods that change no object\<close>

text \<open>\<open>frozen m\<close>: called with only transaction mutexes held, the method leaves the abstract state as it was.\<close>

definition frozen :: "(core, 'a) state \<Rightarrow> bool" where
  "frozen m \<longleftrightarrow> (\<forall>A. under_tx (a_held A) \<longrightarrow> keeps ((=) A) m)"

lemma frozenI: "(\<And>A. under_tx (a_held A) \<Longrightarrow> keeps ((=) A) m) \<Longrightarrow> frozen m"
  by (simp add: frozen_def)

lemma keeps_locked_same:
  assumes "\<not> cs_lock l" and "l \<notin> set (a_held A)" and "keeps ((=) (A\<lparr>a_held := l # a_held A\<rparr>)) m"
  shows "keeps ((=) A) (co_locked l m)"
proof (rule keepsI)
  fix B assume "A = B"
  then show "awp (co_locked l m) (\<lambda>_. (=) A) B"
    by (intro awp_locked assms(1) awp_keeps [OF assms(3)]) (use assms(2) in auto)
qed

lemmas frozen_control = frozenI keeps_control keeps_calls keeps_locked_same

lemma frozen_conn:
  "frozen (Conn_PingContext S ctx conn)" "frozen (Conn_SetDatabaseContext S ctx conn name)"
  "frozen (Conn_AffectedRows S conn)" "frozen (Conn_LastInsertID S conn)" "frozen (Conn_Changes S conn)"
  "frozen (finishImplicit S ctx conn commit)"
  unfolding Conn_PingContext_def Conn_call_def Conn_SetDatabaseContext_def with_conn_locked_def finishImplicit_def
    Conn_AffectedRows_def Conn_LastInsertID_def Conn_Changes_def Conn_metric_def
  by (intro frozen_control; simp)+

lemma frozen_Exec: "frozen (Conn_ExecContext S ctx conn query args)"
  unfolding Conn_ExecContext_def with_conn_locked_def
  by (intro frozenI keeps_temporary_stmt keeps_temporary_bind keeps_exec_prepared keeps_exec_bound
      keeps_control keeps_calls keeps_locked_same) simp_all

lemma frozen_stmt: "frozen (Stmt_Bind S stmt i v)" "frozen (Stmt_ExecContext S ctx stmt)"
  unfolding Stmt_Bind_def Stmt_call_def Stmt_ExecContext_def by (intro frozen_control; simp)+

lemma frozen_rows: "frozen (Rows_ValueContext S ctx rows column)" "frozen (Rows_ScanContext S pf ctx rows ds)"
  unfolding Rows_ValueContext_def Rows_ScanContext_def
  by (intro frozen_control keeps_valueLocked keeps_scan_columns; simp)+

text \<open>The same on concrete states.\<close>

lemma run_awp:
  assumes "awp m Q (abs_core (co_run S pf ops))" and "run_state m (co_run S pf ops) = (r, w')"
  shows "csdk_ok (csdk_of w')" "Q r (abs_core w')"
  using awpD [OF assms(1) co_run_csdk refl] assms(2) by (simp_all add: wp_def)

lemma frozen_run:
  assumes "frozen m" and "run_state m (co_run S pf ops) = (r, w')"
  shows "abs_core w' = abs_core (co_run S pf ops)"
proof -
  have "keeps ((=) (abs_core (co_run S pf ops))) m"
    using assms(1) co_run_hok(2) by (simp add: frozen_def)
  then have "awp m (\<lambda>_. (=) (abs_core (co_run S pf ops))) (abs_core (co_run S pf ops))"
    by (simp add: keeps_def)
  from run_awp(2) [OF this assms(2)] show ?thesis by simp
qed

text \<open>The open objects and everything the public package knows about them.\<close>

definition same_objects :: "core \<Rightarrow> core \<Rightarrow> bool" where
  "same_objects w w' \<longleftrightarrow> cview (csdk_of w') = cview (csdk_of w) \<and> conns w' = conns w \<and> rowss w' = rowss w \<and>
     stmts w' = stmts w \<and> txs w' = txs w \<and> co_next w' = co_next w \<and>
     held (native_of (csdk_of w')) = held (native_of (csdk_of w))"

lemma frozen_same: "frozen m \<Longrightarrow> same_objects (co_run S pf ops) (snd (run_state m (co_run S pf ops)))"
  using frozen_run [of m S pf ops] by (cases "run_state m (co_run S pf ops)") (simp add: abs_core_def same_objects_def)

text \<open>C16: \<^verbatim>\<open>Exec\<close> has no effect on the driver's own state. In any reachable state, with any arguments
  (none, ordinary ones bound through a bind graph, or an empty BLOB, which goes through a temporary
  prepared statement) and any outcome (success, a server error, a bad argument, a cancellation at any
  point), it leaves every open object, every counter and every mutex of both packages as they were: the
  temporary bind graph or statement is always released.\<close>

theorem exec_frame:
  "same_objects (run_ops (co_step S pf) ops core_init)
     (snd (run_state (Conn_ExecContext S ctx conn query args) (run_ops (co_step S pf) ops core_init)))"
  by (rule frozen_same, rule frozen_Exec)

section \<open>Closing a connection\<close>

lemma awp_Conn_Close:
  assumes A: "hok A" "a_held A = []"
  shows "awp (Conn_Close (Some c)) (\<lambda>r B.
    if conn_native (a_conns A c) = None then r = Inr () \<and> B = A
    else if txActive (a_conns A c) \<or> children (a_conns A c) \<noteq> 0 then r = Inl ErrBusy \<and> B = A
    else r = Inr () \<and> B = A\<lparr>
      a_view := (a_view A)\<lparr>kopen := (kopen (a_view A))(the (conn_native (a_conns A c)) := False)\<rparr>,
      a_conns := (a_conns A)(c := (a_conns A c)\<lparr>conn_native := None\<rparr>)\<rparr>) A"
proof -
  have "\<not> kbusy (a_view A) a" if "conn_native (a_conns A c) = Some a" "children (a_conns A c) = 0" for a
    using idle_not_busy [OF hok_D [OF A(1)] that] .
  then show ?thesis
    unfolding Conn_Close_def option.case
    by (intro awp_locked awp_bind awp_gets awp_if awp_ok awp_throw awp_tryE awp_coE_either awp_csConn_Close
        either_Inl either_Inr awp_upd) (use A in auto)
qed

lemma busy_iff:
  assumes "hinv V C R T X n"
  shows "children (C c) \<noteq> 0 \<longleftrightarrow>
    (\<exists>r. rows_native (R r) \<noteq> None \<and> parentConn (R r) = Some c) \<or> (\<exists>s. registered (T s) \<and> stmt_parent (T s) = Some c)"
proof -
  have "(\<exists>r. row_conn R r = Some c) \<or> (\<exists>s. reg_conn T s = Some c)" if "children (C c) \<noteq> 0"
  proof (rule ccontr)
    assume "\<not> ?thesis"
    then have "count_upto n (\<lambda>r. row_conn R r = Some c) = 0" "count_upto n (\<lambda>s. reg_conn T s = Some c) = 0"
      by (auto intro!: count_upto_none)
    with countsD(3) [OF assms, of c] that show False by simp
  qed
  moreover have "row_conn R r = Some c \<longleftrightarrow> rows_native (R r) \<noteq> None \<and> parentConn (R r) = Some c"
    "reg_conn T s = Some c \<longleftrightarrow> registered (T s) \<and> stmt_parent (T s) = Some c" for r s
    by (simp_all add: row_conn_def reg_conn_def)
  ultimately show ?thesis using conn_idle [OF assms, of c] by blast
qed

text \<open>C17: The contract of \<^verbatim>\<open>Conn.Close\<close>. In any reachable state it fails, with \<^verbatim>\<open>ErrBusy\<close> and
  without any effect, exactly when the connection is open and in a transaction, or has an open result set
  or a registered statement; otherwise it succeeds, the connection is closed afterwards, the native
  connection it held is closed with it, and nothing else changes. The native layer never refuses.\<close>

theorem core_close_contract:
  "let w = run_ops (co_step S pf) ops core_init; (r, w') = run_state (Conn_Close (Some c)) w; x = conns w c in
   if conn_native x = None then r = Inr () \<and> same_objects w w'
   else if txActive x \<or> (\<exists>i. rows_native (rowss w i) \<noteq> None \<and> parentConn (rowss w i) = Some c) \<or>
     (\<exists>s. registered (stmts w s) \<and> stmt_parent (stmts w s) = Some c)
   then r = Inl ErrBusy \<and> same_objects w w'
   else r = Inr () \<and> conns w' = (conns w)(c := x\<lparr>conn_native := None\<rparr>) \<and>
     cview (csdk_of w') = (cview (csdk_of w))
       \<lparr>kopen := (kopen (cview (csdk_of w)))(the (conn_native x) := False)\<rparr> \<and>
     rowss w' = rowss w \<and> stmts w' = stmts w \<and> txs w' = txs w"
proof -
  let ?w = "co_run S pf ops"
  obtain r w' where m: "run_state (Conn_Close (Some c)) ?w = (r, w')" by fastforce
  note q = run_awp(2) [OF awp_Conn_Close [OF co_run_hok] m]
  note busy = busy_iff [OF co_run_hinv [of S pf ops], of c, symmetric]
  from q show ?thesis
    unfolding Let_def m prod.case busy by (auto simp: abs_core_def same_objects_def split: if_splits)
qed

section \<open>Transactions\<close>

text \<open>C18: A connection is in a transaction exactly while one \<^verbatim>\<open>Tx\<close> object refers to it. In every reachable
  state \<^verbatim>\<open>txActive\<close> is set on a connection if and only if there is exactly one transaction object that
  holds it; that transaction is not done, and the connection is open, so it can neither be closed nor
  enter a second transaction meanwhile.\<close>

theorem core_tx:
  "let w = run_ops (co_step S pf) ops core_init in
   (txActive (conns w c) \<longleftrightarrow> (\<exists>!t. tx_conn (txs w t) = Some c)) \<and>
   {t. tx_conn (txs w t) \<noteq> None} \<subseteq> {t. \<not> tx_done (txs w t)} \<and>
   {c. txActive (conns w c)} \<subseteq> {c. conn_native (conns w c) \<noteq> None}"
proof -
  note h = hinvD(8) [OF co_run_hinv [of S pf ops], unfolded txs_ok_def]
  have "txActive (conns (co_run S pf ops) c) \<longleftrightarrow> (\<exists>!t. tx_conn (txs (co_run S pf ops) t) = Some c)"
    using h unfolding owns_def by metis
  with h show ?thesis by (auto simp: Let_def)
qed

lemma awp_Background: "Q (Inr ()) A \<Longrightarrow> awp (contextError Background) Q A"
proof (rule awpI)
  fix w assume Q: "Q (Inr ()) A" and w: "csdk_ok (csdk_of w)" "abs_core w = A"
  have "wp (contextError Background) (\<lambda>r w'. csdk_ok (csdk_of w') \<and> A = abs_core w') w"
    by (rule awpD [OF awp_contextError [of "\<lambda>_. (=) A"] w]) simp
  then show "wp (contextError Background) (\<lambda>r w'. csdk_ok (csdk_of w') \<and> Q r (abs_core w')) w"
    using Q by (auto simp: contextError_def wp_simps tick_clock_def wp_coC wp_csN)
qed

text \<open>The successful outcome of \<^verbatim>\<open>Commit\<close> and \<^verbatim>\<open>Rollback\<close>.\<close>

definition ended :: "acore \<Rightarrow> nat \<Rightarrow> acore \<Rightarrow> bool" where
  "ended A t B \<longleftrightarrow> (\<exists>c. tx_conn (a_txs A t) = Some c \<and> txActive (a_conns A c) \<and> children (a_conns A c) = 0 \<and>
     B = A\<lparr>a_conns := (a_conns A)(c := (a_conns A c)\<lparr>txActive := False\<rparr>),
       a_txs := (a_txs A)(t := \<lparr>tx_conn = None, tx_done = True\<rparr>)\<rparr>)"

lemma awp_Tx_finish:
  assumes "a_held A = []"
  shows "awp (Tx_finish S ctx (Some t) commit) (\<lambda>r B. case r of Inl _ \<Rightarrow> B = A | Inr _ \<Rightarrow> ended A t B) A"
  unfolding Tx_finish_def option.case(2)
  by (intro awp_tryE [of "contextError ctx"] awp_contextError [OF either_any] awp_case_option awp_throw awp_locked
      awp_bind awp_gets awp_if awp_tryE awp_coE_either awp_quiet_calls [OF either_any] awp_upd awp_ok)
    (use assms in \<open>auto simp: ended_def\<close>)

lemma awp_Tx_finish_done:
  assumes "tx_conn (a_txs A t) = None" and "a_held A = []"
  shows "awp (Tx_finish S Background (Some t) commit) (\<lambda>r B. r = Inl ErrTxDone \<and> B = A) A"
  unfolding Tx_finish_def option.case(2)
  by (intro awp_tryE [of "contextError _"] awp_Background either_Inr awp_locked awp_bind awp_gets)
    (use assms in \<open>auto intro: awp_throw\<close>)

text \<open>C7: \<^verbatim>\<open>Tx.Commit\<close> and \<^verbatim>\<open>Tx.Rollback\<close> are all or nothing, and final. In any reachable state, a
  finish that reports an error (a cancelled context, open children, a server error, a finished or nil
  transaction) changes no object, so the transaction is still open and can be finished again; one that
  succeeds found the transaction open on a connection without children, ends it on both objects and
  changes nothing else, and every later \<^verbatim>\<open>Commit\<close> or \<^verbatim>\<open>Rollback\<close> of it fails with \<^verbatim>\<open>ErrTxDone\<close>.\<close>

theorem tx_finish_contract:
  "let w = run_ops (co_step S pf) ops core_init; (r, w') = run_state (Tx_finish S ctx (Some t) commit) w in
   case r of
     Inl e \<Rightarrow> same_objects w w'
   | Inr _ \<Rightarrow>
       (\<exists>c. tx_conn (txs w t) = Some c \<and> txActive (conns w c) \<and> children (conns w c) = 0 \<and>
          conns w' = (conns w)(c := (conns w c)\<lparr>txActive := False\<rparr>) \<and>
          txs w' = (txs w)(t := \<lparr>tx_conn = None, tx_done = True\<rparr>) \<and>
          cview (csdk_of w') = cview (csdk_of w) \<and> rowss w' = rowss w \<and> stmts w' = stmts w) \<and>
       fst (run_state (Tx_Commit S (Some t)) w') = Inl ErrTxDone \<and>
       fst (run_state (Tx_Rollback S (Some t)) w') = Inl ErrTxDone"
proof -
  let ?w = "co_run S pf ops"
  obtain r w' where m: "run_state (Tx_finish S ctx (Some t) commit) ?w = (r, w')" by fastforce
  note q = run_awp [OF awp_Tx_finish [OF co_run_hok(2)] m]
  show ?thesis
  proof (cases r)
    case (Inl e)
    with q(2) show ?thesis
      unfolding Let_def m prod.case by (simp add: same_objects_def abs_core_def)
  next
    case (Inr u)
    with q(2) have e: "ended (abs_core ?w) t (abs_core w')" by simp
    have "tx_conn (a_txs (abs_core w') t) = None" "a_held (abs_core w') = []"
      using e co_run_hok(2) [of S pf ops] by (auto simp: ended_def)
    note again = awpD [OF awp_Tx_finish_done [OF this] q(1) refl]
    have "fst (run_state (Tx_finish S Background (Some t) b) w') = Inl ErrTxDone" for b
      using again [of S b] by (auto simp: wp_def split: prod.splits)
    with e Inr show ?thesis
      unfolding Let_def m prod.case
      by (auto simp: ended_def abs_core_def Tx_Commit_def Tx_CommitContext_def Tx_Rollback_def Tx_RollbackContext_def)
  qed
qed

end
