(* ===== verification/Cube_Error_Classes.thy ===== *)
theory Cube_Error_Classes
  imports Cube_Conn
begin

text \<open>
  Which errors the methods of the two lower packages return. A class of errors is a predicate, and
  \<open>fails_in E m\<close> says that \<open>m\<close> fails in class \<open>E\<close> from every state; the rules for the control structures
  are in \<open>Cube_Prelude\<close>. The private package fails in \<open>cs_error\<close>, the public one in \<open>core_error\<close> or with
  the error of the caller's context. What every method returns is collected in \<^verbatim>\<open>Cube_Core_Errors\<close>.
\<close>

section \<open>The private package\<close>

definition cs_error :: "gerror \<Rightarrow> bool" where
  "cs_error e \<longleftrightarrow> e \<in> {CsClosed, CsBusy, CsInvalidArgument, CsUnsupported} \<or> (\<exists>c m. e = CsError c m)"

lemma cs_error_simps [simp]:
  "cs_error CsClosed" "cs_error CsBusy" "cs_error CsInvalidArgument" "cs_error CsUnsupported" "cs_error (CsError c m)"
  by (simp_all add: cs_error_def)

lemma fails_result:
  assumes "fails_in D m" and "\<And>r. (\<And>e. r = Inl e \<Longrightarrow> D e) \<Longrightarrow> fails_in E (k r)"
  shows "fails_in E (m \<bind> k)"
proof -
  have "wp (k (fst (run_state m s))) (\<lambda>r _. case r of Inl e \<Rightarrow> E e | Inr _ \<Rightarrow> True) (snd (run_state m s))" for s
    using assms(2) [of "fst (run_state m s)"] assms(1)
    by (auto simp: fails_in_def wp_run split: sum.splits)
  then show ?thesis by (simp add: fails_in_def wp_simps) (simp add: wp_run)
qed

lemma fails_then_return: "fails_in E m \<Longrightarrow> fails_in E (m \<bind> (\<lambda>r. c r \<bind> (\<lambda>_. State_Monad.return r)))"
  by (erule fails_result, rule fails_bind, rule fails_return)

lemma fails_option:
  "(x = None \<Longrightarrow> fails_in E m) \<Longrightarrow> (\<And>v. x = Some v \<Longrightarrow> fails_in E (f v)) \<Longrightarrow>
     fails_in E (case x of None \<Rightarrow> m | Some v \<Rightarrow> f v)"
  by (simp split: option.split)

lemmas fails_control = fails_basic fails_tryE fails_case fails_if fails_zoom fails_bind

lemma fails_cs_locked: "fails_in E body \<Longrightarrow> fails_in E (cs_locked l body)"
  unfolding cs_locked_def by (rule fails_bind, erule fails_then_return)

lemma fails_guards:
  "(\<And>a p. fails_in cs_error (f a p)) \<Longrightarrow> fails_in cs_error (with_open_conn conn f)"
  "(\<And>p. fails_in cs_error (g p)) \<Longrightarrow> fails_in cs_error (with_open_rows rows g)"
  "(\<And>a p. fails_in cs_error (f a p)) \<Longrightarrow> fails_in cs_error (with_open_stmt st f)"
  "(\<And>p. fails_in cs_error (g p)) \<Longrightarrow> fails_in cs_error (with_open_bind bnd g)"
  unfolding with_open_conn_def with_open_rows_def with_open_stmt_def with_open_bind_def
  by (intro fails_cs_locked fails_control; simp)+

lemma fails_native: "fails_in cs_error (nativeErrorLocked S a c \<bind> throw)"
  unfolding nativeErrorLocked_def by (simp add: fails_in_def wp_simps wp_run Let_def)

lemma fails_check: "fails_in cs_error (check_result S a r)"
  unfolding check_result_def by (intro fails_if fails_native fails_basic)

named_theorems fails_csdk

lemma fails_calls [fails_csdk]:
  "fails_in cs_error (csConn_call S conn f)" "fails_in cs_error (csConn_metric S conn f)"
  "fails_in cs_error (csRows_call rows g)" "fails_in cs_error (csRows_number rows g)"
  "fails_in cs_error (csRows_copyField rows h)" "fails_in cs_error (csStmt_call S st f)"
  "fails_in cs_error (csStmt_unsupported st)" "fails_in cs_error (csBind_set bnd g)"
  "fails_in cs_error (csBind_unsupported bnd)"
  unfolding csConn_call_def csConn_metric_def csRows_call_def csRows_number_def csRows_copyField_def csStmt_call_def
    csStmt_unsupported_def csBind_set_def csBind_unsupported_def
  by (intro fails_guards fails_native fails_check fails_control; simp)+

lemma fails_csConn [fails_csdk]:
  "fails_in cs_error (cs_Open S opts)" "fails_in cs_error (csConn_Close conn)" "fails_in cs_error (csConn_Ping S conn)"
  "fails_in cs_error (csConn_Exec S conn sql)" "fails_in cs_error (csConn_SetDatabase S conn name)"
  "fails_in cs_error (csConn_Begin S conn)" "fails_in cs_error (csConn_Commit S conn)"
  "fails_in cs_error (csConn_Rollback S conn)" "fails_in cs_error (csConn_AffectedRows S conn)"
  "fails_in cs_error (csConn_LastInsertID S conn)" "fails_in cs_error (csConn_Changes S conn)"
  "fails_in cs_error (csConn_Query S conn sql)" "fails_in cs_error (csConn_Prepare S conn sql)"
  "fails_in cs_error (csConn_ExecBind S conn sql bnd)"
  unfolding cs_Open_def csConn_Close_def csConn_Ping_def csConn_Exec_def csConn_SetDatabase_def csConn_Begin_def
    csConn_Commit_def csConn_Rollback_def csConn_AffectedRows_def csConn_LastInsertID_def csConn_Changes_def
    csConn_Query_def csConn_Prepare_def csConn_ExecBind_def new_rows_def Let_def
  by (intro fails_calls fails_cs_locked fails_guards fails_check fails_control; simp)+

lemma fails_handles [fails_csdk]:
  "fails_in cs_error (cs_NewBind S count)" "fails_in cs_error (csBind_Close bnd)"
  "fails_in cs_error (csBind_SetInt64 S bnd i v)" "fails_in cs_error (csBind_SetDouble S bnd i x)"
  "fails_in cs_error (csBind_SetText S bnd i s)" "fails_in cs_error (csBind_SetBlob S bnd i s)"
  "fails_in cs_error (csBind_SetNull S bnd i)" "fails_in cs_error (csBind_SetZeroBlob bnd i z)"
  "fails_in cs_error (csRows_Close rows)" "fails_in cs_error (csRows_NumRows S rows)"
  "fails_in cs_error (csRows_NumColumns S rows)" "fails_in cs_error (csRows_ColumnType S rows c)"
  "fails_in cs_error (csRows_Seek S rows r)" "fails_in cs_error (csRows_Field S rows r c)"
  "fails_in cs_error (csRows_ColumnName S rows c)" "fails_in cs_error (csStmt_Close S st)"
  "fails_in cs_error (csStmt_BindInt64 S st i v)" "fails_in cs_error (csStmt_BindDouble S st i x)"
  "fails_in cs_error (csStmt_BindText S st i s)" "fails_in cs_error (csStmt_BindBlob S st i s)"
  "fails_in cs_error (csStmt_BindNull S st i)" "fails_in cs_error (csStmt_BindZeroBlob S st i z)"
  "fails_in cs_error (csStmt_Exec S st)" "fails_in cs_error (csStmt_Query S st)"
  unfolding cs_NewBind_def csBind_Close_def csBind_SetInt64_def csBind_SetDouble_def csBind_SetText_def csBind_SetBlob_def
    csBind_SetNull_def csBind_SetZeroBlob_def csBind_setBytes_def csRows_Close_def csRows_NumRows_def
    csRows_NumColumns_def csRows_ColumnType_def csRows_Seek_def csRows_Field_def csRows_ColumnName_def
    csStmt_Close_def csStmt_BindInt64_def csStmt_BindDouble_def csStmt_BindText_def csStmt_BindBlob_def
    csStmt_BindNull_def csStmt_BindZeroBlob_def csStmt_bindBytes_def csStmt_Exec_def csStmt_Query_def new_rows_def
  by (intro fails_calls fails_cs_locked fails_guards fails_check fails_control; simp)+

section \<open>The public package\<close>

text \<open>
  The errors the package itself makes. An SDK error carries the kind its code and message classify as.
\<close>

fun core_error :: "gerror \<Rightarrow> bool" where
  "core_error (Joined es) \<longleftrightarrow> list_all core_error es"
| "core_error (SdkError c m k) \<longleftrightarrow> k = classifyError c m"
| "core_error e \<longleftrightarrow> e \<in> {ErrClosed, ErrBusy, ErrInvalidArgument, ErrUnsupported, ErrTxDone}"

definition ctx_error :: "ctx \<Rightarrow> gerror \<Rightarrow> bool" where
  "ctx_error ctx e \<longleftrightarrow> core_error e \<or> (\<exists>n. ctx = CancelAt n e)"

lemma ctx_error_core: "core_error e \<Longrightarrow> ctx_error ctx e"
  by (simp add: ctx_error_def)

lemma ctx_error_Background: "ctx_error Background = core_error"
  by (simp add: fun_eq_iff ctx_error_def)

lemma publicError_core: "cs_error e \<Longrightarrow> core_error (publicError e)"
  by (auto simp: cs_error_def)

lemma publicError_or: "core_error (publicError e) \<or> publicError e = e"
  by (auto simp: publicError_def split: option.split)

lemma ctx_error_public: "ctx_error ctx e \<Longrightarrow> ctx_error ctx (publicError e)"
proof -
  assume "ctx_error ctx e"
  with publicError_or [of e] show ?thesis by (auto simp: ctx_error_def)
qed

lemma fails_coE: "fails_in cs_error m \<Longrightarrow> fails_in core_error (coE m)"
  unfolding coE_def coC_def by (erule fails_mapE [OF fails_zoom], rule publicError_core)

lemma fails_coE_ctx: "fails_in cs_error m \<Longrightarrow> fails_in (ctx_error ctx) (coE m)"
  by (rule fails_mono [OF fails_coE]) (auto intro: ctx_error_core)

lemma fails_co_locked: "fails_in E body \<Longrightarrow> fails_in E (co_locked l body)"
  unfolding co_locked_def by (rule fails_bind, erule fails_then_return)

lemma fails_contextError: "fails_in (ctx_error ctx) (contextError ctx)"
  unfolding contextError_def by (auto intro!: fails_control simp: ctx_error_def split: ctx.split)

lemma fails_set: "fails_in (ctx_error ctx) (setOneShot S b i v)" "fails_in (ctx_error ctx) (setPrepared S st i v)"
  unfolding setOneShot_def setPrepared_def
  by (auto intro!: fails_control fails_coE_ctx fails_csdk simp: ctx_error_def split: any.split)

lemmas core_control =
  fails_co_locked fails_coE fails_coE_ctx fails_csdk fails_contextError fails_set fails_catchE fails_mapE fails_deferE
  fails_eachE fails_control

named_theorems fails_core

lemma ctx_error_simps [simp]:
  "ctx_error ctx ErrClosed" "ctx_error ctx ErrBusy" "ctx_error ctx ErrInvalidArgument" "ctx_error ctx ErrTxDone"
  by (simp_all add: ctx_error_def)

lemma fails_close [fails_core]:
  "fails_in core_error (releaseRow S s b)" "fails_in core_error (Rows_Close S rows)" "fails_in core_error (Stmt_Close S st)"
  "fails_in core_error (Conn_Close c)"
proof -
  show row: "fails_in core_error (releaseRow S s b)" for s b
    unfolding releaseRow_def by (intro fails_then_return core_control; simp)
  show "fails_in core_error (Stmt_Close S st)" "fails_in core_error (Conn_Close c)"
    unfolding Stmt_Close_def Conn_Close_def by (intro fails_then_return core_control; simp)+
  have join: "core_error e" if "join_errors a b = Some e" "\<And>x. a = Some x \<Longrightarrow> core_error x"
    "\<And>x. b = Some x \<Longrightarrow> core_error x" for a b e
    using that by (auto simp: join_errors_def split: option.splits)
  show "fails_in core_error (Rows_Close S rows)"
    unfolding Rows_Close_def
    by (intro fails_option fails_basic(1) fails_co_locked fails_if fails_bind [where m = "gets f" for f]
        fails_bind [where m = "upd_rows r f" for r f] fails_bind [where m = "releaseChild c" for c]
        fails_result [where D = core_error] fails_coE fails_csdk row)
      (auto intro!: fails_basic elim!: join simp: row error_of_def split: option.splits sum.splits)
qed

text \<open>\<open>close_and\<close>: a failing step cleans up and returns its error.\<close>

lemma fails_ctx_close:
  "fails_in core_error m \<Longrightarrow> fails_in (ctx_error ctx) m"
  by (erule fails_mono) (rule ctx_error_core)

lemma fails_catch_ctx:
  assumes "fails_in (ctx_error ctx) m" and "\<And>e. ctx_error ctx e \<Longrightarrow> fails_in (ctx_error ctx) (h e)"
    and "\<And>v. fails_in (ctx_error ctx) (k v)"
  shows "fails_in (ctx_error ctx) (catchE m h k)"
  by (rule fails_catchE [OF assms])

lemmas ctx_control = fails_catch_ctx fails_then_return fails_co_locked fails_coE_ctx fails_csdk fails_contextError
  fails_set fails_deferE fails_eachE fails_control

lemma fails_newRows [fails_core]: "fails_in (ctx_error ctx) (newRowsContext S ctx native)"
proof -
  have "fails_in (ctx_error ctx) (read_column S ctx native r i)" for r i
    unfolding read_column_def Let_def by (intro ctx_control)
  then show ?thesis unfolding newRowsContext_def Let_def by (intro ctx_control)
qed

lemma fails_with [fails_core]:
  "(\<And>c n. fails_in (ctx_error ctx) (body c n)) \<Longrightarrow> fails_in (ctx_error ctx) (with_conn_locked conn busy body)"
  "(\<And>n. fails_in D (f n)) \<Longrightarrow> (\<And>e. D e \<Longrightarrow> ctx_error ctx (publicError e)) \<Longrightarrow>
     fails_in (ctx_error ctx) (Conn_call conn f)"
  "(\<And>n. fails_in D (f n)) \<Longrightarrow> (\<And>e. D e \<Longrightarrow> ctx_error ctx (publicError e)) \<Longrightarrow>
     fails_in (ctx_error ctx) (Stmt_call st f)"
  "(\<And>c. fails_in (ctx_error ctx) (bd c)) \<Longrightarrow> fails_in (ctx_error ctx) (with_tx ctx tx bd)"
  unfolding with_conn_locked_def Conn_call_def Stmt_call_def with_tx_def
  by (intro ctx_control fails_mapE [where D = D]; simp)+

lemma fails_ctx_csdk: "fails_in cs_error m \<Longrightarrow> fails_in (\<lambda>e. cs_error e \<or> ctx_error ctx e) (coC m)"
  unfolding coC_def by (rule fails_zoom, erule fails_mono) simp

lemma fails_Ping [fails_core]: "fails_in (ctx_error ctx) (Conn_PingContext S ctx conn)"
proof -
  have "fails_in (\<lambda>e. cs_error e \<or> ctx_error ctx e) (tryE (contextError ctx) (\<lambda>_. coC (csConn_Ping S n)))" for n
    by (intro fails_tryE fails_ctx_csdk fails_csdk fails_mono [OF fails_contextError]) simp
  then show ?thesis
    unfolding Conn_PingContext_def
    by (intro fails_tryE fails_contextError, elim fails_with)
      (auto intro: ctx_error_public ctx_error_core publicError_core)
qed

lemma fails_conn [fails_core]:
  "fails_in (ctx_error ctx) (Conn_SetDatabaseContext S ctx conn name)"
  "fails_in (ctx_error ctx) (Conn_ExecContext S ctx conn query args)"
  "fails_in (ctx_error ctx) (Conn_PrepareContext S ctx conn query)"
  "fails_in (ctx_error ctx) (Conn_BeginContext S ctx conn)"
  "fails_in (ctx_error ctx) (finishImplicit S ctx conn b)"
  "fails_in (ctx_error ctx) (Tx_finish S ctx tx b)"
  unfolding Conn_SetDatabaseContext_def Conn_ExecContext_def Conn_PrepareContext_def Conn_BeginContext_def
    finishImplicit_def Tx_finish_def bind_prepared_def bind_one_shot_def
  by (intro ctx_control fails_with; simp)+

lemma fails_open [fails_core]: "fails_in (\<lambda>e. ctx_error ctx e) (OpenContext S ctx opts)"
proof -
  have "core_error e" if "options_native opts = Inl e" for e
    using that by (auto simp: options_native_def Let_def split: if_splits)
  then show ?thesis
    unfolding OpenContext_def
    by (intro fails_tryE fails_contextError) (auto intro!: ctx_control intro: ctx_error_core split: sum.split)
qed

lemma fails_stmt [fails_core]:
  "fails_in (ctx_error ctx) (Stmt_Bind S st i v)" "fails_in (ctx_error ctx) (Stmt_ExecContext S ctx st)"
  "fails_in (ctx_error ctx) (Stmt_ResetContext S ctx st)" "fails_in (ctx_error ctx) (Stmt_query S ctx st b)"
  "fails_in (ctx_error ctx) (addChild c)"
proof -
  show add: "fails_in (ctx_error ctx) (addChild c)" for c
    unfolding addChild_def by (intro ctx_control; simp)
  show "fails_in (ctx_error ctx) (Stmt_Bind S st i v)"
    unfolding Stmt_Bind_def
    by (intro fails_if fails_basic fails_with(3) [OF fails_set(2) [where ctx = ctx]]) (simp_all add: ctx_error_public)
  show "fails_in (ctx_error ctx) (Stmt_ExecContext S ctx st)" "fails_in (ctx_error ctx) (Stmt_ResetContext S ctx st)"
    unfolding Stmt_ExecContext_def Stmt_ResetContext_def Let_def
    by (intro ctx_control; simp)+
  show "fails_in (ctx_error ctx) (Stmt_query S ctx st b)"
    unfolding Stmt_query_def Let_def by (intro ctx_control fails_newRows add; simp)
qed

lemma fails_query [fails_core]: "fails_in (ctx_error ctx) (Conn_QueryContext S ctx conn query args)"
  unfolding Conn_QueryContext_def Let_def
  by (intro ctx_control fails_with fails_newRows fails_conn fails_stmt; simp)

lemma fails_rows [fails_core]:
  "fails_in (ctx_error ctx) (Rows_SeekContext S ctx rows row)" "fails_in (ctx_error ctx) (Rows_ValueContext S ctx rows c)"
  unfolding Rows_SeekContext_def Rows_ValueContext_def valueLocked_def
  by (intro ctx_control; simp)+

lemma fails_inD: "fails_in E m \<Longrightarrow> fst (run_state m w) = Inl e \<Longrightarrow> E e"
  by (simp add: fails_in_def wp_run) (metis sum.case(1))

lemma core_error_hides: "core_error e \<Longrightarrow> \<not> mentions_csdk e" "core_error e \<Longrightarrow> \<not> err_is e ErrBadConn"
proof -
  have "kind_sentinel k \<noteq> Some ErrBadConn" for k by (cases k) simp_all
  then show "core_error e \<Longrightarrow> \<not> mentions_csdk e" "core_error e \<Longrightarrow> \<not> err_is e ErrBadConn"
    by (induction e rule: core_error.induct) (auto simp: list_all_iff list_ex_iff)
qed

definition error_from :: "(core, gerror + 'a) state \<Rightarrow> core \<Rightarrow> gerror option" where
  "error_from m w = error_of (fst (run_state m w))"

lemma error_from_in: "fails_in E m \<Longrightarrow> case error_from m w of None \<Rightarrow> True | Some e \<Rightarrow> E e"
  by (auto simp: error_from_def error_of_def dest: fails_inD split: sum.split)

end
