(* ===== verification/Cube_Core_Identity.thy ===== *)
theory Cube_Core_Identity
  imports Cube_Core_Run Cube_Error_Classes
begin

text \<open>
  What every method of the public package leaves alone in existing objects. The locale \<open>object_frame\<close>
  is the interface of an invariant of the objects: closed under the kinds of assignment the code makes.
  Inside it every method is shown to keep such an invariant. The class \<open>E\<close> is that of the errors a result set
  may record. The invariants of interest, that objects keep their identity, that a result set has one type per
  column and that it records only errors of a class, are interpretations.
\<close>

section \<open>The interface\<close>

definition conn_change :: "conn \<Rightarrow> conn \<Rightarrow> bool" where
  "conn_change x y \<longleftrightarrow> conn_native y = conn_native x \<or> conn_native y = None"

definition rows_change :: "rows \<Rightarrow> rows \<Rightarrow> bool" where
  "rows_change x y \<longleftrightarrow> (rows_native y = rows_native x \<or> rows_native y = None) \<and> total y = total x \<and>
     length (columns y) = length (columns x) \<and> length (types y) = length (types x) \<and>
     (rows_err y = rows_err x \<or> rows_err y = None)"

definition stmt_change :: "stmt \<Rightarrow> stmt \<Rightarrow> bool" where
  "stmt_change x y \<longleftrightarrow> stmt_parent y = stmt_parent x \<and> queryText y = queryText x"

type_synonym objects =
  "(nat \<Rightarrow> conn) \<times> (nat \<Rightarrow> rows) \<times> (nat \<Rightarrow> stmt) \<times> (nat \<Rightarrow> tx) \<times> nat"

definition objects_of :: "core \<Rightarrow> objects" where
  "objects_of w = (conns w, rowss w, stmts w, txs w, co_next w)"

text \<open>The error a \<^verbatim>\<open>NextContext\<close> may take from its context\<close>

fun next_errors :: "co_op \<Rightarrow> gerror set" where
  "next_errors (CoRows r (RNext (CancelAt n e))) = {e}"
| "next_errors _ = {}"

locale object_frame =
  fixes E :: "gerror \<Rightarrow> bool"
    and I :: "objects \<Rightarrow> bool"
  assumes core_in: "core_error e \<Longrightarrow> E e"
    and conn_set: "I (C, R, T, X, n) \<Longrightarrow> conn_change (C c) x \<Longrightarrow> I (C(c := x), R, T, X, n)"
    and rows_set: "I (C, R, T, X, n) \<Longrightarrow> rows_change (R r) y \<Longrightarrow> I (C, R(r := y), T, X, n)"
    and rows_fail: "I (C, R, T, X, n) \<Longrightarrow> E e \<Longrightarrow> I (C, R(r := (R r)\<lparr>rows_err := Some e\<rparr>), T, X, n)"
    and stmt_set: "I (C, R, T, X, n) \<Longrightarrow> stmt_change (T s) z \<Longrightarrow> I (C, R, T(s := z), X, n)"
    and tx_done: "I (C, R, T, X, n) \<Longrightarrow> I (C, R, T, X(t := \<lparr>tx_conn = None, tx_done = True\<rparr>), n)"
    and conn_new: "I (C, R, T, X, n) \<Longrightarrow> I (C(n := x), R, T, X, Suc n)"
    and rows_new: "I (C, R, T, X, n) \<Longrightarrow> length (columns y) = length (types y) \<Longrightarrow> rows_err y = None \<Longrightarrow> I (C, R(n := y), T, X, Suc n)"
    and stmt_new: "I (C, R, T, X, n) \<Longrightarrow> I (C, R, T(n := z), X, Suc n)"
    and tx_new: "I (C, R, T, X, n) \<Longrightarrow> I (C, R, T, X(n := v), Suc n)"
begin

definition inv :: "core \<Rightarrow> bool" where
  "inv w \<longleftrightarrow> I (objects_of w)"

lemma stays_new:
  "(\<And>c. stays inv (k c)) \<Longrightarrow> stays inv (co_new \<bind> (\<lambda>c. upd_conn c (\<lambda>_. x) \<bind> (\<lambda>_. k c)))"
  "(\<And>r. stays inv (k r)) \<Longrightarrow> length (columns y) = length (types y) \<Longrightarrow> rows_err y = None \<Longrightarrow>
     stays inv (co_new \<bind> (\<lambda>r. upd_rows r (\<lambda>_. y) \<bind> (\<lambda>_. k r)))"
  "(\<And>s. stays inv (k s)) \<Longrightarrow> stays inv (co_new \<bind> (\<lambda>s. upd_stmt s (\<lambda>_. z) \<bind> (\<lambda>_. k s)))"
  "(\<And>t. stays inv (k t)) \<Longrightarrow> stays inv (co_new \<bind> (\<lambda>t. upd_tx t (\<lambda>_. v) \<bind> (\<lambda>_. k t)))"
  by (simp_all add: stays_def co_new_def upd_conn_def upd_rows_def upd_stmt_def upd_tx_def wp_simps inv_def
      objects_of_def conn_new rows_new stmt_new tx_new)

lemma stays_upd:
  "(\<And>x. conn_change x (f x)) \<Longrightarrow> stays inv (upd_conn c f)"
  "(\<And>y. rows_change y (g y)) \<Longrightarrow> stays inv (upd_rows r g)"
  "(\<And>z. stmt_change z (h z)) \<Longrightarrow> stays inv (upd_stmt s h)"
  "stays inv (upd_tx t (\<lambda>_. \<lparr>tx_conn = None, tx_done = True\<rparr>))"
  "E e \<Longrightarrow> stays inv (upd_rows r (\<lambda>y. y\<lparr>rows_err := Some e\<rparr>))"
  by (simp_all add: stays_def upd_conn_def upd_rows_def upd_stmt_def upd_tx_def wp_simps inv_def
      objects_of_def conn_set rows_set rows_fail stmt_set tx_done)

lemma stays_coC: "stays inv (coC m)"
  by (simp add: stays_def coC_def wp_simps inv_def objects_of_def wp_run)

lemma stays_coE: "stays inv (coE m)"
  unfolding coE_def mapE_def by (intro stays_control stays_coC)

lemma stays_mapE: "stays inv m \<Longrightarrow> stays inv (mapE f m)"
  unfolding mapE_def by (intro stays_control)

lemma stays_deferE: "stays inv c \<Longrightarrow> stays inv m \<Longrightarrow> stays inv (deferE c m)"
  unfolding deferE_def by (intro stays_control)

lemma stays_eachE: "(\<And>i x. stays inv (f i x)) \<Longrightarrow> stays inv (eachE f i xs)"
  by (induction xs arbitrary: i) (simp_all add: stays_basic stays_tryE)

lemma stays_locked: "stays inv body \<Longrightarrow> stays inv (co_locked l body)"
  unfolding co_locked_def by (intro stays_control stays_coC)

lemma stays_contextError: "stays inv (contextError ctx)"
  unfolding contextError_def tick_clock_def by (cases ctx) (simp; intro stays_control stays_coC)+

lemmas changes = conn_change_def rows_change_def stmt_change_def

lemmas frame_control =
  stays_new stays_coE stays_coC stays_upd stays_mapE stays_deferE stays_eachE stays_locked stays_contextError
  stays_control

lemma stays_release: "stays inv (releaseChild c)" "stays inv (releaseRow S s b)" "stays inv (addChild c)"
  "stays inv (unregister s c')"
  unfolding releaseChild_def releaseRow_def addChild_def unregister_def
  by (intro frame_control; simp add: changes)+

lemma stays_set: "stays inv (setOneShot S b i v)" "stays inv (setPrepared S st i v)"
  unfolding setOneShot_def setPrepared_def by (auto intro!: frame_control split: any.split)

lemma stays_result: "stays inv (resultForContext S ctx native)"
  unfolding resultForContext_def by (intro frame_control)

lemma stays_newRows: "stays inv (Rows_Close S rows)" "stays inv (newRowsContext S ctx native)"
proof -
  show close: "stays inv (Rows_Close S rows)" for rows
    unfolding Rows_Close_def by (intro frame_control stays_release) (simp_all add: changes)
  have "stays inv (read_column S ctx native r i)" for r i
    unfolding read_column_def Let_def by (intro frame_control close) (simp add: changes)
  then show "stays inv (newRowsContext S ctx native)"
    unfolding newRowsContext_def Let_def by (intro frame_control) (simp_all add: zero_rows_def)
qed

lemma stays_rows: "stays inv (Rows_Columns r)" "stays inv (Rows_ColumnTypes r)" "stays inv (Rows_NumRows r)"
  "stays inv (Rows_Err r)" "stays inv (Rows_SeekContext S ctx r row)"
  "stays inv (Rows_ValueContext S ctx r column)"
  unfolding Rows_Columns_def Rows_ColumnTypes_def Rows_NumRows_def Rows_Err_def
    Rows_SeekContext_def Rows_ValueContext_def valueLocked_def Let_def
  by (intro frame_control; simp add: changes)+

text \<open>\<^verbatim>\<open>NextContext\<close> alone records an error.\<close>

lemma stays_outcome:
  assumes "fails_in D m" "stays inv m" "\<And>e. D e \<Longrightarrow> stays inv (g e)" "\<And>v. stays inv (h v)"
  shows "stays inv (m \<bind> (\<lambda>r. case r of Inl e \<Rightarrow> g e | Inr v \<Rightarrow> h v))"
proof (rule staysI)
  fix w assume "inv w"
  with assms(1,2) have "wp m (\<lambda>r w. (case r of Inl e \<Rightarrow> D e | Inr _ \<Rightarrow> True) \<and> inv w) w"
    by (simp add: fails_in_def stays_def wp_run)
  then show "wp (m \<bind> (\<lambda>r. case r of Inl e \<Rightarrow> g e | Inr v \<Rightarrow> h v)) (\<lambda>_. inv) w"
    unfolding wp_bind by (rule wp_mono) (use assms(3,4) in \<open>auto simp: stays_def split: sum.splits\<close>)
qed

lemma stays_next:
  assumes "\<And>n e. ctx = CancelAt n e \<Longrightarrow> E e"
  shows "stays inv (Rows_NextContext S ctx r)"
proof -
  have E: "E e" if "ctx_error ctx e" for e
    using that assms core_in by (auto simp: ctx_error_def)
  have err: "E e \<Longrightarrow> stays inv (upd_rows r (\<lambda>y. y\<lparr>rows_err := Some e\<rparr>) \<bind> (\<lambda>_. State_Monad.return False))" for r e
    by (intro stays_bind stays_upd(5) stays_basic)
  have closed: "stays inv ((if b then upd_rows r (\<lambda>y. y\<lparr>rows_err := Some ErrClosed\<rparr>) else State_Monad.return ()) \<bind>
      (\<lambda>_. State_Monad.return False))" for r b
    by (intro stays_bind stays_if stays_upd(5) stays_basic core_in) simp
  have seek: "stays inv (coE (csRows_Seek S native row) \<bind> (\<lambda>res. case res of
      Inl err \<Rightarrow> upd_rows r (\<lambda>y. y\<lparr>rows_err := Some err\<rparr>) \<bind> (\<lambda>_. State_Monad.return False)
    | Inr _ \<Rightarrow> upd_rows r (\<lambda>y. y\<lparr>current := row\<rparr>) \<bind> (\<lambda>_. State_Monad.return True)))" for r native row
    by (rule stays_outcome [OF fails_coE [OF fails_handles(13)] stays_coE], erule err [OF core_in])
      (intro stays_bind stays_upd(2) stays_basic, simp add: changes)
  show ?thesis
    unfolding Rows_NextContext_def Let_def
    by (intro stays_case(1) stays_basic stays_locked stays_outcome [OF fails_contextError stays_contextError] err closed seek
        stays_bind [where m = "gets f" for f] stays_if) (rule E)
qed

lemma stays_scan: "stays inv (Rows_ScanContext S pf ctx r ds)"
proof -
  have "stays inv (valueLocked S ctx r column)" for r column
    unfolding valueLocked_def by (intro frame_control)
  then have "stays inv (scan_columns S pf ctx r column ds)" for r column ds
    by (induction ds arbitrary: column) (simp, intro frame_control, simp, intro frame_control)
  then show ?thesis unfolding Rows_ScanContext_def by (intro frame_control)
qed

lemma stays_stmt: "stays inv (Stmt_Close S s)" "stays inv (Stmt_Bind S s i v)" "stays inv (Stmt_ExecContext S ctx s)"
  "stays inv (Stmt_ResetContext S ctx s)"
  unfolding Stmt_Close_def Stmt_Bind_def Stmt_call_def Stmt_ExecContext_def Stmt_ResetContext_def Let_def
  by (intro frame_control stays_release stays_set stays_result; simp add: changes)+

lemma stays_Stmt_query: "stays inv (Stmt_query S ctx s b)"
  unfolding Stmt_query_def Let_def
  by (intro frame_control stays_release stays_newRows stays_stmt) (simp_all add: changes)

lemma stays_with: "(\<And>c n. stays inv (body c n)) \<Longrightarrow> stays inv (with_conn_locked conn busy body)"
  "(\<And>n. stays inv (f n)) \<Longrightarrow> stays inv (Conn_call conn f)" "stays inv (Conn_metric conn g)"
  "(\<And>c. stays inv (bd c)) \<Longrightarrow> stays inv (with_tx ctx tx bd)"
  unfolding with_conn_locked_def Conn_call_def Conn_metric_def with_tx_def
  by (intro frame_control; simp)+

lemma stays_conn: "stays inv (OpenContext S ctx opts)" "stays inv (Conn_Close c)" "stays inv (Conn_PingContext S ctx c)"
  "stays inv (Conn_SetDatabaseContext S ctx c name)" "stays inv (Conn_ExecContext S ctx c query args)"
  "stays inv (Conn_PrepareContext S ctx c query)" "stays inv (Conn_BeginContext S ctx c)"
  "stays inv (finishImplicit S ctx c b)" "stays inv (Tx_finish S ctx t b)"
  unfolding OpenContext_def Conn_Close_def Conn_PingContext_def Conn_SetDatabaseContext_def Conn_ExecContext_def
    Conn_PrepareContext_def Conn_BeginContext_def finishImplicit_def Tx_finish_def bind_prepared_def bind_one_shot_def
  by (intro frame_control stays_with stays_set stays_result; simp add: changes)+

lemma stays_query: "stays inv (Conn_QueryContext S ctx c query args)"
  unfolding Conn_QueryContext_def Let_def
  by (intro frame_control stays_with stays_newRows stays_conn stays_stmt stays_Stmt_query) (simp_all add: changes)

lemmas frame_methods = stays_newRows stays_rows stays_scan stays_stmt stays_Stmt_query stays_conn stays_query

lemma stays_void: "stays inv m \<Longrightarrow> stays inv (void m)"
  unfolding void_def by (intro stays_control)

lemma step_frame:
  assumes "next_errors op \<subseteq> Collect E"
  shows "stays inv (co_step S pf op)"
proof -
  have "stays inv (co_conn_step S c o1)" for c o1
    by (cases o1; simp add: Conn_AffectedRows_def Conn_LastInsertID_def Conn_Changes_def Conn_CommitContext_def
        Conn_RollbackContext_def; intro stays_void frame_methods stays_with)
  moreover have "stays inv (co_stmt_step S s o2)" for s o2
    by (cases o2; simp add: Stmt_QueryContext_def; intro stays_void frame_methods)
  moreover have "stays inv (co_rows_step S pf r o3)" if "op = CoRows r o3" for r o3
    using assms that by (cases o3; simp; intro stays_void frame_methods stays_next) auto
  moreover have "stays inv (co_tx_step S t o4)" for t o4
    by (cases o4; simp add: Tx_ExecContext_def Tx_QueryContext_def Tx_PrepareContext_def Tx_CommitContext_def
        Tx_RollbackContext_def; intro stays_void frame_methods stays_with)
  ultimately show ?thesis
    by (cases op) (simp_all add: stays_void stays_conn)
qed

lemma run_frame: "\<Union> (next_errors ` set ops) \<subseteq> Collect E \<Longrightarrow> inv w \<Longrightarrow> inv (run_ops (co_step S pf) ops w)"
proof (induction ops arbitrary: w)
  case (Cons op ops)
  then show ?case using step_frame [of op S pf] by (simp add: run_ops_def stays_def wp_run)
qed (simp add: run_ops_def)

end

section \<open>Identity of objects\<close>

text \<open>
  \<open>persists A B\<close>: every object of \<open>A\<close> is in \<open>B\<close> with the same parent, statement text and row count, and
  holds there the handle it held, or none.
\<close>

definition persists :: "objects \<Rightarrow> objects \<Rightarrow> bool" where
  "persists = (\<lambda>(C, R, T, X, n) (C', R', T', X', n'). n \<le> n' \<and>
     (conn_native \<circ> C') |` {..<n} \<subseteq>\<^sub>m conn_native \<circ> C \<and>
     (rows_native \<circ> R') |` {..<n} \<subseteq>\<^sub>m rows_native \<circ> R \<and>
     (tx_conn \<circ> X') |` {..<n} \<subseteq>\<^sub>m tx_conn \<circ> X \<and>
     map (\<lambda>i. (total (R' i), stmt_parent (T' i), queryText (T' i))) [0..<n] =
       map (\<lambda>i. (total (R i), stmt_parent (T i), queryText (T i))) [0..<n])"

lemma restrict_upd_le:
  "(f \<circ> F) |` A \<subseteq>\<^sub>m m \<Longrightarrow> f x = f (F i) \<or> f x = None \<or> i \<notin> A \<Longrightarrow> (f \<circ> F(i := x)) |` A \<subseteq>\<^sub>m m"
  by (auto simp: map_le_def restrict_map_def dom_def split: if_splits)

interpretation persistence: object_frame "\<lambda>_. True" "persists A" for A
  by unfold_locales
    (auto simp: persists_def conn_change_def rows_change_def stmt_change_def intro!: restrict_upd_le)

interpretation alignment: object_frame "\<lambda>_. True" "\<lambda>(C, R, T, X, n). \<forall>r. length (columns (R r)) = length (types (R r))"
  by unfold_locales (auto simp: rows_change_def)

text \<open>C12: An object of the public package never changes its identity. From any reachable state
  and for any further calls, every connection and result set that exists holds the native handle it held or
  none, so a closed one stays closed and none is ever re-pointed; a transaction holds the connection it was
  begun on or none, so a finished one stays finished; and the row count of a result set and the
  connection and text of a statement never change.\<close>

theorem object_identity:
  "let w = run_ops (co_step S pf) ops core_init; w' = run_ops (co_step S pf) ops' w; old = {..<co_next w} in
   co_next w \<le> co_next w' \<and>
   (conn_native \<circ> conns w') |` old \<subseteq>\<^sub>m conn_native \<circ> conns w \<and>
   (rows_native \<circ> rowss w') |` old \<subseteq>\<^sub>m rows_native \<circ> rowss w \<and>
   (tx_conn \<circ> txs w') |` old \<subseteq>\<^sub>m tx_conn \<circ> txs w \<and>
   map (\<lambda>i. (total (rowss w' i), stmt_parent (stmts w' i), queryText (stmts w' i))) [0..<co_next w] =
     map (\<lambda>i. (total (rowss w i), stmt_parent (stmts w i), queryText (stmts w i))) [0..<co_next w]"
proof -
  have "persistence.inv (objects_of w) w" for w
    unfolding persistence.inv_def by (simp add: objects_of_def persists_def map_le_def)
  from persistence.run_frame [OF _ this] show ?thesis
    unfolding persistence.inv_def by (simp add: objects_of_def persists_def Let_def)
qed

text \<open>C28: A result set has one type per column. In every reachable state the two slices have the
  same length. A value is only returned for an open result set, a column from 1 to that length, with the
  type of that column, and a current row from 1 to the row count; for any other column or row the reader
  fails with \<^verbatim>\<open>ErrInvalidArgument\<close> and makes no call, and on a closed result set with \<^verbatim>\<open>ErrClosed\<close>.\<close>

theorem columns_aligned:
  "let w = run_ops (co_step S pf) ops core_init; x = rowss w r in
   length (types x) = length (columns x) \<and>
   (case run_state (valueLocked S ctx r column) w of
      (Inl e, w') \<Rightarrow> if rows_native x = None then e = ErrClosed \<and> w' = w
        else if column \<in> {1..int (length (columns x))} \<and> current x \<in> {1..total x} then True
        else e = ErrInvalidArgument \<and> w' = w
    | (Inr v, w') \<Rightarrow> rows_native x \<noteq> None \<and> column \<in> {1..int (length (columns x))} \<and> current x \<in> {1..total x} \<and>
        val_Type v = types x ! nat (column - 1))"
proof -
  let ?w = "run_ops (co_step S pf) ops core_init"
  have "alignment.inv core_init"
    unfolding alignment.inv_def by (simp add: objects_of_def core_init_def zero_rows_def)
  from alignment.run_frame [OF _ this] have al: "length (columns (rowss ?w r)) = length (types (rowss ?w r))"
    unfolding alignment.inv_def by (simp add: objects_of_def)
  have "wp (valueLocked S ctx r column) (\<lambda>y w'. case y of
      Inl e \<Rightarrow> if rows_native (rowss w r) = None then e = ErrClosed \<and> w' = w
        else if column \<in> {1..int (length (columns (rowss w r)))} \<and> current (rowss w r) \<in> {1..total (rowss w r)} then True
        else e = ErrInvalidArgument \<and> w' = w
    | Inr v \<Rightarrow> rows_native (rowss w r) \<noteq> None \<and> column \<in> {1..int (length (columns (rowss w r)))} \<and>
        current (rowss w r) \<in> {1..total (rowss w r)} \<and> val_Type v = types (rowss w r) ! nat (column - 1)) w" for w
    unfolding valueLocked_def by (auto simp: wp_simps wp_run split: sum.split)
  from this [of ?w] al show ?thesis
    by (auto simp: Let_def wp_def split: prod.splits sum.splits)
qed

end
