(* ===== verification/Cube_Core_Errors.thy ===== *)
theory Cube_Core_Errors
  imports Cube_Core_Identity
begin

text \<open>
  Every error the public package hands to its caller: what its methods return, what a scan returns, what a
  \<^verbatim>\<open>Result\<close> carries, what \<^verbatim>\<open>Options.Validate\<close> says and what a result set has recorded.
\<close>

section \<open>Errors inside results\<close>

text \<open>\<open>yields P m\<close>: from every state, the result of \<open>m\<close> satisfies \<open>P\<close>.\<close>

definition yields :: "('a \<Rightarrow> bool) \<Rightarrow> ('s, 'a) state \<Rightarrow> bool" where
  "yields P m \<longleftrightarrow> (\<forall>s. wp m (\<lambda>r _. P r) s)"

lemma yieldsD: "yields P m \<Longrightarrow> P (fst (run_state m w))"
  by (simp add: yields_def wp_run)

lemma yields_basic: "P v \<Longrightarrow> yields P (State_Monad.return v)" "yields P (gets f) \<longleftrightarrow> (\<forall>w. P (f w))"
  by (auto simp: yields_def wp_simps)

lemma yields_bind: "(\<And>v. yields P (k v)) \<Longrightarrow> yields P (State_Monad.bind m k)"
  by (simp add: yields_def wp_simps wp_run)

lemma yields_result: "yields D m \<Longrightarrow> (\<And>v. D v \<Longrightarrow> yields P (k v)) \<Longrightarrow> yields P (State_Monad.bind m k)"
  by (simp add: yields_def wp_simps wp_run)

lemma yields_then_return: "yields P m \<Longrightarrow> yields P (m \<bind> (\<lambda>r. c r \<bind> (\<lambda>_. State_Monad.return r)))"
  by (erule yields_result, rule yields_bind, rule yields_basic)

lemma yields_locked: "yields P body \<Longrightarrow> yields P (co_locked l body)"
  unfolding co_locked_def by (rule yields_bind, erule yields_then_return)

lemma yields_if: "(b \<Longrightarrow> yields P m) \<Longrightarrow> (\<not> b \<Longrightarrow> yields P n) \<Longrightarrow> yields P (if b then m else n)"
  by simp

lemma yields_case:
  "yields P m \<Longrightarrow> (\<And>v. yields P (f v)) \<Longrightarrow> yields P (case x of None \<Rightarrow> m | Some v \<Rightarrow> f v)"
  "(\<And>e. r = Inl e \<Longrightarrow> yields P (g e)) \<Longrightarrow> (\<And>v. r = Inr v \<Longrightarrow> yields P (h v)) \<Longrightarrow>
     yields P (case r of Inl e \<Rightarrow> g e | Inr v \<Rightarrow> h v)"
  by (auto split: option.split sum.split)

lemma yields_fails: "fails_in E m \<longleftrightarrow> yields (\<lambda>r. \<forall>e. r = Inl e \<longrightarrow> E e) m"
  by (simp add: fails_in_def yields_def wp_run split: sum.split)

text \<open>An optional error of a class\<close>

definition error_in :: "(gerror \<Rightarrow> bool) \<Rightarrow> gerror option \<Rightarrow> bool" where
  "error_in E x \<longleftrightarrow> (case x of None \<Rightarrow> True | Some e \<Rightarrow> E e)"

lemma error_in_simps [simp]: "error_in E None" "error_in E (Some e) = E e"
  by (simp_all add: error_in_def)

lemma error_in_of: "(\<And>e. r = Inl e \<Longrightarrow> E e) \<Longrightarrow> error_in E (error_of r)"
  by (cases r) (simp_all add: error_of_def)

section \<open>Scanning\<close>

lemma scanValue_error: "scanValue pf v d = Inl e \<Longrightarrow> e = ErrScan"
  by (auto simp: scanValue_def valueInterface_def Let_def split: dest.splits if_splits option.splits)

definition scan_error :: "ctx \<Rightarrow> gerror \<Rightarrow> bool" where
  "scan_error ctx e \<longleftrightarrow> e = ErrScan \<or> ctx_error ctx e"

lemma yields_scan_columns: "yields (\<lambda>x. error_in (scan_error ctx) (fst x)) (scan_columns S pf ctx r column ds)"
proof (induction ds arbitrary: column)
  case (Cons d ds)
  have v: "fails_in (ctx_error ctx) (valueLocked S ctx r column)" for column
    unfolding valueLocked_def by (intro ctx_control; simp)
  show ?case
    unfolding scan_columns.simps
    by (intro yields_result [OF fails_contextError [unfolded yields_fails]] yields_result [OF v [unfolded yields_fails]]
        yields_case yields_result [OF Cons.IH] yields_basic)
      (simp_all add: scan_error_def scanValue_error)
qed (simp add: yields_basic)

lemma yields_scan: "yields (\<lambda>x. error_in (scan_error ctx) (fst x)) (Rows_ScanContext S pf ctx rows ds)"
  unfolding Rows_ScanContext_def
  by (intro yields_result [OF fails_contextError [unfolded yields_fails]] yields_case yields_locked yields_if
      yields_scan_columns yields_bind [where m = "gets f" for f] yields_basic)
    (simp_all add: scan_error_def)

section \<open>Results of executions\<close>

text \<open>The errors the two accessors of a \<^verbatim>\<open>Result\<close> return\<close>

definition result_errors :: "(gerror \<Rightarrow> bool) \<Rightarrow> result \<Rightarrow> bool" where
  "result_errors E r \<longleftrightarrow> error_in E (snd (Result_RowsAffected r)) \<and> error_in E (snd (Result_LastInsertID r))"

lemma yields_resultForContext: "yields (result_errors (ctx_error ctx)) (resultForContext S ctx native)"
  unfolding resultForContext_def
  by (intro yields_result [OF fails_contextError [unfolded yields_fails]]
      yields_result [OF fails_coE_ctx [where ctx = ctx, OF fails_csConn(9), unfolded yields_fails]]
      yields_result [OF fails_coE_ctx [where ctx = ctx, OF fails_csConn(10), unfolded yields_fails]]
      yields_case yields_basic)
    (auto simp: result_errors_def Result_RowsAffected_def Result_LastInsertID_def intro!: error_in_of)

text \<open>\<open>gives P m\<close>: every value \<open>m\<close> returns without an error satisfies \<open>P\<close>.\<close>

definition gives :: "('a \<Rightarrow> bool) \<Rightarrow> ('s, 'e + 'a) state \<Rightarrow> bool" where
  "gives P m \<longleftrightarrow> yields (\<lambda>r. \<forall>v. r = Inr v \<longrightarrow> P v) m"

lemma gives_control:
  "gives P (throw e)" "(\<And>v. gives P (k v)) \<Longrightarrow> gives P (tryE m k)" "(\<And>v. gives P (k' v)) \<Longrightarrow> gives P (State_Monad.bind m' k')"
  "(b \<Longrightarrow> gives P m1) \<Longrightarrow> (\<not> b \<Longrightarrow> gives P m2) \<Longrightarrow> gives P (if b then m1 else m2)"
  "gives P m1 \<Longrightarrow> (\<And>v. gives P (f v)) \<Longrightarrow> gives P (case x of None \<Rightarrow> m1 | Some v \<Rightarrow> f v)"
  "gives P m1 \<Longrightarrow> gives P (co_locked l m1)" "gives P m1 \<Longrightarrow> gives P (deferE c m1)"
  unfolding gives_def tryE_def deferE_def throw_def
  by (auto intro!: yields_basic yields_bind yields_locked yields_then_return split: sum.split option.split)

lemma gives_result: "gives (result_errors (ctx_error ctx)) (resultForContext S ctx native \<bind> (\<lambda>res. ok res))"
  unfolding gives_def ok_def by (rule yields_result [OF yields_resultForContext]) (simp add: yields_basic)

lemma gives_exec:
  "gives (result_errors (ctx_error ctx)) (Conn_ExecContext S ctx c query args)"
  "gives (result_errors (ctx_error ctx)) (Tx_ExecContext S ctx t query args)"
  "gives (result_errors (ctx_error ctx)) (Stmt_ExecContext S ctx s)"
proof -
  show conn: "gives (result_errors (ctx_error ctx)) (Conn_ExecContext S ctx c query args)" for c
    unfolding Conn_ExecContext_def with_conn_locked_def
    by (intro gives_result gives_control(1,2,4-7) gives_control(3) [where m' = "gets f" for f])
  show "gives (result_errors (ctx_error ctx)) (Tx_ExecContext S ctx t query args)"
    unfolding Tx_ExecContext_def with_tx_def
    by (intro conn gives_control(1,2,4-7) gives_control(3) [where m' = "gets f" for f])
  show "gives (result_errors (ctx_error ctx)) (Stmt_ExecContext S ctx s)"
    unfolding Stmt_ExecContext_def prod.case
    by (intro gives_result gives_control(1,2,4-7) gives_control(3) [where m' = "gets f" for f])
qed

section \<open>Errors a result set records\<close>

interpretation recording: object_frame "\<lambda>e. core_error e \<or> e \<in> A"
    "\<lambda>(C, R, T, X, n). \<forall>r. error_in (\<lambda>e. core_error e \<or> e \<in> A) (rows_err (R r))" for A
  by unfold_locales (auto simp: rows_change_def)

lemma Rows_Err_recorded:
  assumes "\<forall>r. error_in E (rows_err (rowss w r))" and "E ErrClosed"
  shows "error_in E (fst (run_state (Rows_Err r) w))"
proof -
  have lock: "wp (coC m) (\<lambda>_ v. rowss v = rowss w) w" for m :: "(csdk, unit) state" and w
    by (simp add: coC_def wp_simps wp_run)
  have "wp (Rows_Err r) (\<lambda>x _. error_in E x) w"
    unfolding Rows_Err_def co_locked_def
    by (cases r) (use assms in \<open>auto simp: wp_bind wp_basic intro!: wp_mono [OF lock]\<close>)
  then show ?thesis by (simp add: wp_run)
qed

section \<open>The public package\<close>

text \<open>C20: The public package reports only its own errors. From any state, whatever the SDK answers, an
  error returned by a method is one of the package's sentinels, a copied SDK error whose kind is the one its
  code and message classify as, a join of such errors, or the error of the caller's own context; a scan may
  also return \<^verbatim>\<open>ErrScan\<close>; \<^verbatim>\<open>Close\<close> methods and metrics, which take no context, return only the former, and
  \<^verbatim>\<open>Options.Validate\<close> only \<^verbatim>\<open>ErrInvalidArgument\<close>. The same holds of the errors a \<^verbatim>\<open>Result\<close> carries to its
  accessors and, in every reachable state, of the error \<^verbatim>\<open>Rows.Err\<close> returns, where the context is that of some
  earlier \<^verbatim>\<open>NextContext\<close>. None of the package's errors mentions an error of the private package anywhere in its tree
  or matches \<^verbatim>\<open>driver.ErrBadConn\<close>, the error that makes \<^verbatim>\<open>database/sql\<close> retry: only the adapter decides that an
  operation may be retried.\<close>

theorem core_errors:
  "list_all (error_in (ctx_error ctx))
     [error_from (OpenContext S ctx opts) w, error_from (Conn_PingContext S ctx c) w,
      error_from (Conn_SetDatabaseContext S ctx c name) w, error_from (Conn_ExecContext S ctx c query args) w,
      error_from (Conn_QueryContext S ctx c query args) w, error_from (Conn_PrepareContext S ctx c query) w,
      error_from (Conn_BeginContext S ctx c) w, error_from (Conn_CommitContext S ctx c) w,
      error_from (Conn_RollbackContext S ctx c) w, error_from (Tx_ExecContext S ctx t query args) w,
      error_from (Tx_QueryContext S ctx t query args) w, error_from (Tx_PrepareContext S ctx t query) w,
      error_from (Tx_CommitContext S ctx t) w, error_from (Tx_RollbackContext S ctx t) w,
      error_from (Stmt_ExecContext S ctx s) w, error_from (Stmt_QueryContext S ctx s) w,
      error_from (Stmt_ResetContext S ctx s) w, error_from (Rows_SeekContext S ctx r row) w,
      error_from (Rows_ValueContext S ctx r column) w] \<and>
   list_all (error_in core_error)
     [error_from (Conn_Close c) w, error_from (Stmt_Close S s) w, error_from (Rows_Close S r) w,
      error_from (Stmt_Bind S s index v) w, error_from (Conn_AffectedRows S c) w,
      error_from (Conn_LastInsertID S c) w, error_from (Conn_Changes S c) w] \<and>
   error_in (\<lambda>e. e = ErrScan \<or> ctx_error ctx e) (fst (fst (run_state (Rows_ScanContext S pf ctx r ds) w))) \<and>
   error_in (\<lambda>e. e = ErrInvalidArgument) (options_Validate opts) \<and>
   list_all (\<lambda>m. case fst (run_state m w) of
       Inl _ \<Rightarrow> True
     | Inr res \<Rightarrow> list_all (error_in (ctx_error ctx)) [snd (Result_RowsAffected res), snd (Result_LastInsertID res)])
     [Conn_ExecContext S ctx c query args, Tx_ExecContext S ctx t query args, Stmt_ExecContext S ctx s] \<and>
   error_in (\<lambda>e. core_error e \<or> e \<in> \<Union> (next_errors ` set ops))
     (fst (run_state (Rows_Err r) (run_ops (co_step S pf) ops core_init))) \<and>
   insert ErrScan {e. core_error e} \<subseteq> {e. \<not> mentions_csdk e \<and> \<not> err_is e ErrBadConn}"
proof (intro conjI)
  have "fails_in core_error (Stmt_Bind S s index v)"
    using fails_stmt(1) [where ctx = Background] by (simp add: ctx_error_Background)
  moreover have "fails_in core_error (Conn_metric c f)" if "\<And>n. fails_in cs_error (f n)" for f
    unfolding Conn_metric_def by (intro fails_case fails_basic fails_co_locked fails_if fails_coE that fails_bind) simp_all
  ultimately show "list_all (error_in core_error)
     [error_from (Conn_Close c) w, error_from (Stmt_Close S s) w, error_from (Rows_Close S r) w,
      error_from (Stmt_Bind S s index v) w, error_from (Conn_AffectedRows S c) w,
      error_from (Conn_LastInsertID S c) w, error_from (Conn_Changes S c) w]"
    unfolding Conn_AffectedRows_def Conn_LastInsertID_def Conn_Changes_def list.pred_inject error_in_def
    by (intro conjI error_from_in fails_core fails_csdk TrueI) (auto simp: fails_csdk)
  show "list_all (error_in (ctx_error ctx))
     [error_from (OpenContext S ctx opts) w, error_from (Conn_PingContext S ctx c) w,
      error_from (Conn_SetDatabaseContext S ctx c name) w, error_from (Conn_ExecContext S ctx c query args) w,
      error_from (Conn_QueryContext S ctx c query args) w, error_from (Conn_PrepareContext S ctx c query) w,
      error_from (Conn_BeginContext S ctx c) w, error_from (Conn_CommitContext S ctx c) w,
      error_from (Conn_RollbackContext S ctx c) w, error_from (Tx_ExecContext S ctx t query args) w,
      error_from (Tx_QueryContext S ctx t query args) w, error_from (Tx_PrepareContext S ctx t query) w,
      error_from (Tx_CommitContext S ctx t) w, error_from (Tx_RollbackContext S ctx t) w,
      error_from (Stmt_ExecContext S ctx s) w, error_from (Stmt_QueryContext S ctx s) w,
      error_from (Stmt_ResetContext S ctx s) w, error_from (Rows_SeekContext S ctx r row) w,
      error_from (Rows_ValueContext S ctx r column) w]"
    unfolding Conn_CommitContext_def Conn_RollbackContext_def Tx_ExecContext_def Tx_QueryContext_def
      Tx_PrepareContext_def Tx_CommitContext_def Tx_RollbackContext_def Stmt_QueryContext_def list.pred_inject error_in_def
    by (intro conjI error_from_in fails_core TrueI) simp
  show "error_in (\<lambda>e. e = ErrScan \<or> ctx_error ctx e) (fst (fst (run_state (Rows_ScanContext S pf ctx r ds) w)))"
    using yieldsD [OF yields_scan] by (simp add: scan_error_def [abs_def])
  show "error_in (\<lambda>e. e = ErrInvalidArgument) (options_Validate opts)"
    using options_native_cases [of opts] by (auto simp: options_Validate_def)
  have "list_all (gives (result_errors (ctx_error ctx)))
      [Conn_ExecContext S ctx c query args, Tx_ExecContext S ctx t query args, Stmt_ExecContext S ctx s]"
    by (simp add: gives_exec)
  then show "list_all (\<lambda>m. case fst (run_state m w) of
       Inl _ \<Rightarrow> True
     | Inr res \<Rightarrow> list_all (error_in (ctx_error ctx)) [snd (Result_RowsAffected res), snd (Result_LastInsertID res)])
     [Conn_ExecContext S ctx c query args, Tx_ExecContext S ctx t query args, Stmt_ExecContext S ctx s]"
    by (rule list.pred_mono_strong) (auto simp: gives_def result_errors_def dest!: yieldsD [of _ _ w] split: sum.split)
  let ?A = "\<Union> (next_errors ` set ops)" and ?w = "run_ops (co_step S pf) ops core_init"
  have "recording.inv ?A core_init"
    unfolding recording.inv_def by (simp add: objects_of_def core_init_def zero_rows_def)
  then have "recording.inv ?A ?w" by (rule recording.run_frame [rotated]) auto
  then show "error_in (\<lambda>e. core_error e \<or> e \<in> ?A) (fst (run_state (Rows_Err r) ?w))"
    unfolding recording.inv_def by (intro Rows_Err_recorded) (simp_all add: objects_of_def)
  show "insert ErrScan {e. core_error e} \<subseteq> {e. \<not> mentions_csdk e \<and> \<not> err_is e ErrBadConn}"
    by (auto simp: core_error_hides)
qed

end
