(* ===== verification/Cube_Rows_Loop.thy ===== *)
theory Cube_Rows_Loop
  imports Cube_Error_Classes Cube_Core_Run
begin

text \<open>
  Iterating over a result set: what one \<^verbatim>\<open>Next\<close> does, and that the usual loop \<^verbatim>\<open>for rows.Next() {
  rows.Scan(...) }\<close> ends and has seen every row when \<^verbatim>\<open>Err\<close> is nil afterwards.
\<close>

section \<open>One step\<close>

lemma rowss_coC: "rowss (snd (run_state (coC m) w)) = rowss w"
  by (simp add: coC_def split: prod.split)

lemma wp_coC_rows: "(\<And>r v. rowss v = rowss w \<Longrightarrow> Q r v) \<Longrightarrow> wp (coC m) Q w"
  by (simp add: wp_run rowss_coC)

lemma wp_contextError_rows:
  "(\<And>r v. rowss v = rowss w \<Longrightarrow> (\<And>e. r = Inl e \<Longrightarrow> ctx_error ctx e) \<Longrightarrow> Q r v) \<Longrightarrow> wp (contextError ctx) Q w"
proof -
  assume q: "\<And>r v. rowss v = rowss w \<Longrightarrow> (\<And>e. r = Inl e \<Longrightarrow> ctx_error ctx e) \<Longrightarrow> Q r v"
  have "rowss (snd (run_state (contextError ctx) w)) = rowss w"
    by (cases ctx) (simp_all add: contextError_def tick_clock_def rowss_coC wp_simps coC_def csN_def)
  with q fails_inD [OF fails_contextError] show ?thesis unfolding wp_run by blast
qed

lemma wp_locked_rows:
  assumes "\<And>v. rowss v = rowss w \<Longrightarrow> wp body (\<lambda>r v'. \<forall>u. rowss u = rowss v' \<longrightarrow> Q r u) v"
  shows "wp (co_locked l body) Q w"
  unfolding co_locked_def wp_simps
  by (rule wp_coC_rows, rule wp_mono, erule assms, rule wp_coC_rows) simp

definition next_effect :: "ctx \<Rightarrow> nat \<Rightarrow> core \<Rightarrow> bool \<Rightarrow> core \<Rightarrow> bool" where
  "next_effect ctx r w b w' \<longleftrightarrow> (let x = rowss w r; y = rowss w' r in
     if b then current x < total x \<and> rows_err x = None \<and> y = x\<lparr>current := current x + 1\<rparr>
     else current y = current x \<and> total y = total x \<and>
       (case rows_err y of None \<Rightarrow> total x \<le> current x | Some e \<Rightarrow> rows_err x = Some e \<or> ctx_error ctx e))"

lemma wp_coE_rows:
  assumes "fails_in cs_error m" and "\<And>r v. rowss v = rowss w \<Longrightarrow> (\<And>e. r = Inl e \<Longrightarrow> ctx_error ctx e) \<Longrightarrow> Q r v"
  shows "wp (coE m) Q w"
proof -
  have "rowss (snd (run_state (coE m) w)) = rowss w"
    by (simp add: coE_def mapE_def rowss_coC split: prod.split) (metis rowss_coC snd_conv)
  with assms(2) fails_inD [OF fails_coE_ctx [OF assms(1)]] show ?thesis unfolding wp_run by blast
qed

lemma Next_effect: "wp (Rows_NextContext S ctx (Some r)) (next_effect ctx r w) w"
  unfolding Rows_NextContext_def option.case
proof (rule wp_locked_rows, unfold wp_bind, rule wp_contextError_rows, goal_cases)
  case (1 v c u)
  let ?x = "rowss w r"
  have u: "rowss u = rowss w" using 1 by simp
  show ?case
  proof (cases c)
    case (Inl e)
    then show ?thesis using 1 by (simp add: wp_simps upd_rows_def next_effect_def)
  next
    case (Inr _)
    consider "rows_native ?x = None" | "rows_native ?x \<noteq> None" "rows_err ?x \<noteq> None \<or> current ?x \<ge> total ?x"
      | "rows_native ?x \<noteq> None" "rows_err ?x = None" "\<not> current ?x \<ge> total ?x"
      by blast
    then show ?thesis
    proof cases
      case 3
      have "wp (coE (csRows_Seek S (rows_native ?x) (current ?x + 1)))
        (\<lambda>res v'. rowss v' = rowss w \<and> (\<forall>e. res = Inl e \<longrightarrow> ctx_error ctx e)) u"
        by (rule wp_coE_rows) (use u in \<open>auto intro: fails_csdk\<close>)
      then show ?thesis
        using 3 u Inr by (clarsimp simp: wp_simps Let_def)
          (erule wp_mono, auto simp: wp_simps upd_rows_def next_effect_def split: sum.split)
    qed (use u Inr in \<open>auto simp: wp_simps upd_rows_def next_effect_def split: option.split\<close>)
  qed
qed

section \<open>The loop\<close>

text \<open>Reading a row changes no result set.\<close>

definition same_rows :: "(nat \<Rightarrow> rows) \<Rightarrow> core \<Rightarrow> bool" where
  "same_rows R w \<longleftrightarrow> rowss w = R"

lemma same_rows_coC: "stays (same_rows R) (coC m)"
  by (simp add: stays_def same_rows_def wp_run rowss_coC)

lemma same_rows_coE: "stays (same_rows R) (coE m)"
  unfolding coE_def mapE_def by (intro stays_control same_rows_coC)

lemma same_rows_locked: "stays (same_rows R) body \<Longrightarrow> stays (same_rows R) (co_locked l body)"
  unfolding co_locked_def by (intro stays_control same_rows_coC same_rows_coE)

lemma same_rows_contextError: "stays (same_rows R) (contextError ctx)"
  by (auto simp: stays_def same_rows_def intro: wp_contextError_rows)

lemmas same_rows_control = stays_control same_rows_coC same_rows_coE same_rows_locked same_rows_contextError

lemma Scan_same_rows: "stays (same_rows R) (Rows_ScanContext S pf ctx rows ds)"
proof -
  have "stays (same_rows R) (valueLocked S ctx r c)" for r c
    unfolding valueLocked_def by (intro same_rows_control)
  then have "stays (same_rows R) (scan_columns S pf ctx r c ds)" for r c
    by (induction ds arbitrary: c) (simp, intro same_rows_control, simp, intro same_rows_control)
  then show ?thesis unfolding Rows_ScanContext_def by (intro same_rows_control)
qed

text \<open>
  \<^verbatim>\<open>for rows.NextContext(ctx) { err := rows.ScanContext(ctx, ds...); ... }\<close>, with at most \<open>n\<close> calls of \<open>Next\<close>:
  the row numbers visited, each with what \<^verbatim>\<open>Scan\<close> returned, and whether \<open>Next\<close> has returned false.
\<close>

fun read_all ::
  "sdk \<Rightarrow> parse_float \<Rightarrow> ctx \<Rightarrow> nat \<Rightarrow> dest list \<Rightarrow> nat \<Rightarrow>
     (core, (int \<times> gerror option \<times> dest list) list \<times> bool) state" where
  "read_all S pf ctx r ds 0 = State_Monad.return ([], False)"
| "read_all S pf ctx r ds (Suc n) = do {
     b \<leftarrow> Rows_NextContext S ctx (Some r);
     (if b then do {
        row \<leftarrow> gets (\<lambda>w. current (rowss w r));
        x \<leftarrow> Rows_ScanContext S pf ctx (Some r) ds;
        rest \<leftarrow> read_all S pf ctx r ds n;
        State_Monad.return ((row, x) # fst rest, snd rest) }
      else State_Monad.return ([], True)) }"

definition loop_result :: "ctx \<Rightarrow> nat \<Rightarrow> core \<Rightarrow> nat \<Rightarrow> (int \<times> 'a) list \<times> bool \<Rightarrow> core \<Rightarrow> bool" where
  "loop_result ctx r w n = (\<lambda>(visited, stopped) w'.
     let x = rowss w r; y = rowss w' r; k = int (length visited) in
     map fst visited = [current x + 1..current y] \<and> current y = current x + k \<and> total y = total x \<and>
     length visited \<le> n \<and> (k = 0 \<or> current y \<le> total x) \<and> (stopped \<or> length visited = n) \<and>
     (stopped \<longrightarrow> (case rows_err y of None \<Rightarrow> total x \<le> current y | Some e \<Rightarrow> rows_err x = Some e \<or> ctx_error ctx e)))"

lemma loop_result_step:
  assumes "next_effect ctx r w True v" and "same_rows (rowss v) u" and "loop_result ctx r u n (vs, stopped) w'"
  shows "loop_result ctx r w (Suc n) ((current (rowss u r), a) # vs, stopped) w'"
  using assms by (auto simp: loop_result_def next_effect_def same_rows_def Let_def upto_rec1 split: option.splits)

lemma read_all_steps: "wp (read_all S pf ctx r ds n) (loop_result ctx r w n) w"
proof (induction n arbitrary: w)
  case 0
  then show ?case by (simp add: wp_simps loop_result_def)
next
  case (Suc n)
  have scan: "wp (Rows_ScanContext S pf ctx (Some r) ds) (\<lambda>_. same_rows (rowss v)) v" for v
    using Scan_same_rows by (simp add: stays_def same_rows_def)
  show ?case
    unfolding read_all.simps wp_bind
  proof (rule wp_mono [OF Next_effect])
    fix b v assume v: "next_effect ctx r w b v"
    have "loop_result ctx r w (Suc n) ([], True) v" if "\<not> b"
      using v that by (auto simp: loop_result_def next_effect_def Let_def split: option.splits)
    moreover have "wp (read_all S pf ctx r ds n)
        (\<lambda>rest. loop_result ctx r w (Suc n) ((current (rowss u r), a) # fst rest, snd rest)) u"
      if b "same_rows (rowss v) u" for u a
      by (rule wp_mono [OF Suc.IH]) (use v that in \<open>auto intro: loop_result_step\<close>)
    ultimately show "wp (if b then do { row \<leftarrow> gets (\<lambda>w. current (rowss w r));
          x \<leftarrow> Rows_ScanContext S pf ctx (Some r) ds; rest \<leftarrow> read_all S pf ctx r ds n;
          State_Monad.return ((row, x) # fst rest, snd rest) }
        else State_Monad.return ([], True)) (loop_result ctx r w (Suc n)) v"
      using scan [of v] by (auto simp: wp_simps same_rows_def elim!: wp_mono)
  qed
qed

text \<open>C21: The reading loop ends, and a loop that ended without an error has seen every row. From any
  state, a loop of \<^verbatim>\<open>Next\<close> and \<^verbatim>\<open>Scan\<close> over a result set stops after at most as many rows as remain
  (one more call of \<^verbatim>\<open>Next\<close> than that is enough), whatever the SDK answers and whenever the context is
  cancelled; it visits the rows after the current one in order, without gaps or repetitions and not past
  the last; and when \<^verbatim>\<open>Err\<close> is nil afterwards it has reached the last row, while any other error is the one
  the result set already had, one of the package or the context's.\<close>

theorem rows_loop:
  "let x = rowss w r;
       ((visited, stopped), w') = run_state (read_all S pf ctx r ds (Suc (nat (total x - current x)))) w;
       y = rowss w' r in
   stopped \<and> map fst visited = [current x + 1..current y] \<and> int (length visited) \<le> max 0 (total x - current x) \<and>
   total y = total x \<and>
   (case rows_err y of
      None \<Rightarrow> current y = max (current x) (total x)
    | Some e \<Rightarrow> rows_err x = Some e \<or> ctx_error ctx e)"
proof -
  let ?x = "rowss w r" and ?n = "Suc (nat (total (rowss w r) - current (rowss w r)))"
  obtain visited stopped w' where run: "run_state (read_all S pf ctx r ds ?n) w = ((visited, stopped), w')"
    by (metis prod.exhaust)
  have loop: "loop_result ctx r w ?n (visited, stopped) w'"
    using wpD [OF read_all_steps run] .
  then have k: "current (rowss w' r) = current ?x + int (length visited)"
      "int (length visited) = 0 \<or> current (rowss w' r) \<le> total ?x" "stopped \<or> length visited = ?n"
    by (auto simp: loop_result_def Let_def)
  then have stop: stopped by linarith
  have "int (length visited) \<le> max 0 (total ?x - current ?x)" using k(1,2) by linarith
  moreover have "current (rowss w' r) = max (current ?x) (total ?x)" if "total ?x \<le> current (rowss w' r)"
    using that k(1,2) by linarith
  ultimately show ?thesis
    using loop stop by (simp add: run loop_result_def Let_def del: read_all.simps split: option.splits)
qed

end
