(* ===== verification/Cube_Config.thy ===== *)
theory Cube_Config
  imports Cube_Options
begin

text \<open>
  \<^verbatim>\<open>database/cubesql/config.go\<close>: data source names. The parsers of the Go library it calls
  (\<^verbatim>\<open>url.Parse\<close> with \<^verbatim>\<open>URL.Query\<close>, \<^verbatim>\<open>time.ParseDuration\<close>, \<^verbatim>\<open>net.ParseIP\<close>, \<^verbatim>\<open>strconv.ParseFloat\<close>) are
  a parameter \<open>G\<close>; \<^verbatim>\<open>URL.Hostname\<close>, \<^verbatim>\<open>URL.Port\<close> and \<^verbatim>\<open>strconv.Atoi\<close> are modelled.
\<close>

section \<open>The Go library\<close>

text \<open>
  A parsed \<^verbatim>\<open>url.URL\<close>. \<open>url_User\<close> is \<^verbatim>\<open>nil\<close> or user name and optional password, unescaped;
  \<open>url_Query\<close> is \<^verbatim>\<open>Query()\<close> as key and values, in the order in which \<^verbatim>\<open>range\<close> visits the map.
\<close>

record url =
  url_Scheme :: string
  url_Opaque :: string
  url_User :: "(string \<times> string option) option"
  url_Host :: string
  url_Path :: string
  url_Fragment :: string
  url_Query :: "(string \<times> string list) list"

record golib =
  url_Parse :: "string \<Rightarrow> url option"
  ParseDuration :: "string \<Rightarrow> int option"
  is_IP :: "string \<Rightarrow> bool"
  ParseFloat :: "string \<Rightarrow> 64 word option"

text \<open>\<^verbatim>\<open>strings.LastIndexByte(s, sep)\<close> and the split there\<close>

definition split_last :: "char \<Rightarrow> string \<Rightarrow> (string \<times> string) option" where
  "split_last sep s =
     (if List.member s sep
      then (let r = rev s; after = takeWhile (\<lambda>c. c \<noteq> sep) r
            in Some (rev (drop (Suc (length after)) r), rev after))
      else None)"

text \<open>\<^verbatim>\<open>splitHostPort\<close> of \<^verbatim>\<open>net/url\<close>, which \<^verbatim>\<open>Hostname\<close> and \<^verbatim>\<open>Port\<close> are the halves of\<close>

definition split_host_port :: "string \<Rightarrow> string \<times> string" where
  "split_host_port hostport =
     (let (host, port) =
        (case split_last (CHR '':'') hostport of
           Some (h, p) \<Rightarrow> (if list_all (\<lambda>c. digit_value c \<noteq> None) p then (h, p) else (hostport, []))
         | None \<Rightarrow> (hostport, []))
      in (if host \<noteq> [] \<and> hd host = CHR ''['' \<and> last host = CHR '']'' \<and> length host > 1
          then butlast (tl host) else host, port))"

definition Hostname :: "url \<Rightarrow> string" where
  "Hostname u = fst (split_host_port (url_Host u))"

definition url_Port :: "url \<Rightarrow> string" where
  "url_Port u = snd (split_host_port (url_Host u))"

text \<open>\<^verbatim>\<open>query.Get(key)\<close>: the first value, or the empty string\<close>

definition query_Get :: "(string \<times> string list) list \<Rightarrow> string \<Rightarrow> string" where
  "query_Get q key = (case map_of q key of Some (v # _) \<Rightarrow> v | _ \<Rightarrow> [])"

section \<open>Configurations\<close>

abbreviation (input) DriverName :: string where "DriverName \<equiv> ''cubesql''"

record config =
  cfg_Options :: options
  cfg_Database :: string

definition config_Validate :: "config \<Rightarrow> gerror option" where
  "config_Validate c =
     (if options_Validate (cfg_Options c) \<noteq> None then Some (InvalidDSN ''invalid connection options'')
      else if has_nul (cfg_Database c) then Some (InvalidDSN ''database contains NUL'')
      else None)"

text \<open>The loop over the query: the first offending key decides the error.\<close>

fun check_query :: "(string \<times> string list) list \<Rightarrow> gerror option" where
  "check_query [] = None"
| "check_query ((key, values) # q) =
     (if key \<noteq> ''timeout'' \<and> key \<noteq> ''encryption'' then Some (InvalidDSN ''unsupported query key'')
      else if length values \<noteq> 1 then Some (InvalidDSN ''duplicate query key'')
      else check_query q)"

text \<open>\<^verbatim>\<open>port := 4430; if text := parsed.Port(); text != "" ...\<close>\<close>

definition dsn_port :: "golib \<Rightarrow> url \<Rightarrow> gerror + int" where
  "dsn_port G u =
     (let text = url_Port u in
      if text \<noteq> [] then
        (case parse_int64 text of
           None \<Rightarrow> Inl (InvalidDSN ''invalid port'')
         | Some p \<Rightarrow> if p \<le> 0 \<or> p > 65535 then Inl (InvalidDSN ''invalid port'') else Inr p)
      else if str_contains (url_Host u) '':'' \<and> \<not> is_IP G (Hostname u)
      then Inl (InvalidDSN ''invalid host or port'')
      else Inr 4430)"

definition dsn_timeout :: "golib \<Rightarrow> (string \<times> string list) list \<Rightarrow> gerror + int" where
  "dsn_timeout G q =
     (let text = query_Get q ''timeout'' in
      if text = [] then Inr 0
      else (case ParseDuration G text of
              None \<Rightarrow> Inl (InvalidDSN ''invalid timeout'')
            | Some t \<Rightarrow> if t < 0 then Inl (InvalidDSN ''invalid timeout'') else Inr t))"

definition dsn_encryption :: "(string \<times> string list) list \<Rightarrow> gerror + 8 word" where
  "dsn_encryption q =
     (let text = query_Get q ''encryption'' in
      if text = [] \<or> text = ''clear'' then Inr EncryptionClear
      else if text = ''aes256'' then Inr EncryptionAES256
      else Inl (InvalidDSN ''invalid encryption''))"

text \<open>\<^verbatim>\<open>func ParseDSN(dsn string) (Config, error)\<close>\<close>

definition ParseDSN :: "golib \<Rightarrow> string \<Rightarrow> gerror + config" where
  "ParseDSN G dsn =
     (case url_Parse G dsn of
        None \<Rightarrow> Inl (InvalidDSN ''malformed URL'')
      | Some u \<Rightarrow>
          if url_Scheme u \<noteq> DriverName \<or> url_Opaque u \<noteq> [] \<or> url_Fragment u \<noteq> []
          then Inl (InvalidDSN ''malformed URL'')
          else (case url_User u of
             None \<Rightarrow> Inl (InvalidDSN ''username is required'')
           | Some (username, pw) \<Rightarrow>
               if username = [] then Inl (InvalidDSN ''username is required'')
               else (case pw of
                  None \<Rightarrow> Inl (InvalidDSN ''password must be explicit'')
                | Some password \<Rightarrow>
                    if Hostname u = [] then Inl (InvalidDSN ''host is required'')
                    else (case dsn_port G u of
                       Inl e \<Rightarrow> Inl e
                     | Inr port \<Rightarrow>
                         let path = (if url_Path u \<noteq> [] \<and> hd (url_Path u) = CHR ''/''
                                     then tl (url_Path u) else url_Path u) in
                         if str_contains path ''/''
                         then Inl (InvalidDSN ''database must be one path segment'')
                         else (case check_query (url_Query u) of
                            Some e \<Rightarrow> Inl e
                          | None \<Rightarrow> (case dsn_timeout G (url_Query u) of
                               Inl e \<Rightarrow> Inl e
                             | Inr timeout \<Rightarrow> (case dsn_encryption (url_Query u) of
                                  Inl e \<Rightarrow> Inl e
                                | Inr encryption \<Rightarrow>
                                    let config = \<lparr> cfg_Options = \<lparr> Host = Hostname u, Port = port,
                                          Username = username, Password = password, Timeout = timeout,
                                          Encryption = encryption \<rparr>, cfg_Database = path \<rparr>
                                    in (case config_Validate config of
                                          Some e \<Rightarrow> Inl e
                                        | None \<Rightarrow> Inr config))))))))"

definition NewConnector :: "config \<Rightarrow> gerror + config" where
  "NewConnector c = (case config_Validate c of Some e \<Rightarrow> Inl e | None \<Rightarrow> Inr c)"

definition OpenConnector :: "golib \<Rightarrow> string \<Rightarrow> gerror + config" where
  "OpenConnector G name = (case ParseDSN G name of Inl e \<Rightarrow> Inl e | Inr c \<Rightarrow> NewConnector c)"

end
