(* ===== verification/Cube_Adapter.thy ===== *)
theory Cube_Adapter
  imports Cube_Config Cube_Conn
begin

text \<open>
  The \<^verbatim>\<open>database/sql\<close> driver, \<^verbatim>\<open>database/cubesql/{driver,conn,stmt,tx,rows,result}.go\<close>, on top of
  the public package. \<^verbatim>\<open>database/sql\<close> calls these methods on the non-nil objects they return; a
  receiver is an address, and an option where the code tests it for nil.
\<close>

section \<open>State\<close>

record adconn =
  ad_native :: "nat option"
  database :: string
  activeTx :: "nat option"
  closed :: bool
  broken :: bool

record adstmt =
  as_connection :: "nat option"
  as_query :: string
  as_closed :: bool

record adtx =
  at_connection :: "nat option"
  at_native :: "nat option"
  at_done :: bool

record adrows =
  ar_connection :: nat
  ar_native :: "nat option"
  ar_columns :: "string list"
  ar_types :: "8 word list"

record adapter =
  core_of :: core
  adconns :: "nat \<Rightarrow> adconn"
  adstmts :: "nat \<Rightarrow> adstmt"
  adtxs :: "nat \<Rightarrow> adtx"
  adrowss :: "nat \<Rightarrow> adrows"
  ad_next :: nat

definition adapter_init :: adapter where
  "adapter_init = \<lparr> core_of = core_init,
     adconns = (\<lambda>_. \<lparr>ad_native = None, database = [], activeTx = None, closed = False, broken = False\<rparr>),
     adstmts = (\<lambda>_. \<lparr>as_connection = None, as_query = [], as_closed = False\<rparr>),
     adtxs = (\<lambda>_. \<lparr>at_connection = None, at_native = None, at_done = False\<rparr>),
     adrowss = (\<lambda>_. \<lparr>ar_connection = 0, ar_native = None, ar_columns = [], ar_types = []\<rparr>),
     ad_next = 0 \<rparr>"

definition adC :: "(core, 'a) state \<Rightarrow> (adapter, 'a) state" where
  "adC m = zoom core_of core_of_update m"

definition ad_locked :: "lock \<Rightarrow> (adapter, 'a) state \<Rightarrow> (adapter, 'a) state" where
  "ad_locked l body =
     do { _ \<leftarrow> adC (coC (csN (acquire l))); r \<leftarrow> body; _ \<leftarrow> adC (coC (csN (release l))); State_Monad.return r }"

definition ad_new :: "(adapter, nat) state" where
  "ad_new = do { p \<leftarrow> gets ad_next; _ \<leftarrow> modify (\<lambda>w. w\<lparr>ad_next := Suc p\<rparr>); State_Monad.return p }"

definition upd_adconn :: "nat \<Rightarrow> (adconn \<Rightarrow> adconn) \<Rightarrow> (adapter, unit) state" where
  "upd_adconn a f = modify (\<lambda>w. w\<lparr>adconns := (adconns w)(a := f (adconns w a))\<rparr>)"

definition upd_adstmt :: "nat \<Rightarrow> (adstmt \<Rightarrow> adstmt) \<Rightarrow> (adapter, unit) state" where
  "upd_adstmt s f = modify (\<lambda>w. w\<lparr>adstmts := (adstmts w)(s := f (adstmts w s))\<rparr>)"

definition upd_adtx :: "nat \<Rightarrow> (adtx \<Rightarrow> adtx) \<Rightarrow> (adapter, unit) state" where
  "upd_adtx t f = modify (\<lambda>w. w\<lparr>adtxs := (adtxs w)(t := f (adtxs w t))\<rparr>)"

definition upd_adrows :: "nat \<Rightarrow> (adrows \<Rightarrow> adrows) \<Rightarrow> (adapter, unit) state" where
  "upd_adrows r f = modify (\<lambda>w. w\<lparr>adrowss := (adrowss w)(r := f (adrowss w r))\<rparr>)"

section \<open>Parameters\<close>

text \<open>\<^verbatim>\<open>driver.IsValue(v)\<close>\<close>

fun is_driver_value :: "any \<Rightarrow> bool" where
  "is_driver_value ANil = True"
| "is_driver_value (AInt64 _) = True"
| "is_driver_value (AFloat64 _) = True"
| "is_driver_value (AString _) = True"
| "is_driver_value (ABytes _) = True"
| "is_driver_value (ABool _) = True"
| "is_driver_value (ATime _) = True"
| "is_driver_value (ADecimal _) = True"
| "is_driver_value _ = False"

text \<open>\<^verbatim>\<open>driver.DefaultParameterConverter.ConvertValue(v)\<close>: \<^verbatim>\<open>int64(rv.Uint())\<close> wraps, only \<^verbatim>\<open>uint64\<close> is checked\<close>

fun ConvertValue :: "any \<Rightarrow> gerror + any" where
  "ConvertValue (AValuer (Inl e)) = Inl e"
| "ConvertValue (AValuer (Inr sv)) = (if is_driver_value sv then Inr sv else Inl ErrConvert)"
| "ConvertValue (APointer None) = Inr ANil"
| "ConvertValue (APointer (Some v)) = ConvertValue v"
| "ConvertValue (AIntKind i) = Inr (AInt64 i)"
| "ConvertValue (AUintKind u) = Inr (AInt64 (if u \<ge> 2 ^ 63 then u - 2 ^ 64 else u))"
| "ConvertValue (AUint64Kind u) = (if u \<ge> 2 ^ 63 then Inl ErrConvert else Inr (AInt64 u))"
| "ConvertValue (AFloatKind x) = Inr (AFloat64 x)"
| "ConvertValue (ABoolKind b) = Inr (ABool b)"
| "ConvertValue (ABytesKind b) = Inr (ABytes b)"
| "ConvertValue (AStringKind s) = Inr (AString s)"
| "ConvertValue (AZeroBlob _) = Inl ErrConvert"
| "ConvertValue (AOther _) = Inl ErrConvert"
| "ConvertValue v = Inr v"

record named_value =
  nv_Name :: string
  nv_Ordinal :: int
  nv_Value :: any

text \<open>\<^verbatim>\<open>func checkNamedValue(value *driver.NamedValue) error\<close>, returning the value it stores\<close>

definition checkNamedValue :: "named_value option \<Rightarrow> gerror + any" where
  "checkNamedValue value =
     (case value of
        None \<Rightarrow> Inl ErrInvalidArgument
      | Some nv \<Rightarrow>
          if nv_Name nv \<noteq> [] then Inl ErrNamedParameters
          else (case nv_Value nv of
             AZeroBlob n \<Rightarrow> Inr (AZeroBlob n)
           | v \<Rightarrow> (case ConvertValue v of
                Inl e \<Rightarrow> Inl e
              | Inr ANil \<Rightarrow> Inr ANil
              | Inr (AInt64 i) \<Rightarrow> Inr (AInt64 i)
              | Inr (AFloat64 x) \<Rightarrow> Inr (AFloat64 x)
              | Inr (AString s) \<Rightarrow> Inr (AString s)
              | Inr (ABytes b) \<Rightarrow> Inr (ABytes b)
              | Inr (ABool b) \<Rightarrow> Inr (AInt64 (if b then 1 else 0))
              | Inr _ \<Rightarrow> Inl ErrParameterType)))"

fun namedValues :: "named_value list \<Rightarrow> gerror + any list" where
  "namedValues [] = Inr []"
| "namedValues (a # as) =
     (case checkNamedValue (Some a) of
        Inl e \<Rightarrow> Inl e
      | Inr v \<Rightarrow> (case namedValues as of Inl e \<Rightarrow> Inl e | Inr vs \<Rightarrow> Inr (v # vs)))"

definition conn_CheckNamedValue :: "named_value option \<Rightarrow> gerror + any" where
  "conn_CheckNamedValue value = checkNamedValue value"

definition stmt_CheckNamedValue :: "named_value option \<Rightarrow> gerror + any" where
  "stmt_CheckNamedValue value = checkNamedValue value"

text \<open>\<^verbatim>\<open>func positionalValues(values []driver.Value) []driver.NamedValue\<close>\<close>

definition positionalValues :: "any list \<Rightarrow> named_value list" where
  "positionalValues vs =
     map (\<lambda>(i, v). \<lparr>nv_Name = [], nv_Ordinal = int i + 1, nv_Value = v\<rparr>) (enumerate 0 vs)"

section \<open>Connection health\<close>

definition usableLocked :: "nat \<Rightarrow> (adapter, gerror + unit) state" where
  "usableLocked a = do {
     x \<leftarrow> gets (\<lambda>w. adconns w a);
     (if closed x \<or> ad_native x = None then throw ErrBadConn
      else if broken x then throw ErrBadConn
      else ok ())
   }"

definition breaks :: "gerror \<Rightarrow> bool" where
  "breaks e \<longleftrightarrow> err_is e ErrClosed \<or> err_is e ErrNetwork \<or> err_is e ErrProtocol \<or> err_is e ErrTimeout"

definition observeLocked :: "nat \<Rightarrow> gerror option \<Rightarrow> (adapter, unit) state" where
  "observeLocked a err =
     (case err of
        None \<Rightarrow> State_Monad.return ()
      | Some e \<Rightarrow> (if breaks e then upd_adconn a (\<lambda>x. x\<lparr>broken := True\<rparr>) else State_Monad.return ()))"

definition observe :: "nat option \<Rightarrow> gerror option \<Rightarrow> (adapter, unit) state" where
  "observe conn err =
     (case (conn, err) of
        (Some a, Some e) \<Rightarrow> ad_locked (LAdConn a) (observeLocked a err)
      | _ \<Rightarrow> State_Monad.return ())"

text \<open>\<^verbatim>\<open>safeRetryErrorLocked\<close> of a non-nil error\<close>

definition safeRetryErrorLocked :: "nat \<Rightarrow> gerror \<Rightarrow> (adapter, gerror) state" where
  "safeRetryErrorLocked a err = do {
     b \<leftarrow> gets (\<lambda>w. broken (adconns w a));
     State_Monad.return (if b then ErrBadConn else err)
   }"

text \<open>\<^verbatim>\<open>connection.observeLocked(err); return nil, err\<close>, and the same with \<^verbatim>\<open>safeRetryErrorLocked\<close>\<close>

definition observed :: "nat \<Rightarrow> gerror \<Rightarrow> (adapter, gerror + 'a) state" where
  "observed a e = do { _ \<leftarrow> observeLocked a (Some e); throw e }"

definition observed_retry :: "nat \<Rightarrow> gerror \<Rightarrow> (adapter, gerror + 'a) state" where
  "observed_retry a e = do { _ \<leftarrow> observeLocked a (Some e); e' \<leftarrow> safeRetryErrorLocked a e; throw e' }"

section \<open>Opening\<close>

text \<open>\<^verbatim>\<open>func (connector *Connector) Connect(ctx context.Context) (driver.Conn, error)\<close>\<close>

definition Connect :: "sdk \<Rightarrow> ctx \<Rightarrow> config option \<Rightarrow> (adapter, gerror + nat) state" where
  "Connect S ctx connector =
     (case connector of
        None \<Rightarrow> throw ErrInvalidArgument
      | Some cfg \<Rightarrow>
          tryE (adC (OpenContext S ctx (cfg_Options cfg))) (\<lambda>native.
          tryE (if cfg_Database cfg \<noteq> []
                then catchE (adC (Conn_SetDatabaseContext S ctx (Some native) (cfg_Database cfg)))
                       (\<lambda>e. do { _ \<leftarrow> adC (Conn_Close (Some native)); throw e }) ok
                else ok ()) (\<lambda>_. do {
            a \<leftarrow> ad_new;
            _ \<leftarrow> upd_adconn a (\<lambda>_. \<lparr>ad_native = Some native, database = cfg_Database cfg, activeTx = None,
                   closed = False, broken = False\<rparr>);
            ok a })))"

text \<open>\<^verbatim>\<open>func (driverInstance *Driver) Open(name string) (driver.Conn, error)\<close>\<close>

definition Driver_Open :: "golib \<Rightarrow> sdk \<Rightarrow> string \<Rightarrow> (adapter, gerror + nat) state" where
  "Driver_Open G S name =
     (case OpenConnector G name of Inl e \<Rightarrow> throw e | Inr cfg \<Rightarrow> Connect S Background (Some cfg))"

section \<open>Connections\<close>

definition conn_PrepareContext :: "sdk \<Rightarrow> ctx \<Rightarrow> nat \<Rightarrow> string \<Rightarrow> (adapter, gerror + nat) state" where
  "conn_PrepareContext S ctx a query = ad_locked (LAdConn a)
     (tryE (usableLocked a) (\<lambda>_. do {
      n \<leftarrow> gets (\<lambda>w. ad_native (adconns w a));
      catchE (adC (Conn_PrepareContext S ctx n query)) (observed_retry a) (\<lambda>prepared.
      catchE (adC (Stmt_Close S (Some prepared))) (observed_retry a) (\<lambda>_. do {
        s \<leftarrow> ad_new;
        _ \<leftarrow> upd_adstmt s (\<lambda>_. \<lparr>as_connection = Some a, as_query = query, as_closed = False\<rparr>);
        ok s })) }))"

definition conn_Prepare :: "sdk \<Rightarrow> nat \<Rightarrow> string \<Rightarrow> (adapter, gerror + nat) state" where
  "conn_Prepare S a query = conn_PrepareContext S Background a query"

definition conn_Close :: "sdk \<Rightarrow> nat option \<Rightarrow> (adapter, gerror + unit) state" where
  "conn_Close S connection =
     (case connection of
        None \<Rightarrow> ok ()
      | Some a \<Rightarrow> ad_locked (LAdConn a) (do {
          x \<leftarrow> gets (\<lambda>w. adconns w a);
          (if closed x then ok ()
           else do {
             rollbackError \<leftarrow> (case activeTx x of
                 None \<Rightarrow> State_Monad.return None
               | Some t \<Rightarrow> do {
                   r \<leftarrow> adC (Tx_RollbackContext S Background (Some t));
                   _ \<leftarrow> upd_adconn a (\<lambda>y. y\<lparr>activeTx := None\<rparr>);
                   State_Monad.return (error_of r) });
             closeError \<leftarrow> adC (Conn_Close (ad_native x));
             _ \<leftarrow> (if error_of closeError = None
                  then upd_adconn a (\<lambda>y. y\<lparr>ad_native := None, closed := True\<rparr>)
                  else State_Monad.return ());
             (case join_errors rollbackError (error_of closeError) of None \<Rightarrow> ok () | Some e \<Rightarrow> throw e) }) }))"

text \<open>\<^verbatim>\<open>func (connection *conn) BeginTx(ctx context.Context, options driver.TxOptions) (driver.Tx, error)\<close>\<close>

definition conn_BeginTx :: "sdk \<Rightarrow> ctx \<Rightarrow> nat \<Rightarrow> bool \<Rightarrow> int \<Rightarrow> (adapter, gerror + nat) state" where
  "conn_BeginTx S ctx a readOnly isolation =
     (if readOnly then throw ErrReadOnlyTransaction
      else if isolation \<noteq> 0 then throw ErrTransactionIsolation
      else ad_locked (LAdConn a)
        (tryE (usableLocked a) (\<lambda>_. do {
         x \<leftarrow> gets (\<lambda>w. adconns w a);
         (if activeTx x \<noteq> None then throw ErrBusy
          else catchE (adC (Conn_BeginContext S ctx (ad_native x))) (observed a) (\<lambda>native. do {
            _ \<leftarrow> upd_adconn a (\<lambda>y. y\<lparr>activeTx := Some native\<rparr>);
            t \<leftarrow> ad_new;
            _ \<leftarrow> upd_adtx t (\<lambda>_. \<lparr>at_connection = Some a, at_native = Some native, at_done = False\<rparr>);
            ok t })) })))"

definition conn_Begin :: "sdk \<Rightarrow> nat \<Rightarrow> (adapter, gerror + nat) state" where
  "conn_Begin S a = conn_BeginTx S Background a False 0"

definition conn_Ping :: "sdk \<Rightarrow> ctx \<Rightarrow> nat \<Rightarrow> (adapter, gerror + unit) state" where
  "conn_Ping S ctx a = ad_locked (LAdConn a)
     (tryE (usableLocked a) (\<lambda>_. do {
      n \<leftarrow> gets (\<lambda>w. ad_native (adconns w a));
      catchE (adC (Conn_PingContext S ctx n)) (observed_retry a) ok }))"

definition conn_IsValid :: "nat option \<Rightarrow> (adapter, bool) state" where
  "conn_IsValid connection =
     (case connection of
        None \<Rightarrow> State_Monad.return False
      | Some a \<Rightarrow> ad_locked (LAdConn a)
          (gets (\<lambda>w. \<not> closed (adconns w a) \<and> \<not> broken (adconns w a) \<and> ad_native (adconns w a) \<noteq> None)))"

definition isNoDatabaseSelected :: "gerror \<Rightarrow> bool" where
  "isNoDatabaseSelected e \<longleftrightarrow> (case as_sdk_error e of None \<Rightarrow> False | Some (code, _, _) \<Rightarrow> code = 7030)"

definition conn_ResetSession :: "sdk \<Rightarrow> ctx \<Rightarrow> nat \<Rightarrow> (adapter, gerror + unit) state" where
  "conn_ResetSession S ctx a = ad_locked (LAdConn a) (do {
     x \<leftarrow> gets (\<lambda>w. adconns w a);
     (let break' = do { _ \<leftarrow> upd_adconn a (\<lambda>y. y\<lparr>broken := True\<rparr>); throw ErrBadConn } in
      if closed x \<or> ad_native x = None \<or> broken x then throw ErrBadConn
      else
        catchE (case activeTx x of
            None \<Rightarrow> ok ()
          | Some t \<Rightarrow> tryE (adC (Tx_RollbackContext S ctx (Some t))) (\<lambda>_. do {
              _ \<leftarrow> upd_adconn a (\<lambda>y. y\<lparr>activeTx := None\<rparr>);
              ok () })) (\<lambda>_. break') (\<lambda>_.
        catchE (adC (Conn_RollbackContext S ctx (ad_native x)))
          (\<lambda>e. if isNoDatabaseSelected e then ok () else throw e) ok
        \<bind> (\<lambda>r. case r of Inl _ \<Rightarrow> break' | Inr _ \<Rightarrow>
        catchE (adC (Conn_SetDatabaseContext S ctx (ad_native x) (database x))) (\<lambda>_. break') ok)))
   })"

text \<open>\<^verbatim>\<open>type execResult struct\<close>: the result of a successful execution, with the core result's two metrics\<close>

record execResult =
  er_native :: result

definition execResult_LastInsertId :: "execResult \<Rightarrow> int \<times> gerror option" where
  "execResult_LastInsertId r = Result_LastInsertID (er_native r)"

definition execResult_RowsAffected :: "execResult \<Rightarrow> int \<times> gerror option" where
  "execResult_RowsAffected r = Result_RowsAffected (er_native r)"

definition conn_ExecContext ::
  "sdk \<Rightarrow> ctx \<Rightarrow> nat \<Rightarrow> string \<Rightarrow> named_value list \<Rightarrow> (adapter, gerror + execResult) state" where
  "conn_ExecContext S ctx a query arguments =
     (case namedValues arguments of
        Inl e \<Rightarrow> throw e
      | Inr values \<Rightarrow> ad_locked (LAdConn a)
          (tryE (usableLocked a) (\<lambda>_. do {
           n \<leftarrow> gets (\<lambda>w. ad_native (adconns w a));
           catchE (adC (Conn_ExecContext S ctx n query values)) (observed a) (\<lambda>result. do {
             tx \<leftarrow> gets (\<lambda>w. activeTx (adconns w a));
             (if tx = None
              then catchE (adC (Conn_CommitContext S Background n)) (observed a)
                     (\<lambda>_. ok \<lparr>er_native = result\<rparr>)
              else ok \<lparr>er_native = result\<rparr>) }) })))"

definition ad_newRows :: "nat \<Rightarrow> nat \<Rightarrow> (adapter, nat) state" where
  "ad_newRows a native = do {
     cols \<leftarrow> adC (Rows_Columns (Some native));
     tys \<leftarrow> adC (Rows_ColumnTypes (Some native));
     r \<leftarrow> ad_new;
     _ \<leftarrow> upd_adrows r (\<lambda>_. \<lparr>ar_connection = a, ar_native = Some native, ar_columns = cols, ar_types = tys\<rparr>);
     State_Monad.return r
   }"

definition conn_QueryContext ::
  "sdk \<Rightarrow> ctx \<Rightarrow> nat \<Rightarrow> string \<Rightarrow> named_value list \<Rightarrow> (adapter, gerror + nat) state" where
  "conn_QueryContext S ctx a query arguments =
     (case namedValues arguments of
        Inl e \<Rightarrow> throw e
      | Inr values \<Rightarrow> ad_locked (LAdConn a)
          (tryE (usableLocked a) (\<lambda>_. do {
           n \<leftarrow> gets (\<lambda>w. ad_native (adconns w a));
           catchE (adC (Conn_QueryContext S ctx n query values)) (observed a) (\<lambda>native. do {
             r \<leftarrow> ad_newRows a native;
             ok r }) })))"

section \<open>Statements\<close>

definition stmt_Close :: "nat option \<Rightarrow> (adapter, gerror + unit) state" where
  "stmt_Close statement =
     (case statement of
        None \<Rightarrow> ok ()
      | Some s \<Rightarrow> ad_locked (LAdStmt s) (do {
          _ \<leftarrow> upd_adstmt s (\<lambda>x. x\<lparr>as_closed := True, as_connection := None\<rparr>);
          ok () }))"

text \<open>\<^verbatim>\<open>-1\<close>: \<^verbatim>\<open>database/sql\<close> does not check the number of arguments\<close>

definition stmt_NumInput :: int where
  "stmt_NumInput = -1"

definition with_adstmt ::
  "nat \<Rightarrow> (nat \<Rightarrow> string \<Rightarrow> (adapter, gerror + 'a) state) \<Rightarrow> (adapter, gerror + 'a) state" where
  "with_adstmt s body = ad_locked (LAdStmt s) (do {
     x \<leftarrow> gets (\<lambda>w. adstmts w s);
     (case as_connection x of
        None \<Rightarrow> throw ErrClosed
      | Some a \<Rightarrow> (if as_closed x then throw ErrClosed else body a (as_query x)))
   })"

definition stmt_ExecContext :: "sdk \<Rightarrow> ctx \<Rightarrow> nat \<Rightarrow> named_value list \<Rightarrow> (adapter, gerror + execResult) state"
  where
  "stmt_ExecContext S ctx s arguments = with_adstmt s (\<lambda>a query. conn_ExecContext S ctx a query arguments)"

definition stmt_QueryContext :: "sdk \<Rightarrow> ctx \<Rightarrow> nat \<Rightarrow> named_value list \<Rightarrow> (adapter, gerror + nat) state"
  where
  "stmt_QueryContext S ctx s arguments = with_adstmt s (\<lambda>a query. conn_QueryContext S ctx a query arguments)"

definition stmt_Exec :: "sdk \<Rightarrow> nat \<Rightarrow> any list \<Rightarrow> (adapter, gerror + execResult) state" where
  "stmt_Exec S s arguments = stmt_ExecContext S Background s (positionalValues arguments)"

definition stmt_Query :: "sdk \<Rightarrow> nat \<Rightarrow> any list \<Rightarrow> (adapter, gerror + nat) state" where
  "stmt_Query S s arguments = stmt_QueryContext S Background s (positionalValues arguments)"

section \<open>Transactions\<close>

definition finishTransaction :: "nat \<Rightarrow> nat \<Rightarrow> bool \<Rightarrow> bool \<Rightarrow> (adapter, unit) state" where
  "finishTransaction a native broken' clear = ad_locked (LAdConn a) (do {
     x \<leftarrow> gets (\<lambda>w. adconns w a);
     _ \<leftarrow> (if activeTx x = Some native \<and> clear then upd_adconn a (\<lambda>y. y\<lparr>activeTx := None\<rparr>)
          else State_Monad.return ());
     (if broken' then upd_adconn a (\<lambda>y. y\<lparr>broken := True\<rparr>) else State_Monad.return ())
   })"

definition with_adtx ::
  "nat \<Rightarrow> (nat \<Rightarrow> nat \<Rightarrow> (adapter, gerror + unit) state) \<Rightarrow> (adapter, gerror + unit) state" where
  "with_adtx t body = ad_locked (LAdTx t) (do {
     x \<leftarrow> gets (\<lambda>w. adtxs w t);
     (case (at_connection x, at_native x) of
        (Some a, Some native) \<Rightarrow> (if at_done x then throw ErrTxDone else body a native)
      | _ \<Rightarrow> throw ErrTxDone)
   })"

definition tx_Commit :: "sdk \<Rightarrow> nat \<Rightarrow> (adapter, gerror + unit) state" where
  "tx_Commit S t = with_adtx t (\<lambda>a native.
     catchE (adC (Tx_CommitContext S Background (Some native)))
       (\<lambda>err. do {
          rb \<leftarrow> adC (Tx_RollbackContext S Background (Some native));
          _ \<leftarrow> finishTransaction a native True (error_of rb = None);
          _ \<leftarrow> upd_adtx t (\<lambda>x. x\<lparr>at_done := True\<rparr>);
          (case join_errors (Some err) (error_of rb) of None \<Rightarrow> ok () | Some e \<Rightarrow> throw e) })
       (\<lambda>_. do {
          _ \<leftarrow> finishTransaction a native False True;
          _ \<leftarrow> upd_adtx t (\<lambda>x. x\<lparr>at_done := True\<rparr>);
          ok () }))"

definition tx_Rollback :: "sdk \<Rightarrow> nat \<Rightarrow> (adapter, gerror + unit) state" where
  "tx_Rollback S t = with_adtx t (\<lambda>a native. do {
     err \<leftarrow> adC (Tx_RollbackContext S Background (Some native));
     _ \<leftarrow> finishTransaction a native (error_of err \<noteq> None) (error_of err = None);
     _ \<leftarrow> upd_adtx t (\<lambda>x. x\<lparr>at_done := True\<rparr>);
     State_Monad.return err })"

section \<open>Rows\<close>

text \<open>\<^verbatim>\<open>func driverValue(value core.Value) (driver.Value, error)\<close>; a BLOB is never a nil slice\<close>

definition driverValue :: "golib \<Rightarrow> val \<Rightarrow> gerror + any" where
  "driverValue G v =
     (let raw = slice_bytes (val_Raw v) in
      if val_Null v then Inr ANil
      else if val_Type v = TypeInteger \<or> val_Type v = TypeBoolean then
        (case parse_int64 raw of None \<Rightarrow> Inl ErrScan | Some i \<Rightarrow> Inr (AInt64 i))
      else if val_Type v = TypeFloat \<or> val_Type v = TypeCurrency then
        (case ParseFloat G raw of None \<Rightarrow> Inl ErrScan | Some x \<Rightarrow> Inr (AFloat64 x))
      else if val_Type v = TypeBlob then Inr (ABytes (Some raw))
      else Inr (AString raw))"

definition rows_Columns :: "nat \<Rightarrow> (adapter, string list) state" where
  "rows_Columns r = gets (\<lambda>w. ar_columns (adrowss w r))"

definition rows_Close :: "sdk \<Rightarrow> nat option \<Rightarrow> (adapter, gerror + unit) state" where
  "rows_Close S result =
     (case result of
        None \<Rightarrow> ok ()
      | Some r \<Rightarrow> do {
          x \<leftarrow> gets (\<lambda>w. adrowss w r);
          (if ar_native x = None then ok ()
           else do {
             err \<leftarrow> adC (Rows_Close S (ar_native x));
             _ \<leftarrow> upd_adrows r (\<lambda>y. y\<lparr>ar_native := None\<rparr>);
             _ \<leftarrow> observe (Some (ar_connection x)) (error_of err);
             State_Monad.return err }) })"

text \<open>The loop of \<^verbatim>\<open>Next\<close> over the destination slice, which keeps what was stored before an error.\<close>

fun next_columns ::
  "golib \<Rightarrow> sdk \<Rightarrow> nat \<Rightarrow> nat option \<Rightarrow> int \<Rightarrow> any list \<Rightarrow> (adapter, gerror option \<times> any list) state" where
  "next_columns G S a native column [] = State_Monad.return (None, [])"
| "next_columns G S a native column (d # ds) = do {
     v \<leftarrow> adC (Rows_Value S native column);
     (case v of
        Inl e \<Rightarrow> do { _ \<leftarrow> observe (Some a) (Some e); State_Monad.return (Some e, d # ds) }
      | Inr v \<Rightarrow>
          (case driverValue G v of
             Inl e \<Rightarrow> State_Monad.return (Some e, ANil # ds)
           | Inr x \<Rightarrow> do {
               rest \<leftarrow> next_columns G S a native (column + 1) ds;
               State_Monad.return (fst rest, x # snd rest) }))
   }"

definition rows_Next :: "golib \<Rightarrow> sdk \<Rightarrow> nat option \<Rightarrow> any list \<Rightarrow> (adapter, gerror option \<times> any list) state"
  where
  "rows_Next G S result destination =
     (case result of
        None \<Rightarrow> State_Monad.return (Some IoEOF, destination)
      | Some r \<Rightarrow> do {
          x \<leftarrow> gets (\<lambda>w. adrowss w r);
          (if ar_native x = None then State_Monad.return (Some IoEOF, destination)
           else if length destination \<noteq> length (ar_columns x)
           then State_Monad.return (Some ErrScan, destination)
           else do {
             more \<leftarrow> adC (Rows_Next S (ar_native x));
             (if \<not> more then do {
                err \<leftarrow> adC (Rows_Err (ar_native x));
                (case err of
                   None \<Rightarrow> State_Monad.return (Some IoEOF, destination)
                 | Some e \<Rightarrow> do {
                     _ \<leftarrow> observe (Some (ar_connection x)) (Some e);
                     State_Monad.return (Some e, destination) }) }
              else next_columns G S (ar_connection x) (ar_native x) 1 destination) }) })"

section \<open>Column metadata\<close>

text \<open>\<^verbatim>\<open>ColumnTypeDatabaseTypeName\<close>, \<^verbatim>\<open>ColumnTypeScanType\<close> and \<^verbatim>\<open>ColumnTypeLength\<close> of a row set's \<open>types\<close>\<close>

definition ColumnTypeDatabaseTypeName :: "8 word list \<Rightarrow> int \<Rightarrow> string" where
  "ColumnTypeDatabaseTypeName tys index =
     (if index < 0 \<or> index \<ge> int (length tys) then []
      else (let t = tys ! nat index in
        if t = TypeInteger then ''INTEGER'' else if t = TypeFloat then ''FLOAT''
        else if t = TypeText then ''TEXT'' else if t = TypeBlob then ''BLOB''
        else if t = TypeBoolean then ''BOOLEAN'' else if t = TypeDate then ''DATE''
        else if t = TypeTime then ''TIME'' else if t = TypeTimestamp then ''TIMESTAMP''
        else if t = TypeCurrency then ''CURRENCY'' else ''NULL''))"

datatype scan_type = int64Type | float64Type | stringType | bytesType | anyType

definition ColumnTypeScanType :: "8 word list \<Rightarrow> int \<Rightarrow> scan_type" where
  "ColumnTypeScanType tys index =
     (if index < 0 \<or> index \<ge> int (length tys) then anyType
      else (let t = tys ! nat index in
        if t = TypeInteger \<or> t = TypeBoolean then int64Type
        else if t = TypeFloat \<or> t = TypeCurrency then float64Type
        else if t = TypeBlob then bytesType
        else if t = TypeText \<or> t = TypeDate \<or> t = TypeTime \<or> t = TypeTimestamp then stringType
        else anyType))"

definition ColumnTypeLength :: "8 word list \<Rightarrow> int \<Rightarrow> int \<times> bool" where
  "ColumnTypeLength tys index =
     (if index < 0 \<or> index \<ge> int (length tys) then (0, False)
      else if tys ! nat index = TypeText \<or> tys ! nat index = TypeBlob then (2 ^ 63 - 1, True)
      else (0, False))"

text \<open>\<^verbatim>\<open>(nullable, ok bool)\<close>: unknown for every column\<close>

definition ColumnTypeNullable :: "8 word list \<Rightarrow> int \<Rightarrow> bool \<times> bool" where
  "ColumnTypeNullable tys index = (False, False)"

end
