(* ===== verification/Cube_Core_Query.thy ===== *)
theory Cube_Core_Query
  imports Cube_Core_Effects
begin

text \<open>A query that fails, at any point and for any reason, leaves no cursor and no statement behind.\<close>

section \<open>States with the same open objects\<close>

definition unchanged :: "acore \<Rightarrow> acore \<Rightarrow> bool" where
  "unchanged A B \<longleftrightarrow> a_view B = a_view A \<and> a_conns B = a_conns A \<and> a_txs B = a_txs A \<and> a_held B = a_held A \<and>
     (\<forall>r. rows_native (a_rows B r) = rows_native (a_rows A r)) \<and>
     (\<forall>s. stmt_native (a_stmts B s) = stmt_native (a_stmts A s))"

lemma unchanged_refl [simp]: "unchanged A A"
  by (simp add: unchanged_def)

text \<open>The state after statement \<open>s\<close> of connection \<open>c\<close>, with native statement \<open>i\<close>, is closed.\<close>

definition closed_stmt :: "nat \<Rightarrow> nat \<Rightarrow> nat \<Rightarrow> acore \<Rightarrow> acore" where
  "closed_stmt s i c B = B\<lparr>a_view := (a_view B)\<lparr>kstmts := (kstmts (a_view B))(i := None)\<rparr>,
     a_conns := (a_conns B)(c := (a_conns B c)\<lparr>children := children (a_conns B c) - 1\<rparr>),
     a_stmts := (a_stmts B)(s := (a_stmts B s)\<lparr>stmt_native := None, registered := False\<rparr>)\<rparr>"

text \<open>Statement \<open>s\<close> is open and idle, and closing it restores the open objects of \<open>A\<close>.\<close>

definition pending :: "acore \<Rightarrow> nat \<Rightarrow> acore \<Rightarrow> bool" where
  "pending A s B \<longleftrightarrow> (\<exists>i c. stmt_native (a_stmts B s) = Some i \<and> stmt_parent (a_stmts B s) = Some c \<and>
     registered (a_stmts B s) \<and> stmt_rows (a_stmts B s) = 0 \<and> 0 < children (a_conns B c) \<and>
     stmt_native (a_stmts A s) = None \<and> unchanged A (closed_stmt s i c B))"

lemma pending_frame:
  "pending A s B \<Longrightarrow> a_held B = a_held A \<and> stmt_native (a_stmts B s) \<noteq> None \<and> stmt_rows (a_stmts B s) = 0"
  by (auto simp: pending_def unchanged_def closed_stmt_def)

lemma awp_Stmt_Close_pending:
  assumes p: "pending A s B" and L: "under_tx (a_held A)"
  shows "awp (Stmt_Close S (Some s)) (\<lambda>_. unchanged A) B"
proof -
  obtain i c where s: "stmt_native (a_stmts B s) = Some i" "stmt_parent (a_stmts B s) = Some c"
      "registered (a_stmts B s)" "stmt_rows (a_stmts B s) = 0" "0 < children (a_conns B c)"
    and u: "unchanged A (closed_stmt s i c B)"
    using p by (auto simp: pending_def)
  have held: "a_held B = a_held A" using pending_frame [OF p] by simp
  show ?thesis
    unfolding Stmt_Close_def option.case
    by (intro awp_locked awp_bind awp_gets awp_if awp_ok awp_throw awp_upd awp_coE either_any awp_csStmt_Close
        awp_releaseChild)
      (use s u held L in \<open>auto simp: unchanged_def closed_stmt_def intro!: awp_return\<close>)
qed

lemma awp_Stmt_Close_gone:
  assumes "unchanged A B" and "stmt_native (a_stmts A s) = None" and L: "under_tx (a_held A)"
  shows "awp (Stmt_Close S (Some s)) (\<lambda>_. unchanged A) B"
proof -
  have s: "stmt_native (a_stmts B s) = None" "a_held B = a_held A" using assms by (simp_all add: unchanged_def)
  show ?thesis
    unfolding Stmt_Close_def option.case
    by (intro awp_locked awp_bind awp_gets awp_if awp_ok) (use s assms in \<open>auto simp: unchanged_def\<close>)
qed

text \<open>Only closed result sets, or their addresses, differ.\<close>

definition only_rows :: "acore \<Rightarrow> acore \<Rightarrow> bool" where
  "only_rows A B \<longleftrightarrow> a_view B = a_view A \<and> a_conns B = a_conns A \<and> a_txs B = a_txs A \<and> a_held B = a_held A \<and>
     a_stmts B = a_stmts A \<and> (\<forall>r. rows_native (a_rows B r) = rows_native (a_rows A r))"

lemma only_rows_unchanged: "only_rows A B \<Longrightarrow> unchanged A B"
  by (simp add: only_rows_def unchanged_def)

lemma abandoned_only_rows:
  assumes A: "hok A" and x: "krows (a_view A) x = None" and B: "abandoned (with_cursor_open A x a) x B"
  shows "only_rows A B"
proof -
  have "rows_native (a_rows A (a_next A)) = None"
    using hinvD(9) [OF hok_D [OF A]] by (simp add: fresh_objs_def)
  with B x show ?thesis
    by (auto simp: abandoned_def with_cursor_open_def Let_def only_rows_def fun_upd_idem)
qed

lemma pending_only_rows: "pending A s B \<Longrightarrow> only_rows B B' \<Longrightarrow> pending A s B'"
  unfolding pending_def only_rows_def unchanged_def closed_stmt_def by fastforce

lemma pending_held: "pending A s B \<Longrightarrow> pending (A\<lparr>a_held := L\<rparr>) s (B\<lparr>a_held := L\<rparr>)"
  unfolding pending_def unchanged_def closed_stmt_def by fastforce

section \<open>Queries without arguments\<close>

text \<open>The postcondition of a query: a failure leaves the open objects as they were.\<close>

definition or_unchanged :: "acore \<Rightarrow> gerror + 'a \<Rightarrow> acore \<Rightarrow> bool" where
  "or_unchanged A r B \<longleftrightarrow> (case r of Inl _ \<Rightarrow> unchanged A B | Inr _ \<Rightarrow> True)"

lemma or_unchanged_simps [simp]: "or_unchanged A (Inl e) B = unchanged A B" "or_unchanged A (Inr v) B"
  by (simp_all add: or_unchanged_def)

lemma awp_upd_any: "awp (upd_conn c f) (\<lambda>_ _. True) A" "awp (upd_rows r g) (\<lambda>_ _. True) A"
  "awp (upd_stmt s h) (\<lambda>_ _. True) A"
  by (auto intro: awp_upd)

lemma awp_one_shot_query:
  assumes A: "hok A" and L: "under_tx (a_held A)"
  shows "awp (with_conn_locked conn (\<lambda>x. children x \<noteq> 0) (\<lambda>c native.
         tryE (contextError ctx) (\<lambda>_.
         tryE (coE (csConn_Query S native query)) (\<lambda>nativeRows.
         tryE (newRowsContext S ctx (Some nativeRows)) (\<lambda>r. do {
           _ \<leftarrow> upd_conn c (\<lambda>y. y\<lparr>children := children y + 1\<rparr>);
           _ \<leftarrow> upd_rows r (\<lambda>y. y\<lparr>parentConn := Some c\<rparr>);
           ok r }))))) (or_unchanged A) A"
proof -
  let ?A = "\<lambda>c. A\<lparr>a_held := LConn c # a_held A\<rparr>"
  let ?Q = "\<lambda>c r B. or_unchanged A r (B\<lparr>a_held := remove1 (LConn c) (a_held B)\<rparr>)"
  have rows: "awp (tryE (newRowsContext S ctx (Some x)) (\<lambda>r. do {
           _ \<leftarrow> upd_conn c (\<lambda>y. y\<lparr>children := children y + 1\<rparr>);
           _ \<leftarrow> upd_rows r (\<lambda>y. y\<lparr>parentConn := Some c\<rparr>);
           ok r })) (?Q c) (with_cursor_open (?A c) x n)"
    if x: "krows (a_view A) x = None" for x c n
  proof (rule awp_tryE, rule awp_mono [OF awp_newRowsContext [of _ x n]])
    show "krows (a_view (with_cursor_open (?A c) x n)) x = Some n" by (simp add: with_cursor_open_def)
    show "LRows r \<notin> set (a_held (with_cursor_open (?A c) x n))" for r
      using L by (simp add: with_cursor_open_def)
    fix r :: "gerror + nat" and B
    assume r: "either (\<lambda>_. abandoned (with_cursor_open (?A c) x n) x) (building (with_cursor_open (?A c) x n) x) r B"
    show "either (\<lambda>e. ?Q c (Inl e)) (\<lambda>r. awp (do {
           _ \<leftarrow> upd_conn c (\<lambda>y. y\<lparr>children := children y + 1\<rparr>);
           _ \<leftarrow> upd_rows r (\<lambda>y. y\<lparr>parentConn := Some c\<rparr>);
           ok r }) (?Q c)) r B"
    proof (cases r)
      case (Inl e)
      then have "only_rows (?A c) B"
        using r abandoned_only_rows [of "?A c" x n B] A x by simp
      with Inl show ?thesis by (simp add: only_rows_def unchanged_def)
    next
      case (Inr i)
      then show ?thesis by (simp add: awp_bind awp_upd awp_ok)
    qed
  qed
  show ?thesis
    unfolding with_conn_locked_def
    by (intro awp_case_option awp_throw awp_locked awp_bind [of "gets _"] awp_gets awp_if
        awp_tryE [of "contextError ctx"] awp_contextError [OF either_any]
        awp_tryE [of "coE _"] awp_coE_either awp_csConn_Query either_Inl either_Inr)
      (use L rows in \<open>simp_all add: with_cursor_open_def\<close>)
qed

section \<open>Queries with arguments\<close>

lemma awp_Prepare:
  assumes A: "hok A" and L: "under_tx (a_held A)"
  shows "awp (Conn_PrepareContext S ctx conn query)
    (\<lambda>r B. case r of Inl _ \<Rightarrow> unchanged A B | Inr s \<Rightarrow> hok B \<and> pending A s B) A"
proof -
  let ?P = "\<lambda>r B. case r of Inl _ \<Rightarrow> unchanged A B | Inr s \<Rightarrow> hok B \<and> pending A s B"
  have fresh: "stmt_native (a_stmts A (a_next A)) = None"
    using hinvD(9) [OF hok_D [OF A]] by (simp add: fresh_objs_def)
  have body: "awp (tryE (coE (csConn_Prepare S (conn_native (a_conns A c)) query)) (\<lambda>st. do {
         _ \<leftarrow> upd_conn c (\<lambda>y. y\<lparr>children := children y + 1\<rparr>);
         s \<leftarrow> co_new;
         _ \<leftarrow> upd_stmt s (\<lambda>_. \<lparr>stmt_parent = Some c, stmt_native = Some st, queryText = query,
                stmt_rows = 0, registered = True\<rparr>);
         ok s })) (\<lambda>r B. ?P r (B\<lparr>a_held := remove1 (LConn c) (a_held B)\<rparr>)) (A\<lparr>a_held := LConn c # a_held A\<rparr>)"
    if c: "conn_native (a_conns A c) = Some n" "children (a_conns A c) = 0" for c n
  proof -
    have "hok (A\<lparr>a_conns := (a_conns A)(c := (a_conns A c)\<lparr>children := 1\<rparr>), a_next := Suc (a_next A),
        a_view := (a_view A)\<lparr>kstmts := (kstmts (a_view A))(i \<mapsto> n)\<rparr>,
        a_stmts := (a_stmts A)(a_next A := \<lparr>stmt_parent = Some c, stmt_native = Some i, queryText = query,
          stmt_rows = 0, registered = True\<rparr>)\<rparr>)" if "kstmts (a_view A) i = None" for i
      using hok_stmt_add [OF A c(1) that, of query] c(2) by (simp add: hok_def)
    moreover have "(a_conns A)(c := (a_conns A c)\<lparr>children := 0\<rparr>) = a_conns A"
      using c(2) by (simp add: fun_eq_iff)
    ultimately show ?thesis
      by (intro awp_tryE awp_coE_either awp_csConn_Prepare either_Inl either_Inr awp_bind awp_upd awp_new awp_ok)
        (use c fresh in \<open>auto simp: unchanged_def pending_def closed_stmt_def fun_upd_idem hok_def\<close>)
  qed
  show ?thesis
    unfolding Conn_PrepareContext_def with_conn_locked_def
    by (intro awp_tryE [of "contextError ctx"] awp_contextError [OF either_any] awp_if awp_throw awp_case_option
        awp_locked awp_bind [of "gets _"] awp_gets)
      (use L body in auto)
qed

text \<open>\<^verbatim>\<open>Stmt.query\<close> with \<^verbatim>\<open>closeWithRows\<close> on such a statement: after a failure it is closed, or still pending.\<close>

definition pending_or_gone :: "acore \<Rightarrow> nat \<Rightarrow> gerror + 'a \<Rightarrow> acore \<Rightarrow> bool" where
  "pending_or_gone A s r B \<longleftrightarrow> (case r of Inl _ \<Rightarrow> pending A s B \<or> unchanged A B | Inr _ \<Rightarrow> True)"

lemma pending_or_gone_simps [simp]: "pending_or_gone A s (Inr v) B"
  "pending_or_gone A s (Inl e) B = (pending A s B \<or> unchanged A B)"
  by (simp_all add: pending_or_gone_def)

lemma awp_adopt_pending:
  assumes B: "hok B" "a_held B = LStmt s # L" and p: "pending A s (B\<lparr>a_held := L\<rparr>)" and L: "under_tx L" "a_held A = L"
    and x: "krows (a_view B) x = None" and c: "stmt_parent (a_stmts B s) = Some c" "conn_native (a_conns B c) = Some a"
  shows "awp (adopt_rows S ctx s (a_stmts B s) True x) (pending_or_gone A s) (with_cursor_open B x a)"
  unfolding adopt_rows_def Let_def
proof (rule awp_catchE, rule awp_mono [OF awp_newRowsContext [of _ x a]])
  show "krows (a_view (with_cursor_open B x a)) x = Some a" by (simp add: with_cursor_open_def)
  show "LRows r \<notin> set (a_held (with_cursor_open B x a))" for r
    using B L by (simp add: with_cursor_open_def)
  fix r :: "gerror + nat" and D
  assume r: "either (\<lambda>_. abandoned (with_cursor_open B x a) x) (building (with_cursor_open B x a) x) r D"
  let ?h = "\<lambda>e. do { _ \<leftarrow> coC (csN (release (LStmt s)));
         _ \<leftarrow> if True then do { _ \<leftarrow> Stmt_Close S (Some s); State_Monad.return () } else State_Monad.return (); throw e }"
  let ?k = "\<lambda>r. catchE (addChild (stmt_parent (a_stmts B s)))
        (\<lambda>e. do { _ \<leftarrow> Rows_Close S (Some r); _ \<leftarrow> coC (csN (release (LStmt s)));
           _ \<leftarrow> if True then do { _ \<leftarrow> Stmt_Close S (Some s); State_Monad.return () } else State_Monad.return (); throw e })
        (\<lambda>_. do {
        _ \<leftarrow> upd_stmt s (\<lambda>x. x\<lparr>stmt_rows := stmt_rows x + 1\<rparr>);
        _ \<leftarrow> upd_rows r (\<lambda>y. y\<lparr>parentConn := stmt_parent (a_stmts B s), parentStmt := Some s, closeStmt := True\<rparr>);
        _ \<leftarrow> coC (csN (release (LStmt s)));
        ok r })"
  show "either (\<lambda>e. awp (?h e) (pending_or_gone A s :: gerror + nat \<Rightarrow> acore \<Rightarrow> bool))
      (\<lambda>r. awp (?k r) (pending_or_gone A s)) r D"
  proof (cases r)
    case (Inl e)
    then have o: "only_rows B D"
      using r abandoned_only_rows [OF B(1) x] by simp
    then have "only_rows (B\<lparr>a_held := L\<rparr>) (D\<lparr>a_held := L\<rparr>)" by (simp add: only_rows_def)
    from pending_only_rows [OF p this] have "pending A s (D\<lparr>a_held := L\<rparr>)" .
    from awp_Stmt_Close_pending [OF this, of S] L have "awp (Stmt_Close S (Some s)) (\<lambda>_. unchanged A) (D\<lparr>a_held := L\<rparr>)"
      by simp
    then have "awp (do { _ \<leftarrow> Stmt_Close S (Some s); (throw e :: (core, gerror + nat) state) }) (pending_or_gone A s)
        (D\<lparr>a_held := L\<rparr>)"
      by (intro awp_bind) (erule awp_mono, intro awp_throw, simp)
    moreover have "a_held D = LStmt s # L" using o B(2) by (simp add: only_rows_def)
    ultimately show ?thesis
      using Inl by (simp add: awp_bind [of "coC _"] awp_release)
  next
    case (Inr i)
    then have D: "building (with_cursor_open B x a) x i D" using r by simp
    show ?thesis
      unfolding Inr either_simps c(1)
      by (intro awp_catchE awp_addChild either_Inr awp_bind awp_upd awp_release awp_ok)
        (use building_frame [OF D] B L c in \<open>simp_all add: with_cursor_open_def\<close>)
  qed
qed

lemma awp_query_pending:
  assumes B: "hok B" and p: "pending A s B" and L: "under_tx (a_held A)"
  shows "awp (Stmt_query S ctx (Some s) True) (pending_or_gone A s) B"
proof -
  obtain i c where s: "stmt_native (a_stmts B s) = Some i" "stmt_parent (a_stmts B s) = Some c"
      "stmt_rows (a_stmts B s) = 0" and held: "a_held B = a_held A"
    using p pending_frame [OF p] by (auto simp: pending_def)
  obtain a where a: "conn_native (a_conns B c) = Some a" "kstmts (a_view B) i = Some a"
    using stmt_parent_ex [OF hok_D [OF B] s(1)] s(2) by auto
  let ?B = "B\<lparr>a_held := LStmt s # a_held B\<rparr>"
  have rows: "awp (adopt_rows S ctx s (a_stmts B s) True x) (pending_or_gone A s)
      (B\<lparr>a_held := LStmt s # a_held A, a_view := (a_view B)\<lparr>krows := (krows (a_view B))(x \<mapsto> a)\<rparr>\<rparr>)"
    if "krows (a_view B) x = None" for x
  proof -
    have "awp (adopt_rows S ctx s (a_stmts ?B s) True x) (pending_or_gone A s) (with_cursor_open ?B x a)"
    proof (rule awp_adopt_pending)
      have "B\<lparr>a_held := a_held A\<rparr> = B" using held by simp
      then show "pending A s (?B\<lparr>a_held := a_held A\<rparr>)" using p by simp
    qed (use B held L s a that in simp_all)
    then show ?thesis by (simp add: with_cursor_open_def held)
  qed
  have fail: "awp (do { _ \<leftarrow> coC (csN (release (LStmt s))); throw e }) (pending_or_gone A s :: gerror + nat \<Rightarrow> acore \<Rightarrow> bool) ?B"
    for e :: gerror
    by (intro awp_bind awp_release awp_throw) (use p held in \<open>simp flip: held\<close>)
  have "awp (do {
          _ \<leftarrow> coC (csN (acquire (LStmt s)));
          st \<leftarrow> gets (\<lambda>w. stmts w s);
          (if stmt_native st = None then do { _ \<leftarrow> coC (csN (release (LStmt s))); throw ErrClosed }
           else if stmt_rows st \<noteq> 0 then do { _ \<leftarrow> coC (csN (release (LStmt s))); throw ErrBusy }
           else
             catchE (contextError ctx) (\<lambda>e. do { _ \<leftarrow> coC (csN (release (LStmt s))); throw e }) (\<lambda>_.
             catchE (coE (csStmt_Query S (stmt_native st)))
               (\<lambda>e. do { _ \<leftarrow> coC (csN (release (LStmt s))); throw e }) (adopt_rows S ctx s st True))) })
      (pending_or_gone A s) B"
    by (intro awp_bind [of "coC (csN (acquire _))"] awp_bind [of "gets _"] awp_acquire awp_gets awp_if awp_catchE
        awp_contextError [OF either_any] awp_coE_either awp_csStmt_Query either_Inl either_Inr fail)
      (use s a held L rows in \<open>simp_all\<close>)
  then show ?thesis
    unfolding Stmt_query_def adopt_rows_def Let_def option.case
    by (intro awp_tryE awp_contextError [OF either_any]) (use p in simp_all)
qed

lemma awp_Query:
  assumes A: "hok A" and L: "under_tx (a_held A)"
  shows "awp (Conn_QueryContext S ctx conn query args) (or_unchanged A) A"
proof -
  have close: "awp (do { _ \<leftarrow> Stmt_Close S (Some s); throw e }) (or_unchanged A :: gerror + nat \<Rightarrow> acore \<Rightarrow> bool) B"
    if "pending A s B \<or> unchanged A B" "stmt_native (a_stmts A s) = None" for s B and e :: gerror
    using that awp_Stmt_Close_pending [of A s B S] awp_Stmt_Close_gone [of A B s S] L
    by (intro awp_bind) (auto elim!: awp_mono intro!: awp_throw)
  have loop: "frozen (eachE (\<lambda>index v. tryE (contextError ctx) (\<lambda>_. Stmt_Bind S (Some s) (int index + 1) v)) 0 args)" for s
    using frozen_stmt(1) unfolding frozen_def by (blast intro: keeps_control keeps_calls)
  have rest: "awp (catchE (eachE (\<lambda>index v. tryE (contextError ctx) (\<lambda>_. Stmt_Bind S (Some s) (int index + 1) v)) 0 args)
      (\<lambda>e. do { _ \<leftarrow> Stmt_Close S (Some s); throw e }) (\<lambda>_.
       catchE (contextError ctx) (\<lambda>e. do { _ \<leftarrow> Stmt_Close S (Some s); throw e }) (\<lambda>_.
       catchE (Stmt_query S ctx (Some s) True) (\<lambda>e. do { _ \<leftarrow> Stmt_Close S (Some s); throw e }) ok)))
      (or_unchanged A) B" if B: "hok B" "pending A s B" for s B
  proof -
    have s: "stmt_native (a_stmts A s) = None" "under_tx (a_held B)"
      using B(2) L pending_frame [OF B(2)] by (auto simp: pending_def)
    have bound: "keeps ((=) B) (eachE (\<lambda>index v. tryE (contextError ctx) (\<lambda>_. Stmt_Bind S (Some s) (int index + 1) v)) 0 args)"
      using loop [of s] s(2) by (simp add: frozen_def)
    have query: "awp (catchE (Stmt_query S ctx (Some s) True) (\<lambda>e. do { _ \<leftarrow> Stmt_Close S (Some s); throw e }) ok)
        (or_unchanged A) B"
      by (rule awp_catchE, rule awp_mono [OF awp_query_pending [OF B L]])
        (auto simp: either_def intro: close awp_ok s split: sum.splits)
    show ?thesis
      by (rule awp_catchE, rule awp_keeps [OF bound refl], rule either_any)
        (use B s query in \<open>auto intro!: close awp_catchE [of "contextError ctx"] awp_contextError [OF either_any]\<close>)
  qed
  show ?thesis
    unfolding Conn_QueryContext_def Let_def
    by (intro awp_tryE [of "contextError ctx"] awp_contextError [OF either_any] awp_if awp_throw
        awp_one_shot_query [OF A L] awp_tryE [of "Conn_PrepareContext S ctx conn query"]
        awp_mono [OF awp_Prepare [OF A L]])
      (auto simp: either_def intro: rest split: sum.splits)
qed

text \<open>C2: A query either yields its result set or leaves nothing behind. In any reachable state,
  for \<^verbatim>\<open>Query\<close> with or without arguments, on any receiver, and whatever fails (the query text, the prepare,
  a bind, the query itself, reading the row count or a column's name or type, an allocation, or a
  cancellation between any two of these), an error means that the open objects of both packages, all
  counters and all transactions are exactly those before the call: the native cursor and the temporary
  statement are closed on every error path, and no mutex stays locked.\<close>

theorem query_failure_clean:
  "let w = run_ops (co_step S pf) ops core_init; (r, w') = run_state (Conn_QueryContext S ctx conn query args) w in
   case r of Inr rows \<Rightarrow> True
   | Inl e \<Rightarrow> cview (csdk_of w') = cview (csdk_of w) \<and> conns w' = conns w \<and> txs w' = txs w \<and>
       rows_native \<circ> rowss w' = rows_native \<circ> rowss w \<and> stmt_native \<circ> stmts w' = stmt_native \<circ> stmts w \<and>
       held (native_of (csdk_of w')) = []"
proof -
  let ?w = "co_run S pf ops"
  obtain r w' where m: "run_state (Conn_QueryContext S ctx conn query args) ?w = (r, w')" by fastforce
  have "under_tx (a_held (abs_core ?w))" using co_run_hok(2) by simp
  note q = run_awp(2) [OF awp_Query [OF co_run_hok(1) this] m]
  have "held (native_of (csdk_of ?w)) = []" using co_run_hok(2) [of S pf ops] by (simp add: abs_core_def)
  with q show ?thesis
    unfolding Let_def m prod.case by (cases r) (simp_all add: unchanged_def abs_core_def fun_eq_iff)
qed

end
