(* ===== verification/Cube_Adapter_Run.thy ===== *)
theory Cube_Adapter_Run
  imports Cube_Adapter Cube_Core_Query
begin

text \<open>
  The \<^verbatim>\<open>database/sql\<close> driver as a component: its methods as data, runs of arbitrary sequences of them,
  the invariant of the packages below in every reachable state, and the health of connections.
\<close>

section \<open>Methods that keep the invariant of the packages below\<close>

definition safe_at :: "lock list \<Rightarrow> adapter \<Rightarrow> bool" where
  "safe_at L = (\<lambda>w. core_at L (core_of w))"

lemma safe_adC: "keeps (ready L) m \<Longrightarrow> stays (safe_at L) (adC m)"
  unfolding safe_at_def adC_def by (rule staysI) (auto simp: wp_simps dest: keeps_core_at)

lemma safe_upd:
  "stays (safe_at L) (upd_adconn a f)" "stays (safe_at L) (upd_adstmt s g)" "stays (safe_at L) (upd_adtx t h)"
  "stays (safe_at L) (upd_adrows r k)" "stays (safe_at L) ad_new"
  unfolding upd_adconn_def upd_adstmt_def upd_adtx_def upd_adrows_def ad_new_def stays_def safe_at_def
  by (simp_all add: wp_simps)

lemma core_at_acquire:
  assumes "adapter_lock l" and "l \<notin> set L" and "core_at L w"
  shows "wp (coC (csN (acquire l))) (\<lambda>_. core_at (l # L)) w"
proof -
  have "\<not> cs_lock l" using assms(1) by (cases l) simp_all
  then have "awp (coC (csN (acquire l))) (\<lambda>_. ready (l # L)) (abs_core w)"
    by (rule awp_acquire) (use assms in \<open>simp_all add: core_at_def ready_def\<close>)
  from awpD [OF this] assms(3) show ?thesis by (simp add: core_at_def)
qed

lemma core_at_release:
  assumes "core_at (l # L) w"
  shows "wp (coC (csN (release l))) (\<lambda>_. core_at L) w"
proof -
  have "awp (coC (csN (release l))) (\<lambda>_. ready L) (abs_core w)"
    by (rule awp_release) (use assms in \<open>simp add: core_at_def ready_def\<close>)
  from awpD [OF this] assms show ?thesis by (simp add: core_at_def)
qed

lemma safe_locked:
  assumes "adapter_lock l" and "l \<notin> set L" and "stays (safe_at (l # L)) body"
  shows "stays (safe_at L) (ad_locked l body)"
proof (rule staysI)
  fix w assume w: "safe_at L w"
  have "wp (adC (coC (csN (acquire l)))) (\<lambda>_. safe_at (l # L)) w"
    unfolding adC_def using core_at_acquire [OF assms(1,2)] w by (simp add: wp_simps safe_at_def)
  moreover have "wp (adC (coC (csN (release l)))) (\<lambda>_. safe_at L) v" if "safe_at (l # L) v" for v
    unfolding adC_def using core_at_release that by (simp add: wp_simps safe_at_def)
  ultimately show "wp (ad_locked l body) (\<lambda>_. safe_at L) w"
    using assms(3) unfolding ad_locked_def stays_def wp_bind
    by (elim wp_mono) (auto simp: wp_simps elim!: wp_mono)
qed

named_theorems safe_methods

lemmas safe_control = stays_control safe_upd safe_adC safe_locked

lemma safe_helpers:
  "stays (safe_at L) (usableLocked a)" "stays (safe_at L) (observeLocked a e)" "stays (safe_at L) (safeRetryErrorLocked a err)"
  "stays (safe_at L) (observed a err)" "stays (safe_at L) (observed_retry a err)"
  unfolding usableLocked_def observed_def observed_retry_def observeLocked_def safeRetryErrorLocked_def
  by (intro safe_control)+

lemma safe_observe: "LAdConn a \<notin> set L \<Longrightarrow> stays (safe_at L) (observe (Some a) e)"
  unfolding observe_def by (cases e; simp) (intro safe_control safe_helpers; simp)+

lemma safe_Connect: "under_ad L \<Longrightarrow> stays (safe_at L) (Connect S ctx cfg)"
  unfolding Connect_def by (intro safe_control keeps_methods) simp_all

lemma safe_Driver_Open: "under_ad L \<Longrightarrow> stays (safe_at L) (Driver_Open G S name)"
  unfolding Driver_Open_def by (intro safe_control safe_Connect)

text \<open>The locks an adapter method of a connection, statement or transaction may be called with.\<close>

definition below_conn :: "lock list \<Rightarrow> bool" where
  "below_conn L \<longleftrightarrow> under_ad L \<and> (\<forall>a. LAdConn a \<notin> set L)"

lemma below_conn_simps [simp]:
  "below_conn []" "below_conn L \<Longrightarrow> under_ad L" "below_conn L \<Longrightarrow> LAdConn a \<notin> set L"
  "below_conn L \<Longrightarrow> below_conn (LAdStmt s # L)" "below_conn L \<Longrightarrow> below_conn (LAdTx t # L)"
  by (auto simp: below_conn_def)

lemma safe_conn [safe_methods]:
  assumes "below_conn L"
  shows "stays (safe_at L) (conn_PrepareContext S ctx a query)" "stays (safe_at L) (conn_Close S c)"
    "stays (safe_at L) (conn_BeginTx S ctx a ro lvl)" "stays (safe_at L) (conn_Ping S ctx a)"
    "stays (safe_at L) (conn_IsValid c)" "stays (safe_at L) (conn_ResetSession S ctx a)"
    "stays (safe_at L) (conn_ExecContext S ctx a query args)" "stays (safe_at L) (conn_QueryContext S ctx a query args)"
  unfolding conn_PrepareContext_def conn_Close_def conn_BeginTx_def conn_Ping_def conn_IsValid_def
    conn_ResetSession_def conn_ExecContext_def conn_QueryContext_def ad_newRows_def Let_def
  by (intro safe_control safe_helpers keeps_methods; simp add: assms)+

lemma safe_with_adstmt:
  assumes "\<And>a q. stays (safe_at [LAdStmt s]) (body a q)"
  shows "stays (safe_at []) (with_adstmt s body)"
  unfolding with_adstmt_def by (intro safe_control assms) simp_all

lemma safe_stmt [safe_methods]:
  "stays (safe_at []) (stmt_Close st)" "stays (safe_at []) (stmt_ExecContext S ctx s args)"
  "stays (safe_at []) (stmt_QueryContext S ctx s args)"
  unfolding stmt_Close_def stmt_ExecContext_def stmt_QueryContext_def
  by (intro safe_control safe_with_adstmt safe_methods; simp)+

lemma safe_finishTransaction: "below_conn L \<Longrightarrow> stays (safe_at L) (finishTransaction a n b c)"
  unfolding finishTransaction_def by (intro safe_control) simp_all

lemma safe_with_adtx:
  assumes "\<And>a n. stays (safe_at [LAdTx t]) (body a n)"
  shows "stays (safe_at []) (with_adtx t body)"
  unfolding with_adtx_def by (intro safe_control) (auto intro!: stays_basic stays_if assms split: option.split)

lemma safe_tx [safe_methods]: "stays (safe_at []) (tx_Commit S t)" "stays (safe_at []) (tx_Rollback S t)"
  unfolding tx_Commit_def tx_Rollback_def
  by (intro safe_with_adtx safe_control safe_finishTransaction keeps_methods; simp)+

lemma safe_next_columns: "stays (safe_at []) (next_columns G S a native column ds)"
  by (induction ds arbitrary: column)
    (auto intro!: stays_control safe_adC keeps_methods safe_observe simp: Rows_Value_def split: sum.split)

lemma safe_rows [safe_methods]:
  "stays (safe_at []) (rows_Columns r')" "stays (safe_at []) (rows_Close S r)" "stays (safe_at []) (rows_Next G S r ds)"
  unfolding rows_Columns_def rows_Close_def rows_Next_def Rows_Next_def
  by (intro safe_control keeps_methods safe_observe safe_next_columns; simp)+

section \<open>Operations and runs\<close>

text \<open>
  The methods \<^verbatim>\<open>database/sql\<close> calls. Those without a context pass \<open>Background\<close>; \<open>AdConnect\<close> stands for a
  connector, whose configuration \<open>NewConnector\<close> has validated or not.
\<close>

datatype ad_op =
    AdConnect ctx "config option"
  | AdOpen string
  | AdPrepare ctx nat string
  | AdClose "nat option"
  | AdBegin ctx nat bool int
  | AdPing ctx nat
  | AdIsValid "nat option"
  | AdReset ctx nat
  | AdExec ctx nat string "named_value list"
  | AdQuery ctx nat string "named_value list"
  | AdStmtClose "nat option"
  | AdStmtExec ctx nat "named_value list"
  | AdStmtQuery ctx nat "named_value list"
  | AdCommit nat
  | AdRollback nat
  | AdRowsClose "nat option"
  | AdNext "nat option" "any list"

fun ad_step :: "golib \<Rightarrow> sdk \<Rightarrow> ad_op \<Rightarrow> (adapter, unit) state" where
  "ad_step G S (AdConnect ctx cfg) = void (Connect S ctx cfg)"
| "ad_step G S (AdOpen name) = void (Driver_Open G S name)"
| "ad_step G S (AdPrepare ctx a query) = void (conn_PrepareContext S ctx a query)"
| "ad_step G S (AdClose a) = void (conn_Close S a)"
| "ad_step G S (AdBegin ctx a readOnly lvl) = void (conn_BeginTx S ctx a readOnly lvl)"
| "ad_step G S (AdPing ctx a) = void (conn_Ping S ctx a)"
| "ad_step G S (AdIsValid a) = void (conn_IsValid a)"
| "ad_step G S (AdReset ctx a) = void (conn_ResetSession S ctx a)"
| "ad_step G S (AdExec ctx a query args) = void (conn_ExecContext S ctx a query args)"
| "ad_step G S (AdQuery ctx a query args) = void (conn_QueryContext S ctx a query args)"
| "ad_step G S (AdStmtClose s) = void (stmt_Close s)"
| "ad_step G S (AdStmtExec ctx s args) = void (stmt_ExecContext S ctx s args)"
| "ad_step G S (AdStmtQuery ctx s args) = void (stmt_QueryContext S ctx s args)"
| "ad_step G S (AdCommit t) = void (tx_Commit S t)"
| "ad_step G S (AdRollback t) = void (tx_Rollback S t)"
| "ad_step G S (AdRowsClose r) = void (rows_Close S r)"
| "ad_step G S (AdNext r ds) = void (rows_Next G S r ds)"

lemma stays_unit: "stays I m \<Longrightarrow> stays I (void m)"
  unfolding void_def by (intro stays_control)

lemma ad_step_safe: "stays (safe_at []) (ad_step G S op)"
  by (cases op; simp only: ad_step.simps; intro stays_unit safe_methods safe_Connect safe_Driver_Open; simp)

interpretation adapter_comp: component adapter_init "ad_step G S" "safe_at []" for G S
proof
  show "safe_at [] adapter_init"
    using core_ok_init by (simp add: safe_at_def core_ok_def adapter_init_def)
qed (use ad_step_safe in \<open>simp add: stays_def\<close>)

abbreviation ad_run :: "golib \<Rightarrow> sdk \<Rightarrow> ad_op list \<Rightarrow> adapter" where
  "ad_run G S ops \<equiv> run_ops (ad_step G S) ops adapter_init"

lemma ad_run_safe: "core_at [] (core_of (ad_run G S ops))"
  using adapter_comp.reachable_inv by (simp add: safe_at_def)

lemma core_at_hinv:
  assumes "core_at L w"
  shows "hinv (cview (csdk_of w)) (conns w) (rowss w) (stmts w) (txs w) (co_next w)"
    "csdk_ok (csdk_of w)" "held (native_of (csdk_of w)) = L"
  using assms by (simp_all add: core_at_def ready_def hok_def abs_core_def)

text \<open>C1: The whole stack is memory safe, free of self-deadlock and keeps its books. In every state
  that \<^verbatim>\<open>database/sql\<close> can reach with any sequence of driver methods, on any objects and arguments, with
  any data source name, any cancellation and any behaviour of SDK and server: no freed or foreign memory
  was touched, no mutex of any of the three packages was taken twice by one call or left locked, every
  native connection, cursor and statement still open is held by exactly one public object, no bind graph
  is left, and the child counters of all connections are exact.\<close>

theorem adapter_safe:
  "let w = core_of (run_ops (ad_step G S) ops adapter_init); n = native_of (csdk_of w); V = cview (csdk_of w) in
   \<not> fault n \<and> \<not> stuck n \<and> held n = [] \<and>
   (kopen V p \<longleftrightarrow> (\<exists>!c. conn_native (conns w c) = Some p)) \<and>
   (krows V p \<noteq> None \<longleftrightarrow> (\<exists>!r. rows_native (rowss w r) = Some p)) \<and>
   (kstmts V p \<noteq> None \<longleftrightarrow> (\<exists>!s. stmt_native (stmts w s) = Some p)) \<and> \<not> kbinds V p \<and>
   children (conns w c) =
     int (length (filter (\<lambda>r. rows_native (rowss w r) \<noteq> None \<and> parentConn (rowss w r) = Some c) [0..<co_next w]))
     + int (length (filter (\<lambda>s. registered (stmts w s) \<and> stmt_parent (stmts w s) = Some c) [0..<co_next w]))"
proof -
  note w = core_at_hinv [OF ad_run_safe [of G S ops]]
  have "(\<lambda>r. row_conn R r = Some c) = (\<lambda>r. rows_native (R r) \<noteq> None \<and> parentConn (R r) = Some c)"
    "(\<lambda>s. reg_conn T s = Some c) = (\<lambda>s. registered (T s) \<and> stmt_parent (T s) = Some c)" for R T
    by (auto simp: fun_eq_iff row_conn_def reg_conn_def)
  note n = countsD(3) [OF w(1), of c, unfolded this count_upto_def]
  have o: "L p \<longleftrightarrow> (\<exists>!a. f a = Some p)" if "owns f L" for f :: "nat \<Rightarrow> nat option" and L
    using that unfolding owns_def by metis
  note h = hinvD [OF w(1)]
  have "\<not> stuck (native_of (csdk_of (core_of (ad_run G S ops))))" "csdk_inv (csdk_of (core_of (ad_run G S ops)))"
    using w(2) by (simp_all add: csdk_ok_def)
  with csdk_invD(1) w(3) n o [OF h(1)] o [OF h(2)] o [OF h(3)] h(4) show ?thesis
    by (simp add: Let_def native_ok_def)
qed

end
