(* ===== verification/Cube_Wire.thy ===== *)
theory Cube_Wire
  imports Cube_Core_Run
begin

text \<open>
  What the driver sends: the part of the history that consists of calls that run, prepare or bind
  statements or change the session, and the bind graphs it builds for them. A call is \<open>silent\<close> when it
  leaves these alone.
\<close>

section \<open>The wire\<close>

text \<open>The SDK calls that act on the server's session.\<close>

fun acts :: "event \<Rightarrow> bool" where
  "acts (EExecute _ _) = True"
| "acts (ESetDatabase _ _) = True"
| "acts (EBegin _) = True"
| "acts (ECommit _) = True"
| "acts (ERollback _) = True"
| "acts (ESelect _ _) = True"
| "acts (EBind _ _ _) = True"
| "acts (EVmPrepare _ _) = True"
| "acts (EVmBind _ _ _) = True"
| "acts (EVmExecute _) = True"
| "acts (EVmSelect _) = True"
| "acts _ = False"

record wire =
  sent :: "event list"
  db_at :: "nat \<Rightarrow> nat option"
  vm_at :: "nat \<Rightarrow> nat option"
  graph_at :: "nat \<Rightarrow> csqlgo_bind option"

text \<open>The wire of the bridge, by C address, and of the private package, by Go address.\<close>

definition nwire :: "native \<Rightarrow> wire" where
  "nwire n = \<lparr> sent = filter acts (hist n),
     db_at = (\<lambda>p. case c_conns n p of None \<Rightarrow> None | Some s \<Rightarrow> db s),
     vm_at = (\<lambda>p. case c_stmts n p of None \<Rightarrow> None | Some s \<Rightarrow> vm s), graph_at = c_binds n \<rparr>"

definition through :: "(nat \<Rightarrow> nat option) \<Rightarrow> (nat \<Rightarrow> 'a option) \<Rightarrow> nat \<Rightarrow> 'a option" where
  "through f g a = (case f a of None \<Rightarrow> None | Some p \<Rightarrow> g p)"

definition cwire :: "csdk \<Rightarrow> wire" where
  "cwire w = \<lparr> sent = sent (nwire (native_of w)),
     db_at = through (\<lambda>a. conn_ptr (gconns w a)) (db_at (nwire (native_of w))),
     vm_at = through (\<lambda>s. stmt_ptr (gstmts w s)) (vm_at (nwire (native_of w))),
     graph_at = through (\<lambda>b. bind_ptr (gbinds w b)) (graph_at (nwire (native_of w))) \<rparr>"

definition nquiet :: "(native, 'a) state \<Rightarrow> bool" where
  "nquiet m \<longleftrightarrow> (\<forall>x. stays (\<lambda>n. nwire n = x) m)"

definition silent :: "(csdk, 'a) state \<Rightarrow> bool" where
  "silent m \<longleftrightarrow> (\<forall>x. stays (\<lambda>w. cwire w = x) m)"

section \<open>Silent calls of the bridge\<close>

lemma nquiet_control:
  "nquiet (State_Monad.return v)" "nquiet (gets f)"
  "nquiet m \<Longrightarrow> (\<And>v. nquiet (k v)) \<Longrightarrow> nquiet (State_Monad.bind m k)"
  "(b \<Longrightarrow> nquiet m1) \<Longrightarrow> (\<not> b \<Longrightarrow> nquiet m2) \<Longrightarrow> nquiet (if b then m1 else m2)"
  "nquiet m1 \<Longrightarrow> (\<And>v. nquiet (g v)) \<Longrightarrow> nquiet (case y of None \<Rightarrow> m1 | Some v \<Rightarrow> g v)"
  "(\<And>e. nquiet (h e)) \<Longrightarrow> (\<And>v. nquiet (g v)) \<Longrightarrow> nquiet (case r of Inl e \<Rightarrow> h e | Inr v \<Rightarrow> g v)"
  unfolding nquiet_def by (auto intro!: stays_control split: option.split sum.split)

lemma nquiet_modify: "(\<And>n. nwire (f n) = nwire n) \<Longrightarrow> nquiet (modify f)"
  by (simp add: nquiet_def stays_def wp_simps)

lemma nquiet_prims:
  "nquiet (acquire l)" "nquiet (release l)" "nquiet (fail_ub v)" "\<not> acts e \<Longrightarrow> nquiet (log_call e)"
  "nquiet (malloc_ok S)"
  unfolding acquire_def release_def fail_ub_def log_call_def malloc_ok_def
  by (intro nquiet_control nquiet_modify; simp add: nwire_def)+

lemma nquiet_calls:
  "\<not> acts e \<Longrightarrow> nquiet (db_call d e)" "\<not> acts e \<Longrightarrow> nquiet (db_int S d e)" "\<not> acts e \<Longrightarrow> nquiet (db_int64 S d e)"
  unfolding db_int_def db_int64_def db_call_def by (intro nquiet_control nquiet_prims; simp)+

lemma nquiet_conn:
  "nquiet (csqlgo_conn_error_code S p)" "nquiet (csqlgo_conn_error_message_copy S p)"
  "nquiet (csqlgo_conn_affected_rows S p)" "nquiet (csqlgo_conn_last_insert_id S p)" "nquiet (csqlgo_conn_changes S p)"
  "nquiet (csqlgo_conn_ping S p)"
  unfolding csqlgo_conn_error_code_def csqlgo_conn_error_message_copy_def csqlgo_conn_affected_rows_def
    csqlgo_conn_last_insert_id_def csqlgo_conn_changes_def csqlgo_conn_ping_def with_conn_def csqlgo_copy_string_def
  by (intro nquiet_control nquiet_calls nquiet_prims; simp)+

section \<open>Silent calls of the private package\<close>

lemma silent_control:
  "silent (State_Monad.return v)" "silent (gets f)" "silent (throw e)" "silent (ok u)"
  "silent m \<Longrightarrow> (\<And>v. silent (k v)) \<Longrightarrow> silent (State_Monad.bind m k)"
  "(b \<Longrightarrow> silent m1) \<Longrightarrow> (\<not> b \<Longrightarrow> silent m2) \<Longrightarrow> silent (if b then m1 else m2)"
  "silent m1 \<Longrightarrow> (\<And>v. silent (g v)) \<Longrightarrow> silent (case y of None \<Rightarrow> m1 | Some v \<Rightarrow> g v)"
  unfolding silent_def by (auto intro!: stays_control split: option.split)

lemma silent_csN: "nquiet m \<Longrightarrow> silent (csN m)"
proof -
  assume m: "nquiet m"
  have "wp m (\<lambda>_ n. nwire n = nwire (native_of w)) (native_of w)" for w
    using m by (simp add: nquiet_def stays_def)
  then have "wp (csN m) (\<lambda>_ v. cwire v = cwire w) w" for w
    unfolding csN_def wp_zoom by (rule wp_mono) (simp add: cwire_def)
  then show ?thesis by (simp add: silent_def stays_def)
qed

lemma silent_step: "silent m \<Longrightarrow> (\<And>r v. cwire v = cwire w \<Longrightarrow> Q r v) \<Longrightarrow> wp m Q w"
  unfolding silent_def stays_def by (blast intro: wp_mono)

lemma silent_error: "silent (nativeErrorLocked S a c)" "silent (check_result S a r)"
  unfolding check_result_def nativeErrorLocked_def Let_def
  by (intro silent_control silent_csN nquiet_conn)+

lemma silent_locks: "silent (csN (acquire l))" "silent (csN (release l))"
  by (intro silent_csN nquiet_prims)+

lemma silent_metrics: "silent (csConn_AffectedRows S conn)" "silent (csConn_LastInsertID S conn)"
  unfolding csConn_AffectedRows_def csConn_LastInsertID_def csConn_metric_def with_open_conn_def cs_locked_def
  by (intro silent_control silent_csN nquiet_prims nquiet_conn silent_error)+

section \<open>Calls that send one event\<close>

text \<open>
  \<open>sends d E x r y\<close>: the call either sent \<open>E\<close> of the handle \<open>d\<close> and nothing else, or failed (\<open>bad\<close>) and sent
  nothing.
\<close>

definition sends :: "nat option \<Rightarrow> (nat \<Rightarrow> event) \<Rightarrow> bool \<Rightarrow> wire \<Rightarrow> wire \<Rightarrow> bool" where
  "sends d E bad x y \<longleftrightarrow> (y = x \<and> bad) \<or> (\<exists>k. d = Some k \<and> y = x\<lparr>sent := E k # sent x\<rparr>)"

lemma nwire_simps [simp]:
  "nwire (tick e n) = (if acts e then (nwire n)\<lparr>sent := e # sent (nwire n)\<rparr> else nwire n)"
  "nwire (n\<lparr>fault := b\<rparr>) = nwire n"
  by (simp_all add: nwire_def tick_def)

lemma nwire_fields:
  "db_at (nwire n) p = (case c_conns n p of None \<Rightarrow> None | Some s \<Rightarrow> db s)"
  "vm_at (nwire n) p = (case c_stmts n p of None \<Rightarrow> None | Some s' \<Rightarrow> vm s')"
  "graph_at (nwire n) = c_binds n"
  by (simp_all add: nwire_def)

lemma conn_sends:
  assumes "\<And>d. acts (E d)"
  shows "wp (with_conn p (- 10000) (\<lambda>d. db_int S d (E d)))
    (\<lambda>r n'. sends (case p of None \<Rightarrow> None | Some q \<Rightarrow> db_at (nwire n) q) E (r = - 10000) (nwire n) (nwire n')) n"
  unfolding with_conn_def db_int_def db_call_def fail_ub_def
  using assms by (auto simp: wp_simps sends_def nwire_fields split: option.split)

lemma sends_cwire:
  assumes "sends d E bad (nwire (native_of w)) (nwire n')"
  shows "sends d E bad (cwire w) (cwire (w\<lparr>native_of := n'\<rparr>))"
  using assms by (auto simp: sends_def cwire_def)

lemma sends_weaken: "sends d E bad x y \<Longrightarrow> (bad \<Longrightarrow> bad') \<Longrightarrow> sends d E bad' x y"
  by (auto simp: sends_def)

lemma check_result_wire: "wp (check_result S a r) (\<lambda>x v. cwire v = cwire w \<and> (isl x \<longleftrightarrow> r \<noteq> 0)) w"
proof -
  have "wp (nativeErrorLocked S a r) (\<lambda>_ v. cwire v = cwire w) w" for w
    by (rule silent_step [OF silent_error(1)])
  then show ?thesis by (auto simp: check_result_def wp_simps)
qed

text \<open>A C function that sends one event on a connection, \<^verbatim>\<open>call\<close>ed from Go.\<close>

definition conn_sender :: "(nat option \<Rightarrow> (native, int) state) \<Rightarrow> (nat \<Rightarrow> event) \<Rightarrow> bool" where
  "conn_sender f E \<longleftrightarrow> (\<forall>p n. wp (f (Some p)) (\<lambda>r n'. sends (db_at (nwire n) p) E (r \<noteq> 0) (nwire n) (nwire n')) n)"

lemma conn_senderI:
  assumes "\<And>p. f p = with_conn p (- 10000) (\<lambda>d. db_int S d (E d))" and "\<And>d. acts (E d)"
  shows "conn_sender f E"
  unfolding conn_sender_def assms(1)
  by (intro allI, rule wp_mono [OF conn_sends [OF assms(2)]]) (auto elim: sends_weaken)

lemma conn_senders:
  "conn_sender (\<lambda>p. csqlgo_conn_execute S p sql) (\<lambda>d. EExecute d sql)"
  "conn_sender (\<lambda>p. csqlgo_conn_set_database S p name) (\<lambda>d. ESetDatabase d name)"
  "conn_sender (csqlgo_conn_begin S) EBegin" "conn_sender (csqlgo_conn_commit S) ECommit"
  "conn_sender (csqlgo_conn_rollback S) ERollback"
  by (rule conn_senderI, simp_all add: csqlgo_conn_execute_def csqlgo_conn_set_database_def csqlgo_conn_begin_def
      csqlgo_conn_commit_def csqlgo_conn_rollback_def)+

text \<open>The body of a call on an open connection, up to the mutex.\<close>

lemma open_conn_wire:
  assumes "\<And>v p. cwire v = cwire w \<Longrightarrow> conn_ptr (gconns v a) = Some p \<Longrightarrow>
      wp (body a (Some p)) (\<lambda>r v'. \<forall>u. cwire u = cwire v' \<longrightarrow> Q r u) v"
    and "\<And>e u. cwire u = cwire w \<Longrightarrow> Q (Inl e) u"
  shows "wp (with_open_conn (Some a) body) Q w"
  unfolding with_open_conn_def option.case cs_locked_def wp_bind
proof (rule silent_step [OF silent_locks(1)], unfold wp_bind wp_basic, goal_cases)
  case (1 r v)
  show ?case
  proof (cases "conn_ptr (gconns v a)")
    case None
    then show ?thesis
      using 1 assms(2) by (simp add: wp_basic) (rule silent_step [OF silent_locks(2)], simp)
  next
    case (Some p)
    show ?thesis
      using Some assms(1) [OF 1 Some]
      by simp (erule wp_mono, rule silent_step [OF silent_locks(2)], simp)
  qed
qed

lemma csConn_call_wire:
  assumes "conn_sender f E"
  shows "wp (csConn_call S (Some a) f) (\<lambda>r w'. sends (db_at (cwire w) a) E (isl r) (cwire w) (cwire w')) w"
  unfolding csConn_call_def
proof (rule open_conn_wire)
  fix v p assume v: "cwire v = cwire w" "conn_ptr (gconns v a) = Some p"
  have d: "db_at (cwire w) a = db_at (nwire (native_of v)) p"
    unfolding v(1) [symmetric] using v(2) by (simp add: cwire_def through_def)
  have "wp (f (Some p)) (\<lambda>r n'. sends (db_at (cwire w) a) E (r \<noteq> 0) (nwire (native_of v)) (nwire n')) (native_of v)"
    using assms unfolding conn_sender_def d by blast
  then show "wp (do { result \<leftarrow> csN (f (Some p)); check_result S a result })
    (\<lambda>r v'. \<forall>u. cwire u = cwire v' \<longrightarrow> sends (db_at (cwire w) a) E (isl r) (cwire w) (cwire u)) v"
    unfolding wp_bind csN_def wp_zoom
    by (rule wp_mono) (rule wp_mono [OF check_result_wire], auto dest!: sends_cwire simp: v(1))
qed (simp add: sends_def)

section \<open>Bind graphs\<close>

text \<open>A row of the three arrays the SDK gets: type, size and buffer.\<close>

type_synonym bind_row = "int \<times> int \<times> string option"

definition graph_ok :: "csqlgo_bind \<Rightarrow> bool" where
  "graph_ok g \<longleftrightarrow> length (bind_types g) = nat (bind_count g) \<and> length (bind_sizes g) = nat (bind_count g) \<and>
     length (bind_values g) = nat (bind_count g) \<and> bind_count g < 2 ^ 31"

definition slot_row :: "int \<Rightarrow> int \<Rightarrow> string \<Rightarrow> bind_row" where
  "slot_row ty len bytes = (ty, len, if ty \<noteq> BIND_NULL then Some (bind_buffer ty len bytes) else None)"

text \<open>\<open>puts b i row x y\<close>: the call put \<open>row\<close> in slot \<open>i\<close> of the graph at \<open>b\<close> and sent nothing.\<close>

definition idle :: "wire \<Rightarrow> wire \<Rightarrow> bool" where
  "idle x y \<longleftrightarrow> sent y = sent x \<and> db_at y = db_at x"

definition puts :: "nat \<Rightarrow> int \<Rightarrow> bind_row \<Rightarrow> wire \<Rightarrow> wire \<Rightarrow> bool" where
  "puts b i row x y \<longleftrightarrow> idle x y \<and> (\<exists>g g'. graph_at x b = Some g \<and> graph_at y b = Some g' \<and>
     0 < i \<and> i \<le> bind_count g \<and> bind_count g' = bind_count g \<and> (graph_ok g \<longrightarrow> graph_ok g') \<and>
     bind_rows g' = (bind_rows g)[nat (i - 1) := row])"

lemma idle_simps [simp]: "idle x x" "idle x (x\<lparr>graph_at := f\<rparr>)"
  by (simp_all add: idle_def)

lemma idle_trans: "idle x y \<Longrightarrow> idle y z \<Longrightarrow> idle x z"
  by (simp add: idle_def)

lemma bind_set_puts:
  assumes "ty = BIND_NULL \<or> nat len \<le> length (case val of None \<Rightarrow> [] | Some v \<Rightarrow> v)"
  shows "wp (csqlgo_bind_set_bytes S (Some p) i val len ty)
    (\<lambda>r n'. if r = 0 then puts p i (slot_row ty len (case val of None \<Rightarrow> [] | Some v \<Rightarrow> v)) (nwire n) (nwire n')
            else idle (nwire n) (nwire n')) n"
proof -
  have put: "puts p i (ty, len, buf) x (x\<lparr>graph_at := (graph_at x)(p \<mapsto>
      g\<lparr>bind_values := (bind_values g)[nat (i - 1) := buf], bind_sizes := (bind_sizes g)[nat (i - 1) := len],
        bind_types := (bind_types g)[nat (i - 1) := ty]\<rparr>)\<rparr>)"
    if "graph_at x p = Some g" "0 < i" "i \<le> bind_count g" for x g buf
    using that by (auto simp: puts_def graph_ok_def bind_rows_def update_zip)
  have upd: "nwire (n\<lparr>c_binds := f\<rparr>) = (nwire n)\<lparr>graph_at := f\<rparr>" for n f
    by (simp add: nwire_def)
  show ?thesis
    unfolding csqlgo_bind_set_bytes_def with_bind_def Let_def
    using assms put [of "nwire n"]
    by (auto simp: wp_simps upd nwire_fields slot_row_def idle_def split: option.split)
qed

text \<open>A C function that puts one row into a graph, called through \<^verbatim>\<open>Bind.set\<close>.\<close>

definition bind_setter :: "(nat option \<Rightarrow> (native, int) state) \<Rightarrow> int \<Rightarrow> bind_row \<Rightarrow> bool" where
  "bind_setter f i row \<longleftrightarrow> (\<forall>p n. wp (f (Some p)) (\<lambda>r n'. if r = 0 then puts p i row (nwire n) (nwire n')
     else idle (nwire n) (nwire n')) n)"

lemma bind_setterI:
  assumes "\<And>p. f p = csqlgo_bind_set_bytes S p i val len ty"
    and "ty = BIND_NULL \<or> nat len \<le> length (case val of None \<Rightarrow> [] | Some v \<Rightarrow> v)"
    and "row = slot_row ty len (case val of None \<Rightarrow> [] | Some v \<Rightarrow> v)"
  shows "bind_setter f i row"
  unfolding bind_setter_def assms(1,3) using bind_set_puts [OF assms(2)] by blast

lemma bind_setter_refuse: "bind_setter (\<lambda>_. State_Monad.return (- 10000)) i row"
  by (simp add: bind_setter_def wp_simps)

lemma bind_setter_if: "(b \<Longrightarrow> bind_setter f i row) \<Longrightarrow> (\<not> b \<Longrightarrow> bind_setter g i row) \<Longrightarrow>
    bind_setter (\<lambda>p. if b then f p else g p) i row"
  by (cases b) simp_all

definition set_result :: "nat \<Rightarrow> int \<Rightarrow> bind_row \<Rightarrow> wire \<Rightarrow> 'e + unit \<Rightarrow> wire \<Rightarrow> bool" where
  "set_result b i row x r y \<longleftrightarrow> (case r of Inl _ \<Rightarrow> idle x y | Inr _ \<Rightarrow> puts b i row x y)"

lemma puts_cwire:
  assumes "puts p i row (nwire (native_of w)) (nwire n')" and "bind_ptr (gbinds w b) = Some p"
  shows "puts b i row (cwire w) (cwire (w\<lparr>native_of := n'\<rparr>))"
proof -
  have "graph_at (cwire v) b = graph_at (nwire (native_of v)) p" if "bind_ptr (gbinds v b) = Some p" for v
    using that by (simp add: cwire_def through_def)
  with assms show ?thesis by (auto simp: puts_def idle_def) (auto simp: cwire_def)
qed

lemma idle_cwire: "idle (nwire (native_of w)) (nwire n') \<Longrightarrow> idle (cwire w) (cwire (w\<lparr>native_of := n'\<rparr>))"
  by (simp add: idle_def cwire_def)

lemma acquire_wire:
  "wp (csN (acquire l)) (\<lambda>_ v. cwire v = cwire w \<and> nwire (native_of v) = nwire (native_of w) \<and> gconns v = gconns w) w"
  by (simp add: csN_def acquire_def wp_basic wp_zoom cwire_def nwire_def)

lemma open_bind_wire:
  assumes "\<And>v p. cwire v = cwire w \<Longrightarrow> nwire (native_of v) = nwire (native_of w) \<Longrightarrow> gconns v = gconns w \<Longrightarrow>
      bind_ptr (gbinds v b) = Some p \<Longrightarrow> wp (body (Some p)) (\<lambda>r v'. \<forall>u. cwire u = cwire v' \<longrightarrow> Q r u) v"
    and "\<And>e u. cwire u = cwire w \<Longrightarrow> Q (Inl e) u"
  shows "wp (with_open_bind (Some b) body) Q w"
  unfolding with_open_bind_def option.case cs_locked_def wp_bind
proof (rule wp_mono [OF acquire_wire], unfold wp_bind wp_basic, goal_cases)
  case (1 r v)
  show ?case
  proof (cases "bind_ptr (gbinds v b)")
    case None
    then show ?thesis
      using 1 assms(2) by (simp add: wp_basic) (rule silent_step [OF silent_locks(2)], simp)
  next
    case (Some p)
    have "wp (body (Some p)) (\<lambda>r v'. \<forall>u. cwire u = cwire v' \<longrightarrow> Q r u) v"
      using 1 Some by (intro assms(1)) simp_all
    with Some show ?thesis
      by simp (erule wp_mono, rule silent_step [OF silent_locks(2)], simp)
  qed
qed

lemma csBind_set_wire:
  assumes "bind_setter f i row"
  shows "wp (csBind_set (Some b) f) (\<lambda>r w'. set_result b i row (cwire w) r (cwire w')) w"
  unfolding csBind_set_def
proof (rule open_bind_wire)
  fix v p assume v: "cwire v = cwire w" "bind_ptr (gbinds v b) = Some p"
  have "wp (f (Some p)) (\<lambda>r n'. if r = 0 then puts p i row (nwire (native_of v)) (nwire n')
     else idle (nwire (native_of v)) (nwire n')) (native_of v)"
    using assms unfolding bind_setter_def by blast
  then show "wp (do { result \<leftarrow> csN (f (Some p)); (if result = - 10000 then throw CsInvalidArgument
        else if result \<noteq> 0 then throw (CsError result []) else ok ()) })
    (\<lambda>r v'. \<forall>u. cwire u = cwire v' \<longrightarrow> set_result b i row (cwire w) r (cwire u)) v"
    unfolding wp_bind csN_def wp_zoom v(1) [symmetric]
    by (rule wp_mono)
      (auto simp: wp_if wp_basic set_result_def dest: puts_cwire [OF _ v(2)] idle_cwire split: if_splits)
qed (simp add: set_result_def)

lemma refuse_wire:
  "wp (throw e) (\<lambda>r w'. set_result b i row (cwire w) r (cwire w')) w"
  "wp (csBind_unsupported (Some b)) (\<lambda>r w'. set_result b i row (cwire w) r (cwire w')) w"
  unfolding csBind_unsupported_def
  by (simp add: wp_basic set_result_def, rule open_bind_wire) (simp_all add: wp_basic set_result_def)

section \<open>The row of a value\<close>

text \<open>
  How a value reaches \<^verbatim>\<open>cubesql_bind\<close>: integers and floats as text, texts and BLOBs as their bytes, with the size
  in a C \<^verbatim>\<open>int\<close>.
\<close>

fun bind_row_of :: "sdk \<Rightarrow> any \<Rightarrow> bind_row" where
  "bind_row_of S (AInt64 i) = slot_row BIND_INT64 (int (length (show_int i))) (show_int i)"
| "bind_row_of S (AFloat64 x) = slot_row BIND_DOUBLE (int (length (fmt_g17 S x))) (fmt_g17 S x)"
| "bind_row_of S (AString s) = slot_row BIND_TEXT (c_int (int (length s))) s"
| "bind_row_of S (ABytes b) = slot_row BIND_BLOB (c_int (int (length (slice_bytes b)))) (slice_bytes b)"
| "bind_row_of S _ = slot_row BIND_NULL 0 []"

lemma bind_setters:
  "bind_setter (\<lambda>p. csqlgo_bind_set_int64 S p i v) i (bind_row_of S (AInt64 v))"
  "bind_setter (\<lambda>p. csqlgo_bind_set_double S p i x) i (bind_row_of S (AFloat64 x))"
  "bind_setter (\<lambda>p. csqlgo_bind_set_null S p i) i (bind_row_of S ANil)"
  "bind_setter (\<lambda>p. csqlgo_bind_set_text S p i (c_bytes s) (c_int (int (length s)))) i (bind_row_of S (AString s))"
  "bind_setter (\<lambda>p. csqlgo_bind_set_blob S p i (c_bytes s) (c_int (int (length s)))) i
     (slot_row BIND_BLOB (c_int (int (length s))) s)"
proof -
  have le: "nat (c_int (int (length s))) \<le> length (case c_bytes s of None \<Rightarrow> [] | Some v \<Rightarrow> v)"
    "(case c_bytes s of None \<Rightarrow> [] | Some v \<Rightarrow> v) = s"
    using c_int_le [of "int (length s)"] by (auto simp: c_bytes_def)
  show "bind_setter (\<lambda>p. csqlgo_bind_set_int64 S p i v) i (bind_row_of S (AInt64 v))"
    "bind_setter (\<lambda>p. csqlgo_bind_set_double S p i x) i (bind_row_of S (AFloat64 x))"
    unfolding csqlgo_bind_set_int64_def csqlgo_bind_set_double_def Let_def
    by (rule bind_setter_if, rule bind_setter_refuse, rule bind_setterI, rule refl, simp, simp)+
  show "bind_setter (\<lambda>p. csqlgo_bind_set_null S p i) i (bind_row_of S ANil)"
    unfolding csqlgo_bind_set_null_def by (rule bind_setterI, rule refl) simp_all
  show "bind_setter (\<lambda>p. csqlgo_bind_set_text S p i (c_bytes s) (c_int (int (length s)))) i (bind_row_of S (AString s))"
    unfolding csqlgo_bind_set_text_def by (rule bind_setterI, rule refl) (use le in simp_all)
  show "bind_setter (\<lambda>p. csqlgo_bind_set_blob S p i (c_bytes s) (c_int (int (length s)))) i
     (slot_row BIND_BLOB (c_int (int (length s))) s)"
    unfolding csqlgo_bind_set_blob_def
    by (rule bind_setter_if, rule bind_setter_refuse, rule bind_setterI, rule refl) (use le in simp_all)
qed

section \<open>Prepared statements\<close>

text \<open>How a value reaches \<^verbatim>\<open>cubesql_vmbind_*\<close>.\<close>

fun vm_value_of :: "any \<Rightarrow> vm_value" where
  "vm_value_of (AInt64 i) = VmInt64 i"
| "vm_value_of (AFloat64 x) = VmDouble x"
| "vm_value_of (AString s) = VmText (take (nat (c_int (int (length s)))) s)"
| "vm_value_of (ABytes b) = (if slice_bytes b = [] then VmZeroBlob 0
     else VmBlob (take (nat (c_int (int (length (slice_bytes b))))) (slice_bytes b)))"
| "vm_value_of (AZeroBlob n) = VmZeroBlob (c_int n)"
| "vm_value_of _ = VmNull"

definition stmt_sender :: "(nat option \<Rightarrow> (native, int) state) \<Rightarrow> (nat \<Rightarrow> event) \<Rightarrow> bool" where
  "stmt_sender f E \<longleftrightarrow> (\<forall>p n. wp (f (Some p)) (\<lambda>r n'. sends (vm_at (nwire n) p) E (r \<noteq> 0) (nwire n) (nwire n')) n)"

lemma stmt_sends:
  assumes "\<And>d. acts (E d)"
  shows "wp (with_stmt (Some p) (- 10000) (\<lambda>h _. vm_int S h (E h)))
    (\<lambda>r n'. sends (vm_at (nwire n) p) E (r \<noteq> 0) (nwire n) (nwire n')) n"
  unfolding with_stmt_def vm_int_def vm_call_def fail_ub_def
  using assms by (auto simp: wp_simps sends_def nwire_fields split: option.split)

lemma stmt_senderI:
  assumes "\<And>p. f p = with_stmt p (- 10000) (\<lambda>h _. vm_int S h (E h))" and "\<And>d. acts (E d)"
  shows "stmt_sender f E"
  unfolding stmt_sender_def assms(1) using stmt_sends [of E, OF assms(2)] by blast

lemma stmt_sender_refuse: "stmt_sender (\<lambda>p. with_stmt p (- 10000) (\<lambda>_ _. State_Monad.return (- 10000))) E"
  unfolding stmt_sender_def with_stmt_def fail_ub_def
  by (auto simp: wp_simps sends_def split: option.split)

lemma vm_bytes_take:
  assumes "nat len \<le> length s"
  shows "vm_bytes S h i con (c_bytes s) len = vm_int S h (EVmBind h i (con (take (nat len) s)))"
  using assms by (auto simp: vm_bytes_def c_bytes_def)

lemma stmt_senders:
  "stmt_sender (\<lambda>p. csqlgo_stmt_bind_int64 S p i v) (\<lambda>h. EVmBind h i (vm_value_of (AInt64 v)))"
  "stmt_sender (\<lambda>p. csqlgo_stmt_bind_double S p i x) (\<lambda>h. EVmBind h i (vm_value_of (AFloat64 x)))"
  "stmt_sender (\<lambda>p. csqlgo_stmt_bind_null S p i) (\<lambda>h. EVmBind h i (vm_value_of ANil))"
  "stmt_sender (\<lambda>p. csqlgo_stmt_bind_zeroblob S p i (c_int z)) (\<lambda>h. EVmBind h i (vm_value_of (AZeroBlob z)))"
  "stmt_sender (\<lambda>p. csqlgo_stmt_bind_text S p i (c_bytes s) (c_int (int (length s))))
     (\<lambda>h. EVmBind h i (vm_value_of (AString s)))"
  "s \<noteq> [] \<Longrightarrow> stmt_sender (\<lambda>p. csqlgo_stmt_bind_blob S p i (c_bytes s) (c_int (int (length s))))
     (\<lambda>h. EVmBind h i (VmBlob (take (nat (c_int (int (length s)))) s)))"
  "stmt_sender (csqlgo_stmt_execute S) EVmExecute"
proof -
  show "stmt_sender (\<lambda>p. csqlgo_stmt_bind_int64 S p i v) (\<lambda>h. EVmBind h i (vm_value_of (AInt64 v)))"
    "stmt_sender (\<lambda>p. csqlgo_stmt_bind_double S p i x) (\<lambda>h. EVmBind h i (vm_value_of (AFloat64 x)))"
    "stmt_sender (\<lambda>p. csqlgo_stmt_bind_null S p i) (\<lambda>h. EVmBind h i (vm_value_of ANil))"
    "stmt_sender (csqlgo_stmt_execute S) EVmExecute"
    by (rule stmt_senderI, simp_all add: csqlgo_stmt_bind_int64_def csqlgo_stmt_bind_double_def csqlgo_stmt_bind_null_def
        csqlgo_stmt_execute_def)+
  let ?n = "c_int (int (length s))"
  have le: "nat ?n \<le> length s" using c_int_le [of "int (length s)"] by simp
  show "stmt_sender (\<lambda>p. csqlgo_stmt_bind_zeroblob S p i (c_int z)) (\<lambda>h. EVmBind h i (vm_value_of (AZeroBlob z)))"
    by (cases "c_int z < 0")
      (auto intro!: stmt_senderI stmt_sender_refuse simp: csqlgo_stmt_bind_zeroblob_def)
  show "stmt_sender (\<lambda>p. csqlgo_stmt_bind_text S p i (c_bytes s) ?n) (\<lambda>h. EVmBind h i (vm_value_of (AString s)))"
    by (cases "?n < 0")
      (auto intro!: stmt_senderI stmt_sender_refuse simp: csqlgo_stmt_bind_text_def vm_bytes_take [OF le])
  show "stmt_sender (\<lambda>p. csqlgo_stmt_bind_blob S p i (c_bytes s) ?n) (\<lambda>h. EVmBind h i (VmBlob (take (nat ?n) s)))"
    if "s \<noteq> []"
  proof -
    have "(c_bytes s = None \<or> ?n \<le> 0) = (?n \<le> 0)" using that by (simp add: c_bytes_def)
    then have "csqlgo_stmt_bind_blob S p i (c_bytes s) ?n = (if ?n \<le> 0
        then with_stmt p (- 10000) (\<lambda>_ _. State_Monad.return (- 10000))
        else with_stmt p (- 10000) (\<lambda>h _. vm_int S h (EVmBind h i (VmBlob (take (nat ?n) s)))))" for p
      by (simp only: csqlgo_stmt_bind_blob_def vm_bytes_take [OF le]) simp
    then show ?thesis
      by (cases "?n \<le> 0") (simp_all add: stmt_sender_refuse stmt_senderI)
  qed
qed

lemma open_stmt_wire:
  assumes "\<And>v a p. cwire v = cwire w \<Longrightarrow> stmt_ptr (gstmts v s) = Some p \<Longrightarrow>
      wp (body a (Some p)) (\<lambda>r v'. \<forall>u. cwire u = cwire v' \<longrightarrow> Q r u) v"
    and "\<And>e u. cwire u = cwire w \<Longrightarrow> Q (Inl e) u"
  shows "wp (with_open_stmt (Some s) body) Q w"
proof (cases "stmt_conn (gstmts w s)")
  case None
  then show ?thesis using assms(2) by (simp add: with_open_stmt_def wp_bind wp_basic)
next
  case (Some a)
  show ?thesis
    unfolding with_open_stmt_def option.case cs_locked_def wp_bind wp_basic Some
  proof (rule silent_step [OF silent_locks(1)], goal_cases)
    case (1 r v)
    show ?case
    proof (cases "stmt_ptr (gstmts v s) = None \<or> conn_ptr (gconns v a) = None")
      case True
      then show ?thesis
        using 1 assms(2) by (simp add: wp_basic) (rule silent_step [OF silent_locks(2)], simp)
    next
      case False
      then obtain p where p: "stmt_ptr (gstmts v s) = Some p" by auto
      from False show ?thesis
        using assms(1) [OF 1 p, of a] p
        by clarsimp (erule wp_mono, rule silent_step [OF silent_locks(2)], simp)
    qed
  qed
qed

text \<open>A call on a statement that sends one event of its VM.\<close>

definition stmt_call_sends :: "nat \<Rightarrow> (csdk, gerror + unit) state \<Rightarrow> (nat \<Rightarrow> event) \<Rightarrow> bool" where
  "stmt_call_sends s m E \<longleftrightarrow> (\<forall>w. wp m (\<lambda>r w'. sends (vm_at (cwire w) s) E (isl r) (cwire w) (cwire w')) w)"

lemma csStmt_call_wire:
  assumes "stmt_sender f E"
  shows "stmt_call_sends s (csStmt_call S (Some s) f) E"
  unfolding stmt_call_sends_def csStmt_call_def
proof (rule allI, rule open_stmt_wire)
  fix w v a p assume v: "cwire v = cwire w" "stmt_ptr (gstmts v s) = Some p"
  have d: "vm_at (cwire w) s = vm_at (nwire (native_of v)) p"
    unfolding v(1) [symmetric] using v(2) by (simp add: cwire_def through_def)
  have "wp (f (Some p)) (\<lambda>r n'. sends (vm_at (cwire w) s) E (r \<noteq> 0) (nwire (native_of v)) (nwire n')) (native_of v)"
    using assms unfolding stmt_sender_def d by blast
  then show "wp (do { result \<leftarrow> csN (f (Some p)); check_result S a result })
    (\<lambda>r v'. \<forall>u. cwire u = cwire v' \<longrightarrow> sends (vm_at (cwire w) s) E (isl r) (cwire w) (cwire u)) v"
    unfolding wp_bind csN_def wp_zoom
    by (rule wp_mono) (rule wp_mono [OF check_result_wire], auto dest!: sends_cwire simp: v(1))
qed (simp add: sends_def)

lemma stmt_call_sends_control:
  "stmt_call_sends s (throw e) E"
  "(b \<Longrightarrow> stmt_call_sends s m E) \<Longrightarrow> (\<not> b \<Longrightarrow> stmt_call_sends s m' E) \<Longrightarrow> stmt_call_sends s (if b then m else m') E"
  by (simp_all add: stmt_call_sends_def wp_basic sends_def)

lemma csStmt_wires:
  "stmt_call_sends s (csStmt_BindNull S (Some s) i) (\<lambda>h. EVmBind h (c_int i) (vm_value_of ANil))"
  "stmt_call_sends s (csStmt_BindInt64 S (Some s) i k) (\<lambda>h. EVmBind h (c_int i) (vm_value_of (AInt64 k)))"
  "stmt_call_sends s (csStmt_BindDouble S (Some s) i x) (\<lambda>h. EVmBind h (c_int i) (vm_value_of (AFloat64 x)))"
  "stmt_call_sends s (csStmt_BindText S (Some s) i v) (\<lambda>h. EVmBind h (c_int i) (vm_value_of (AString v)))"
  "stmt_call_sends s (csStmt_BindZeroBlob S (Some s) i z) (\<lambda>h. EVmBind h (c_int i) (vm_value_of (AZeroBlob z)))"
  "stmt_call_sends s (csStmt_Exec S (Some s)) EVmExecute"
  unfolding csStmt_BindNull_def csStmt_BindInt64_def csStmt_BindDouble_def csStmt_BindText_def csStmt_BindZeroBlob_def
    csStmt_bindBytes_def csStmt_Exec_def
  by (intro stmt_call_sends_control csStmt_call_wire stmt_senders)+

lemma csStmt_BindBlob_wire:
  "b \<noteq> [] \<Longrightarrow> stmt_call_sends s (csStmt_BindBlob S (Some s) i b)
     (\<lambda>h. EVmBind h (c_int i) (VmBlob (take (nat (c_int (int (length b)))) b)))"
  unfolding csStmt_BindBlob_def csStmt_bindBytes_def
  by (auto simp: stmt_call_sends_control intro!: csStmt_call_wire stmt_senders)

end
