(* ===== verification/Cube_Wire_Exec.thy ===== *)
theory Cube_Wire_Exec
  imports Cube_Wire "HOL-Library.Sublist"
begin

text \<open>
  What \<^verbatim>\<open>Exec\<close> and the session calls of the public package send: the statement and its arguments, once,
  unchanged and in order.
\<close>

section \<open>The wire of the public package\<close>

definition cowire :: "core \<Rightarrow> wire" where
  "cowire w = cwire (csdk_of w)"

lemma wp_coC_wire:
  assumes "wp m (\<lambda>r v. P r (cwire v)) (csdk_of w)"
    and "\<And>r v. P r (cowire v) \<Longrightarrow> conns v = conns w \<Longrightarrow> Q r v"
  shows "wp (coC m) Q w"
  unfolding coC_def wp_zoom by (rule wp_mono [OF assms(1)], rule assms(2)) (simp_all add: cowire_def)

lemma wp_coE_wire:
  assumes "wp m (\<lambda>r v. P (case r of Inl e \<Rightarrow> Inl (publicError e) | Inr x \<Rightarrow> Inr x) (cwire v)) (csdk_of w)"
    and "\<And>r v. P r (cowire v) \<Longrightarrow> conns v = conns w \<Longrightarrow> Q r v"
  shows "wp (coE m) Q w"
  unfolding coE_def wp_mapE by (rule wp_coC_wire [OF assms(1)]) (rule assms(2))

lemma wp_coE_silent:
  assumes "silent m" and "\<And>r v. cowire v = cowire w \<Longrightarrow> conns v = conns w \<Longrightarrow> Q r v"
  shows "wp (coE m) Q w"
  by (rule wp_coE_wire [where P = "\<lambda>_ x. x = cowire w"])
    (use assms in \<open>auto intro: silent_step simp: cowire_def\<close>)

lemma wp_coC_silent:
  assumes "silent m" and "\<And>r v. cowire v = cowire w \<Longrightarrow> conns v = conns w \<Longrightarrow> Q r v"
  shows "wp (coC m) Q w"
  by (rule wp_coC_wire [where P = "\<lambda>_ x. x = cowire w"])
    (use assms in \<open>auto intro: silent_step simp: cowire_def\<close>)

lemma wp_contextError_wire:
  assumes "\<And>r v. cowire v = cowire w \<Longrightarrow> conns v = conns w \<Longrightarrow> Q r v"
  shows "wp (contextError ctx) Q w"
proof -
  have "silent (csN (modify (\<lambda>n. n\<lparr>clock := Suc (clock n)\<rparr>)))"
    by (intro silent_csN nquiet_modify) (simp add: nwire_def)
  then have tick: "wp tick_clock (\<lambda>_ v. cowire v = cowire w \<and> conns v = conns w) w"
    unfolding tick_clock_def wp_bind wp_basic by (rule wp_coC_silent) simp
  show ?thesis
    unfolding contextError_def
    using assms by (cases ctx) (auto simp: wp_bind wp_basic wp_if intro!: wp_mono [OF tick])
qed

lemma wp_result_wire:
  assumes "\<And>r v. cowire v = cowire w \<Longrightarrow> conns v = conns w \<Longrightarrow> Q r v"
  shows "wp (resultForContext S ctx native) Q w"
  unfolding resultForContext_def wp_bind
  by (rule wp_contextError_wire, auto simp: wp_bind wp_basic assms split: sum.split
      intro!: wp_coE_silent [OF silent_metrics(1)] wp_contextError_wire wp_coE_silent [OF silent_metrics(2)])

section \<open>Building a bind graph\<close>

lemma wp_ifI: "(b \<Longrightarrow> wp m Q w) \<Longrightarrow> (\<not> b \<Longrightarrow> wp n Q w) \<Longrightarrow> wp (if b then m else n) Q w"
  by simp

lemma csBind_wires:
  "wp (csBind_SetNull S (Some b) i) (\<lambda>r w'. set_result b (c_int i) (bind_row_of S ANil) (cwire w) r (cwire w')) w"
  "wp (csBind_SetInt64 S (Some b) i k) (\<lambda>r w'. set_result b (c_int i) (bind_row_of S (AInt64 k)) (cwire w) r (cwire w')) w"
  "wp (csBind_SetDouble S (Some b) i x) (\<lambda>r w'. set_result b (c_int i) (bind_row_of S (AFloat64 x)) (cwire w) r (cwire w')) w"
  "wp (csBind_SetText S (Some b) i s) (\<lambda>r w'. set_result b (c_int i) (bind_row_of S (AString s)) (cwire w) r (cwire w')) w"
  "wp (csBind_SetBlob S (Some b) i s)
     (\<lambda>r w'. set_result b (c_int i) (slot_row BIND_BLOB (c_int (int (length s))) s) (cwire w) r (cwire w')) w"
  "wp (csBind_SetZeroBlob (Some b) i z) (\<lambda>r w'. set_result b j row (cwire w) r (cwire w')) w"
  unfolding csBind_SetNull_def csBind_SetInt64_def csBind_SetDouble_def csBind_SetText_def csBind_SetBlob_def
    csBind_SetZeroBlob_def csBind_setBytes_def
  by (intro wp_ifI refuse_wire csBind_set_wire bind_setters)+

lemma setOneShot_wire:
  "wp (setOneShot S (Some b) i v) (\<lambda>r w'. set_result b (c_int i) (bind_row_of S v) (cowire w) r (cowire w')) w"
proof -
  have call: "wp (coE m) (\<lambda>r w'. set_result b j row (cowire w) r (cowire w')) w"
    if "wp m (\<lambda>r w'. set_result b j row (cwire (csdk_of w)) r (cwire w')) (csdk_of w)" for m j row
    by (rule wp_coE_wire [where P = "\<lambda>r x. set_result b j row (cowire w) r x", OF wp_mono [OF that]])
      (auto simp: set_result_def cowire_def split: sum.splits)
  have no: "wp (throw e) (\<lambda>r w'. set_result b j row (cowire w) r (cowire w')) w" for e j row
    by (simp add: wp_basic set_result_def)
  have blob: "bind_row_of S (ABytes c) = slot_row BIND_BLOB (c_int (int (length (slice_bytes c)))) (slice_bytes c)" for c
    by simp
  show ?thesis
    unfolding setOneShot_def by (cases v; simp only: any.case blob) (intro call csBind_wires no)+
qed

text \<open>A loop that has handled the arguments \<open>bef\<close>.\<close>

lemma wp_eachE_prefix:
  assumes "P bef s" and "bef @ xs = all"
    and step: "\<And>bef x aft t. P bef t \<Longrightarrow> bef @ x # aft = all \<Longrightarrow>
      wp (f (length bef) x) (\<lambda>r t'. case r of Inl _ \<Rightarrow> E t' | Inr _ \<Rightarrow> P (bef @ [x]) t') t"
  shows "wp (eachE f (length bef) xs) (\<lambda>r t. case r of Inl _ \<Rightarrow> E t | Inr _ \<Rightarrow> P all t) s"
  using assms(1,2)
proof (induction xs arbitrary: bef s)
  case Nil
  then show ?case by (simp add: wp_basic)
next
  case (Cons x xs)
  have IH: "wp (eachE f (Suc (length bef)) xs) (\<lambda>r t. case r of Inl _ \<Rightarrow> E t | Inr _ \<Rightarrow> P all t) t"
    if "P (bef @ [x]) t" for t
    using Cons.IH [OF that] Cons.prems(2) by (simp only: length_append_singleton append_assoc append_Cons append_Nil)
  show ?case
    unfolding eachE.simps wp_tryE
  proof (rule wp_mono [OF step [OF Cons.prems]], goal_cases)
    case (1 r t)
    then show ?case using IH by (cases r) simp_all
  qed
qed

definition graph_done :: "sdk \<Rightarrow> nat \<Rightarrow> int \<Rightarrow> wire \<Rightarrow> any list \<Rightarrow> wire \<Rightarrow> bool" where
  "graph_done S b n x args y \<longleftrightarrow> idle x y \<and> int (length args) \<le> n \<and> (\<exists>g. graph_at y b = Some g \<and> graph_ok g \<and>
     bind_count g = n \<and> take (length args) (bind_rows g) = map (bind_row_of S) args)"

lemma graph_done_step:
  assumes "graph_done S b n x args y" and "puts b (c_int (int (length args) + 1)) (bind_row_of S v) y z"
  shows "graph_done S b n x (args @ [v]) z"
proof -
  let ?k = "length args" and ?i = "c_int (int (length args) + 1)"
  obtain g where g: "graph_at y b = Some g" "graph_ok g" "bind_count g = n" "int ?k \<le> n"
      "take ?k (bind_rows g) = map (bind_row_of S) args" and xy: "idle x y"
    using assms(1) by (auto simp: graph_done_def)
  then obtain g' where g': "graph_at z b = Some g'" "0 < ?i" "?i \<le> n" "bind_count g' = n" "graph_ok g'"
      "bind_rows g' = (bind_rows g)[nat (?i - 1) := bind_row_of S v]" and yz: "idle y z"
    using assms(2) by (auto simp: puts_def)
  have n: "n < 2 ^ 31" using g(2,3) by (simp add: graph_ok_def)
  have i: "?i = int ?k + 1"
  proof (cases "int ?k + 1 < 2 ^ 31")
    case False
    then have "int ?k + 1 = 2 ^ 31" using n g(4) by simp
    then have "?i = c_int (2 ^ 31)" by simp
    also have "\<dots> < 0" by code_simp
    finally show ?thesis using g'(2) by simp
  qed (simp add: c_int_id)
  have len: "length (bind_rows g) = nat n"
    using g(2,3) by (simp add: graph_ok_def bind_rows_def)
  have "take (Suc ?k) (bind_rows g') = map (bind_row_of S) (args @ [v])"
    using g'(3,6) i g(5) len by (simp add: take_Suc_conv_app_nth)
  with g' i xy yz show ?thesis by (auto simp: graph_done_def intro: idle_trans)
qed

lemma bind_one_shot_wire:
  assumes "graph_done S b n x [] (cowire w)"
  shows "wp (bind_one_shot S ctx (Some b) args)
    (\<lambda>r w'. case r of Inl _ \<Rightarrow> idle x (cowire w') | Inr _ \<Rightarrow> graph_done S b n x args (cowire w')) w"
proof -
  let ?f = "\<lambda>index v. tryE (contextError ctx) (\<lambda>_. setOneShot S (Some b) (int index + 1) v)"
  have "wp (?f (length bef) v) (\<lambda>r w'. case r of Inl _ \<Rightarrow> idle x (cowire w')
      | Inr _ \<Rightarrow> graph_done S b n x (bef @ [v]) (cowire w')) u"
    if u: "graph_done S b n x bef (cowire u)" for bef v u
    unfolding wp_tryE
  proof (rule wp_contextError_wire, goal_cases)
    case (1 r w')
    note w' = 1(1)
    have idle: "idle x (cowire w')" using u w' by (simp add: graph_done_def)
    have set: "wp (setOneShot S (Some b) (int (length bef) + 1) v) (\<lambda>r w'. case r of Inl _ \<Rightarrow> idle x (cowire w')
      | Inr _ \<Rightarrow> graph_done S b n x (bef @ [v]) (cowire w')) w'"
    proof (rule wp_mono [OF setOneShot_wire], goal_cases)
      case (1 q z)
      then show ?case
        using u w' idle idle_trans graph_done_step by (cases q) (auto simp: set_result_def)
    qed
    show ?case using idle set by (cases r) simp_all
  qed
  from wp_eachE_prefix [where P = "\<lambda>bef w. graph_done S b n x bef (cowire w)" and f = ?f and bef = "[]"
      and E = "\<lambda>w'. idle x (cowire w')", OF assms append_Nil this]
  show ?thesis unfolding bind_one_shot_def list.size .
qed

section \<open>Sending a bind graph\<close>

lemma NewBind_wire:
  "wp (cs_NewBind S k) (\<lambda>r y. idle (cwire w) (cwire y) \<and>
     (case r of Inl _ \<Rightarrow> True | Inr b \<Rightarrow> 0 < c_int k \<and> (\<exists>g. graph_at (cwire y) b = Some g \<and> graph_ok g \<and> bind_count g = c_int k))) w"
proof -
  have n: "wp (csqlgo_bind_new S (c_int k)) (\<lambda>p n'. sent (nwire n') = sent (nwire n) \<and> db_at (nwire n') = db_at (nwire n) \<and>
      (case p of None \<Rightarrow> True | Some p \<Rightarrow> 0 < c_int k \<and> (\<exists>g. c_binds n' p = Some g \<and> graph_ok g \<and> bind_count g = c_int k))) n" for n
    unfolding csqlgo_bind_new_def csqlgo_bind_close_def with_bind_def new_addr_def
    using c_int_range [of k] by (auto simp: wp_simps nwire_def tick_def graph_ok_def fun_eq_iff split: option.split)
  show ?thesis
    unfolding cs_NewBind_def csN_def wp_bind wp_if wp_zoom
    by (auto simp: wp_basic idle_def intro!: wp_mono [OF n])
      (auto simp: wp_simps cs_new_def set_bind_def cwire_def through_def nwire_fields split: option.splits)
qed

lemma execute_bind_sends:
  assumes "c_binds n q = Some g"
  shows "wp (csqlgo_conn_execute_bind S (Some p) sql (Some q))
    (\<lambda>r n'. sends (db_at (nwire n) p) (\<lambda>d. EBind d sql (bind_rows g)) (r \<noteq> 0) (nwire n) (nwire n')) n"
  unfolding csqlgo_conn_execute_bind_def with_conn_def with_bind_def db_int_def db_call_def fail_ub_def
  using assms by (auto simp: wp_simps sends_def nwire_fields split: option.split)

lemma ExecBind_wire:
  assumes "graph_at (cwire w) b = Some g"
  shows "wp (csConn_ExecBind S (Some a) sql (Some b))
    (\<lambda>r w'. sends (db_at (cwire w) a) (\<lambda>d. EBind d (c_string sql) (bind_rows g)) (isl r) (cwire w) (cwire w')) w"
  unfolding csConn_ExecBind_def
proof (rule wp_ifI, simp add: wp_basic sends_def, rule open_conn_wire, rule open_bind_wire, goal_cases)
  case (1 v p u q)
  have d: "db_at (cwire w) a = db_at (nwire (native_of u)) p"
    unfolding 1(2) [symmetric] 1(5) using 1(3) by (simp add: cwire_def through_def)
  have u: "cwire u = cwire w" using 1(2,4) by simp
  have "graph_at (cwire u) b = c_binds (native_of u) q" using 1(7) by (simp add: cwire_def through_def nwire_fields)
  then have "c_binds (native_of u) q = Some g" using assms by (simp add: u)
  from execute_bind_sends [OF this, of S p "c_string sql", folded d] show ?case
    unfolding wp_bind csN_def wp_zoom u [symmetric]
    by (rule wp_mono) (rule wp_mono [OF check_result_wire], auto dest!: sends_cwire)
qed (simp_all add: sends_def)

section \<open>Binding a prepared statement\<close>

lemma cwire_upd:
  "cwire (w\<lparr>gconns := (gconns w)(a := (gconns w a)\<lparr>conn_children := k\<rparr>)\<rparr>) = cwire w"
  "cwire (w\<lparr>gnext := m\<rparr>) = cwire w"
  "sent (cwire (w\<lparr>gstmts := f\<rparr>)) = sent (cwire w)" "db_at (cwire (w\<lparr>gstmts := f\<rparr>)) = db_at (cwire w)"
proof -
  have "(\<lambda>x. conn_ptr (((gconns w)(a := (gconns w a)\<lparr>conn_children := k\<rparr>)) x)) = (\<lambda>x. conn_ptr (gconns w x))"
    by auto
  then show "cwire (w\<lparr>gconns := (gconns w)(a := (gconns w a)\<lparr>conn_children := k\<rparr>)\<rparr>) = cwire w"
    by (simp add: cwire_def)
qed (simp_all add: cwire_def)

lemma new_stmt_wire:
  "wp (do { _ \<leftarrow> add_children a 1; s \<leftarrow> cs_new; _ \<leftarrow> set_stmt s \<lparr>stmt_conn = Some a, stmt_ptr = Some q\<rparr>; ok s })
     (\<lambda>r y. \<exists>s. r = Inr s \<and> sent (cwire y) = sent (cwire w) \<and> db_at (cwire y) = db_at (cwire w) \<and>
        vm_at (cwire y) s = vm_at (nwire (native_of w)) q) w"
proof -
  have "vm_at (cwire (w\<lparr>gconns := g, gnext := m, gstmts := (gstmts w)(s := \<lparr>stmt_conn = Some a, stmt_ptr = Some q\<rparr>)\<rparr>)) s
      = vm_at (nwire (native_of w)) q" for g m s
    by (simp add: cwire_def through_def)
  then show ?thesis
    by (simp add: add_children_def cs_new_def set_stmt_def wp_bind wp_basic cwire_upd)
qed

lemma check_result_exact:
  "wp (check_result S a r) (\<lambda>x v. if r = 0 then x = Inr () \<and> v = w else isl x \<and> cwire v = cwire w) w"
proof -
  have "wp (nativeErrorLocked S a r) (\<lambda>_ v. cwire v = cwire w) w" for w
    by (rule silent_step [OF silent_error(1)])
  then show ?thesis by (auto simp: check_result_def wp_simps)
qed

lemma Prepare_wire:
  "wp (csConn_Prepare S (Some a) sql) (\<lambda>r y. db_at (cwire y) = db_at (cwire w) \<and>
     (case r of Inl _ \<Rightarrow> sent (cwire y) = sent (cwire w) \<or>
          (\<exists>d. db_at (cwire w) a = Some d \<and> sent (cwire y) = EVmPrepare d (c_string sql) # sent (cwire w))
      | Inr s \<Rightarrow> \<exists>d v. db_at (cwire w) a = Some d \<and> vm_at (cwire y) s = Some v \<and>
          sent (cwire y) = EVmPrepare d (c_string sql) # sent (cwire w))) w"
proof -
  have n: "wp (csqlgo_conn_prepare S (Some p) s) (\<lambda>r n'. db_at (nwire n') = db_at (nwire n) \<and>
      (sent (nwire n') = sent (nwire n) \<and> fst r \<noteq> 0 \<or>
       (\<exists>d. db_at (nwire n) p = Some d \<and> sent (nwire n') = EVmPrepare d s # sent (nwire n) \<and>
         (fst r = 0 \<longrightarrow> (\<exists>q v. snd r = Some q \<and> vm_at (nwire n') q = Some v))))) n" for p s n
    unfolding csqlgo_conn_prepare_def with_conn_def fail_ub_def db_int_def db_call_def sdk_vmclose_def vm_call_def new_addr_def
    by (auto simp: wp_simps nwire_def tick_def split: option.split)
  show ?thesis
    unfolding csConn_Prepare_def
  proof (rule wp_ifI, simp add: wp_basic, rule open_conn_wire, goal_cases)
    case (1 v p)
    have d: "db_at (cwire w) a = db_at (nwire (native_of v)) p"
      unfolding 1(2) [symmetric] using 1(3) by (simp add: cwire_def through_def)
    show ?case
      unfolding wp_bind csN_def wp_zoom 1(2) [symmetric] wp_tryE
    proof (rule wp_mono [OF n], rule wp_mono [OF check_result_exact], goal_cases)
      case (1 r n' x y)
      have same: "db_at (cwire (v\<lparr>native_of := n'\<rparr>)) = db_at (cwire v)" "sent (cwire (v\<lparr>native_of := n'\<rparr>)) = sent (nwire n')"
        "sent (cwire v) = sent (nwire (native_of v))"
        using 1 by (simp_all add: cwire_def)
      show ?case
      proof (cases "fst r = 0")
        case True
        then obtain q u k where q: "snd r = Some q" "vm_at (nwire n') q = Some u" "db_at (nwire (native_of v)) p = Some k"
            "sent (nwire n') = EVmPrepare k (c_string sql) # sent (nwire (native_of v))"
          using 1(1) by auto
        have "db_at (cwire v) a = Some k" using d q(3) \<open>cwire v = cwire w\<close> by simp
        moreover have "x = Inr ()" "y = v\<lparr>native_of := n'\<rparr>" using 1(2) True by simp_all
        moreover have "wp (do { _ \<leftarrow> add_children a 1; s \<leftarrow> cs_new; _ \<leftarrow> set_stmt s \<lparr>stmt_conn = Some a, stmt_ptr = Some q\<rparr>; ok s })
          (\<lambda>r v'. \<forall>u. cwire u = cwire v' \<longrightarrow> db_at (cwire u) = db_at (cwire v) \<and>
             (case r of Inl _ \<Rightarrow> sent (cwire u) = sent (cwire v) \<or>
                (\<exists>d. db_at (cwire v) a = Some d \<and> sent (cwire u) = EVmPrepare d (c_string sql) # sent (cwire v))
              | Inr s \<Rightarrow> \<exists>d u'. db_at (cwire v) a = Some d \<and> vm_at (cwire u) s = Some u' \<and>
                sent (cwire u) = EVmPrepare d (c_string sql) # sent (cwire v))) (v\<lparr>native_of := n'\<rparr>)"
          by (rule wp_mono [OF new_stmt_wire]) (use calculation(1) q same in auto)
        ultimately show ?thesis by (simp add: q(1) wp_bind)
      next
        case False
        then show ?thesis using 1 same d \<open>cwire v = cwire w\<close> by (cases x) auto
      qed
    qed
  qed simp_all
qed

text \<open>Closing a handle sends nothing that acts on the session.\<close>

lemma idle_csN:
  assumes "\<And>n. wp m (\<lambda>_ n'. idle (nwire n) (nwire n')) n"
  shows "stays (\<lambda>y. idle x (cwire y)) (csN m)"
  unfolding stays_def csN_def wp_zoom
  by (intro allI impI, rule wp_mono [OF assms]) (auto simp: idle_def cwire_def)

lemma idle_silent: "silent m \<Longrightarrow> stays (\<lambda>y. idle x (cwire y)) m"
  by (auto simp: stays_def intro: silent_step)

lemma idle_upd:
  "stays (\<lambda>y. idle x (cwire y)) (set_stmt s c)" "stays (\<lambda>y. idle x (cwire y)) (set_bind b g)"
  "stays (\<lambda>y. idle x (cwire y)) (add_children a k)"
  by (simp_all add: stays_def set_stmt_def set_bind_def add_children_def wp_basic idle_def cwire_upd)
    (simp add: cwire_def)

lemma idle_bridge:
  "wp (csqlgo_stmt_close S p) (\<lambda>_ n'. idle (nwire n) (nwire n')) n"
  "wp (csqlgo_bind_close p) (\<lambda>_ n'. idle (nwire n) (nwire n')) n"
  unfolding csqlgo_stmt_close_def with_stmt_def fail_ub_def sdk_vmclose_def vm_call_def csqlgo_bind_close_def with_bind_def
  by (auto simp: wp_simps idle_def nwire_def tick_def split: option.split)

lemma close_idle:
  "wp (csStmt_Close S st) (\<lambda>_ y. idle (cwire w) (cwire y)) w" "wp (csBind_Close bnd) (\<lambda>_ y. idle (cwire w) (cwire y)) w"
proof -
  have "stays (\<lambda>y. idle (cwire w) (cwire y)) (csStmt_Close S st)" "stays (\<lambda>y. idle (cwire w) (cwire y)) (csBind_Close bnd)"
    unfolding csStmt_Close_def csBind_Close_def cs_locked_def
    by (intro stays_control idle_csN idle_bridge idle_upd idle_silent silent_error silent_locks)+
  then show "wp (csStmt_Close S st) (\<lambda>_ y. idle (cwire w) (cwire y)) w"
    "wp (csBind_Close bnd) (\<lambda>_ y. idle (cwire w) (cwire y)) w"
    by (simp_all add: stays_def)
qed

definition vm_events :: "nat \<Rightarrow> any list \<Rightarrow> event list" where
  "vm_events v args = rev (map (\<lambda>(k, a). EVmBind v (c_int (int k + 1)) (vm_value_of a)) (enumerate 0 args))"

lemma vm_events_snoc: "vm_events v (args @ [a]) = EVmBind v (c_int (int (length args) + 1)) (vm_value_of a) # vm_events v args"
  by (simp add: vm_events_def enumerate_append_eq)

lemma vm_events_suffix: "suffix (vm_events v xs) (vm_events v (xs @ ys))"
  by (auto simp: vm_events_def enumerate_append_eq suffix_def)

lemma setPrepared_wire:
  "wp (setPrepared S (Some st) i v) (\<lambda>r w'. sends (vm_at (cowire w) st) (\<lambda>h. EVmBind h (c_int i) (vm_value_of v)) (isl r)
     (cowire w) (cowire w')) w"
proof -
  have call: "wp (coE m) (\<lambda>r w'. sends (vm_at (cowire w) st) E (isl r) (cowire w) (cowire w')) w"
    if "stmt_call_sends st m E" for m E
    by (rule wp_coE_wire [where P = "\<lambda>r x. sends (vm_at (cowire w) st) E (isl r) (cowire w) x"],
        rule wp_mono [OF that [unfolded stmt_call_sends_def, rule_format]])
      (auto simp: cowire_def split: sum.splits)
  have no: "wp (throw e) (\<lambda>r w'. sends (vm_at (cowire w) st) E (isl r) (cowire w) (cowire w')) w" for e E
    by (simp add: wp_basic sends_def)
  have zero: "stmt_call_sends st (csStmt_BindZeroBlob S (Some st) i 0) (\<lambda>h. EVmBind h (c_int i) (VmZeroBlob 0))"
    using csStmt_wires(5) [of st S i 0] by (simp add: c_int_id)
  show ?thesis
    unfolding setPrepared_def
    by (cases v) (auto intro!: call no zero csStmt_BindBlob_wire csStmt_wires [simplified])
qed

section \<open>Exec\<close>

text \<open>
  The calls of a successful \<^verbatim>\<open>Exec\<close>, newest first, for the database handle \<open>d\<close> and, when an empty BLOB makes it
  go through a temporary prepared statement, the VM \<open>v\<close>.
\<close>

definition exec_trace :: "sdk \<Rightarrow> string \<Rightarrow> any list \<Rightarrow> nat \<Rightarrow> nat \<Rightarrow> event list" where
  "exec_trace S query args d v =
     (if args = [] then [EExecute d (c_string query)]
      else if hasEmptyBlob args then EVmExecute v # vm_events v args @ [EVmPrepare d (c_string query)]
      else [EBind d (c_string query) (map (bind_row_of S) args)])"

definition traced :: "nat option \<Rightarrow> (nat \<Rightarrow> nat \<Rightarrow> event list) \<Rightarrow> bool \<Rightarrow> wire \<Rightarrow> wire \<Rightarrow> bool" where
  "traced d T bad x y \<longleftrightarrow> db_at y = db_at x \<and> ((sent y = sent x \<and> bad) \<or>
     (\<exists>k v es. d = Some k \<and> suffix es (T k v) \<and> sent y = es @ sent x \<and> (bad \<or> es = T k v)))"

lemma traced_idle: "idle x y \<Longrightarrow> traced d T True x y"
  by (simp add: traced_def idle_def)

lemma traced_sends:
  "sends d E bad x y \<Longrightarrow> idle x' x \<Longrightarrow> idle y y' \<Longrightarrow> traced d (\<lambda>k _. [E k]) bad x' y'"
  by (fastforce simp: sends_def traced_def idle_def)

lemma wp_with_conn_wire:
  assumes "\<And>v a. cowire v = cowire w \<Longrightarrow> conn_native (conns w c) = Some a \<Longrightarrow>
      wp (body c (Some a)) (\<lambda>r v'. \<forall>u. cowire u = cowire v' \<longrightarrow> Q r u) v"
    and "\<And>e u. cowire u = cowire w \<Longrightarrow> Q (Inl e) u"
  shows "wp (with_conn_locked (Some c) busy body) Q w"
proof -
  have lock: "wp (coC (csN (acquire l))) (\<lambda>_ v. cowire v = cowire w \<and> conns v = conns w) w" for l w
    by (rule wp_coC_silent [OF silent_locks(1)]) simp
  have unlock: "wp (coC (csN (release l))) (\<lambda>_. Q r) v" if "\<forall>u. cowire u = cowire v \<longrightarrow> Q r u" for l r v
    by (rule wp_coC_silent [OF silent_locks(2)]) (use that in simp)
  show ?thesis
    unfolding with_conn_locked_def option.case co_locked_def wp_bind wp_basic wp_if
  proof (rule wp_mono [OF lock], goal_cases)
    case (1 r v)
    have "wp (body c (Some a)) (\<lambda>r. wp (coC (csN (release (LConn c)))) (\<lambda>_. Q r)) v"
      if "conn_native (conns w c) = Some a" for a
      by (rule wp_mono [OF assms(1)]) (use 1 that unlock in auto)
    then show ?case using 1 assms(2) unlock by (cases "conn_native (conns w c)") auto
  qed
qed

lemma sends_coE:
  assumes "wp m (\<lambda>r y. sends d E (isl r) (cowire w) (cwire y)) (csdk_of w)"
  shows "wp (coE m) (\<lambda>r v. sends d E (isl r) (cowire w) (cowire v)) w"
proof (rule wp_coE_wire [where P = "\<lambda>r y. sends d E (isl r) (cowire w) y"])
  show "wp m (\<lambda>r v. sends d E (isl (case r of Inl e \<Rightarrow> Inl (publicError e) | Inr x \<Rightarrow> Inr x)) (cowire w) (cwire v)) (csdk_of w)"
    by (rule wp_mono [OF assms]) (auto split: sum.splits)
qed

lemma csConn_sends:
  "wp (csConn_Exec S (Some a) query) (\<lambda>r y. sends (db_at (cwire w) a) (\<lambda>d. EExecute d (c_string query)) (isl r) (cwire w) (cwire y)) w"
  "wp (csConn_Commit S (Some a)) (\<lambda>r y. sends (db_at (cwire w) a) ECommit (isl r) (cwire w) (cwire y)) w"
  "wp (csConn_Rollback S (Some a)) (\<lambda>r y. sends (db_at (cwire w) a) ERollback (isl r) (cwire w) (cwire y)) w"
  "wp (csConn_Begin S (Some a)) (\<lambda>r y. sends (db_at (cwire w) a) EBegin (isl r) (cwire w) (cwire y)) w"
proof -
  show "wp (csConn_Exec S (Some a) query) (\<lambda>r y. sends (db_at (cwire w) a) (\<lambda>d. EExecute d (c_string query)) (isl r) (cwire w) (cwire y)) w"
    unfolding csConn_Exec_def by (rule wp_ifI) (simp add: wp_basic sends_def, rule csConn_call_wire, rule conn_senders)
qed (simp_all add: csConn_Commit_def csConn_Rollback_def csConn_Begin_def csConn_call_wire conn_senders)

lemma sends_refl: "sends d E True x x"
  by (simp add: sends_def)

text \<open>The end of every \<^verbatim>\<open>Exec\<close>: the last call, then the metrics.\<close>

lemma last_call_wire:
  assumes "\<And>v. cowire v = cowire w \<Longrightarrow> wp (coE m) (\<lambda>r y. sends d E (isl r) (cowire v) (cowire y)) v"
  shows "wp (tryE (contextError ctx) (\<lambda>_. tryE (coE m) (\<lambda>_. do { res \<leftarrow> resultForContext S ctx native; ok res })))
     (\<lambda>r y. sends d E (isl r) (cowire w) (cowire y)) w"
  unfolding wp_tryE wp_bind
proof (rule wp_contextError_wire, goal_cases)
  case (1 r v)
  have "wp (coE m) (\<lambda>q. case q of Inl e \<Rightarrow> (\<lambda>y. sends d E True (cowire w) (cowire y))
      | Inr x \<Rightarrow> wp (resultForContext S ctx native) (\<lambda>r. wp (ok r) (\<lambda>r y. sends d E (isl r) (cowire w) (cowire y)))) v"
  proof (rule wp_mono [OF assms [OF 1(1)]], goal_cases)
    case (1 q u)
    then show ?case
      by (cases q) (auto simp: wp_basic \<open>cowire v = cowire w\<close> intro!: wp_result_wire)
  qed
  then show ?case by (cases r) (simp_all add: sends_refl 1)
qed

lemma exec_plain_wire:
  "wp (tryE (contextError ctx) (\<lambda>_. tryE (coE (csConn_Exec S (Some a) query)) (\<lambda>_. do {
         res \<leftarrow> resultForContext S ctx (Some a); ok res })))
     (\<lambda>r y. sends (db_at (cowire w) a) (\<lambda>d. EExecute d (c_string query)) (isl r) (cowire w) (cowire y)) w"
proof (rule last_call_wire, rule sends_coE)
  fix v assume "cowire v = cowire w"
  then show "wp (csConn_Exec S (Some a) query)
      (\<lambda>r y. sends (db_at (cowire w) a) (\<lambda>d. EExecute d (c_string query)) (isl r) (cowire v) (cwire y)) (csdk_of v)"
    using csConn_sends(1) [of S a query "csdk_of v"] by (simp add: cowire_def)
qed

text \<open>\<^verbatim>\<open>defer close(); ...\<close> with a cleanup that sends nothing.\<close>

lemma wp_deferE_idle:
  assumes "wp m (\<lambda>r y. \<forall>z. idle (cowire y) (cowire z) \<longrightarrow> Q r z) w"
    and close: "\<And>v. wp c (\<lambda>_ y. idle (cwire v) (cwire y)) v"
  shows "wp (deferE (coC c) m) Q w"
proof -
  have "wp (coC c) (\<lambda>_ y. idle (cowire v) (cowire y)) v" for v
    by (rule wp_coC_wire [where P = "\<lambda>_ y. idle (cowire v) y"]) (use close in \<open>simp_all add: cowire_def\<close>)
  note coC = this
  show ?thesis
    unfolding wp_deferE
  proof (rule wp_mono [OF assms(1)], goal_cases)
    case (1 r t)
    then show ?case by (intro wp_mono [OF coC]) simp
  qed
qed

lemma exec_bound_wire:
  "wp (tryE (contextError ctx) (\<lambda>_. tryE (coE (cs_NewBind S (int (length args)))) (\<lambda>b.
         deferE (coC (csBind_Close (Some b)))
           (tryE (bind_one_shot S ctx (Some b) args) (\<lambda>_.
            tryE (contextError ctx) (\<lambda>_.
            tryE (coE (csConn_ExecBind S (Some a) query (Some b))) (\<lambda>_. do {
              res \<leftarrow> resultForContext S ctx (Some a);
              ok res })))))))
     (\<lambda>r y. traced (db_at (cowire w) a) (\<lambda>d _. [EBind d (c_string query) (map (bind_row_of S) args)]) (isl r)
        (cowire w) (cowire y)) w"
  (is "wp ?m (\<lambda>r y. ?P r (cowire y)) w")
proof -
  have body: "wp (tryE (bind_one_shot S ctx (Some b) args) (\<lambda>_. tryE (contextError ctx) (\<lambda>_.
      tryE (coE (csConn_ExecBind S (Some a) query (Some b))) (\<lambda>_. do {
        res \<leftarrow> resultForContext S ctx (Some a); ok res })))) (\<lambda>r y. \<forall>z. idle (cowire y) (cowire z) \<longrightarrow> ?P r (cowire z)) v"
    if v: "idle (cowire w) (cowire v)" and g: "0 < c_int (int (length args))" "graph_at (cowire v) b = Some g" "graph_ok g"
      "bind_count g = c_int (int (length args))"
    for b v g
  proof -
    have start: "graph_done S b (c_int (int (length args))) (cowire v) [] (cowire v)"
      using g by (simp add: graph_done_def)
    show ?thesis
      unfolding wp_tryE [of "bind_one_shot S ctx (Some b) args"]
    proof (rule wp_mono [OF bind_one_shot_wire [OF start]], goal_cases)
      case (1 r u)
      show ?case
      proof (cases r)
        case (Inl e)
        with 1 v show ?thesis by (auto simp: idle_def intro: traced_idle)
      next
        case (Inr x)
        then obtain h where "graph_done S b (c_int (int (length args))) (cowire v) args (cowire u)"
            and h: "idle (cowire v) (cowire u)" "graph_at (cowire u) b = Some h" "graph_ok h"
              "int (length args) \<le> bind_count h" "bind_count h = c_int (int (length args))"
              "take (length args) (bind_rows h) = map (bind_row_of S) args"
          using 1 by (auto simp: graph_done_def)
        have "bind_count h = int (length args)" using h(4,5) c_int_le [of "int (length args)"] by simp
        then have rows: "bind_rows h = map (bind_row_of S) args"
          using h(3,6) by (simp add: graph_ok_def bind_rows_def)
        have "wp (tryE (contextError ctx) (\<lambda>_. tryE (coE (csConn_ExecBind S (Some a) query (Some b))) (\<lambda>_. do {
            res \<leftarrow> resultForContext S ctx (Some a); ok res })))
          (\<lambda>r y. sends (db_at (cowire w) a) (\<lambda>d. EBind d (c_string query) (map (bind_row_of S) args)) (isl r) (cowire u) (cowire y)) u"
        proof (rule last_call_wire, rule sends_coE)
          fix x assume "cowire x = cowire u"
          moreover have "db_at (cowire w) a = db_at (cowire u) a" using v h(1) by (simp add: idle_def)
          ultimately show "wp (csConn_ExecBind S (Some a) query (Some b))
            (\<lambda>r y. sends (db_at (cowire w) a) (\<lambda>d. EBind d (c_string query) (map (bind_row_of S) args)) (isl r) (cowire x) (cwire y)) (csdk_of x)"
            using ExecBind_wire [of "csdk_of x" b h S a query] h(2) by (simp add: cowire_def rows)
        qed
        then have "wp (tryE (contextError ctx) (\<lambda>_. tryE (coE (csConn_ExecBind S (Some a) query (Some b))) (\<lambda>_. do {
            res \<leftarrow> resultForContext S ctx (Some a); ok res }))) (\<lambda>r y. \<forall>z. idle (cowire y) (cowire z) \<longrightarrow> ?P r (cowire z)) u"
          by (rule wp_mono) (use v h(1) in \<open>auto simp: idle_def elim: traced_sends\<close>)
        with Inr show ?thesis by simp
      qed
    qed
  qed
  have new: "wp (coE (cs_NewBind S (int (length args)))) (\<lambda>r y. idle (cowire v) (cowire y) \<and> (case r of Inl _ \<Rightarrow> True
      | Inr b \<Rightarrow> 0 < c_int (int (length args)) \<and>
          (\<exists>g. graph_at (cowire y) b = Some g \<and> graph_ok g \<and> bind_count g = c_int (int (length args))))) v" for v
    by (rule wp_coE_wire [where P = "\<lambda>r y. idle (cowire v) y \<and> (case r of Inl _ \<Rightarrow> True
      | Inr b \<Rightarrow> 0 < c_int (int (length args)) \<and>
          (\<exists>g. graph_at y b = Some g \<and> graph_ok g \<and> bind_count g = c_int (int (length args))))"], rule wp_mono [OF NewBind_wire])
      (auto simp: cowire_def split: sum.splits)
  show ?thesis
    unfolding wp_tryE [of "contextError ctx"]
  proof (rule wp_contextError_wire, goal_cases)
    case (1 r v)
    have "wp (tryE (coE (cs_NewBind S (int (length args)))) (\<lambda>b. deferE (coC (csBind_Close (Some b)))
           (tryE (bind_one_shot S ctx (Some b) args) (\<lambda>_. tryE (contextError ctx) (\<lambda>_.
            tryE (coE (csConn_ExecBind S (Some a) query (Some b))) (\<lambda>_. do {
              res \<leftarrow> resultForContext S ctx (Some a); ok res })))))) (\<lambda>r y. ?P r (cowire y)) v"
      unfolding wp_tryE [of "coE (cs_NewBind S (int (length args)))"]
    proof (rule wp_mono [OF new], goal_cases)
      case (1 q u)
      then show ?case
      proof (cases q)
        case (Inr b)
        then obtain g where "0 < c_int (int (length args))" "graph_at (cowire u) b = Some g" "graph_ok g"
            "bind_count g = c_int (int (length args))" and "idle (cowire w) (cowire u)"
          using 1 \<open>cowire v = cowire w\<close> by auto
        then show ?thesis using Inr wp_deferE_idle [OF body close_idle(2)] by simp
      qed (use \<open>cowire v = cowire w\<close> in \<open>auto simp: idle_def intro: traced_idle\<close>)
    qed
    with 1 show ?case by (cases r) (auto intro: traced_idle)
  qed
qed

lemma bind_prepared_wire:
  assumes "vm_at (cowire u) st = Some v"
  shows "wp (bind_prepared S ctx (Some st) args) (\<lambda>r y. case r of
      Inl _ \<Rightarrow> db_at (cowire y) = db_at (cowire u) \<and> (\<exists>n. sent (cowire y) = vm_events v (take n args) @ sent (cowire u))
    | Inr _ \<Rightarrow> db_at (cowire y) = db_at (cowire u) \<and> sent (cowire y) = vm_events v args @ sent (cowire u) \<and>
        vm_at (cowire y) st = Some v) u"
proof -
  let ?f = "\<lambda>index x. tryE (contextError ctx) (\<lambda>_. setPrepared S (Some st) (int index + 1) x)"
  let ?P = "\<lambda>bef y. db_at (cowire y) = db_at (cowire u) \<and> sent (cowire y) = vm_events v bef @ sent (cowire u) \<and> vm_at (cowire y) st = Some v"
  let ?E = "\<lambda>y. db_at (cowire y) = db_at (cowire u) \<and> (\<exists>n. sent (cowire y) = vm_events v (take n args) @ sent (cowire u))"
  have step: "wp (?f (length bef) x) (\<lambda>r y. case r of Inl _ \<Rightarrow> ?E y | Inr _ \<Rightarrow> ?P (bef @ [x]) y) t"
    if P: "?P bef t" and all: "bef @ x # aft = args" for bef x aft t
    unfolding wp_tryE
  proof (rule wp_contextError_wire, goal_cases)
    case (1 r w)
    have E: "?E y" if "db_at (cowire y) = db_at (cowire u)" "sent (cowire y) = vm_events v bef @ sent (cowire u) \<or>
        sent (cowire y) = vm_events v (bef @ [x]) @ sent (cowire u)" for y
    proof -
      have "take (length bef) args = bef" "take (Suc (length bef)) args = bef @ [x]"
        using all by (auto simp: take_Suc_conv_app_nth [symmetric])
      then have "\<exists>n. sent (cowire y) = vm_events v (take n args) @ sent (cowire u)"
        using that(2) by (elim disjE) (rule exI [of _ "length bef"], simp, rule exI [of _ "Suc (length bef)"], simp)
      with that(1) show ?thesis by simp
    qed
    have "wp (setPrepared S (Some st) (int (length bef) + 1) x)
        (\<lambda>r y. case r of Inl _ \<Rightarrow> ?E y | Inr _ \<Rightarrow> ?P (bef @ [x]) y) w"
    proof (rule wp_mono [OF setPrepared_wire], goal_cases)
      case (1 q y)
      have t: "db_at (cowire w) = db_at (cowire u)" "sent (cowire w) = vm_events v bef @ sent (cowire u)"
          "vm_at (cowire w) st = Some v"
        using P \<open>cowire w = cowire t\<close> by simp_all
      consider "cowire y = cowire w" "isl q"
        | "cowire y = (cowire w)\<lparr>sent := EVmBind v (c_int (int (length bef) + 1)) (vm_value_of x) # sent (cowire w)\<rparr>"
        using 1 t(3) by (auto simp: sends_def)
      then show ?case
      proof cases
        case 1
        then have "?E y" by (intro E) (simp_all add: t)
        with \<open>isl q\<close> show ?thesis by (cases q) simp_all
      next
        case 2
        then have "?P (bef @ [x]) y" by (simp add: t vm_events_snoc)
        moreover from this have "?E y" by (intro E) simp_all
        ultimately show ?thesis by (cases q) simp_all
      qed
    qed
    moreover have "?E w" by (rule E) (use 1 P in simp_all)
    ultimately show ?case by (cases r) simp_all
  qed
  have "?P [] u" using assms by (simp add: vm_events_def)
  from wp_eachE_prefix [where P = ?P and f = ?f and bef = "[]" and E = ?E, OF this append_Nil step]
  show ?thesis unfolding bind_prepared_def list.size .
qed

lemma prefix_suffix: "suffix (vm_events v (take n args) @ zs) (e # vm_events v args @ zs)"
  using vm_events_suffix [of v "take n args" "drop n args"] by (auto simp: suffix_def)

lemma exec_prepared_wire:
  "wp (tryE (contextError ctx) (\<lambda>_. tryE (coE (csConn_Prepare S (Some a) query)) (\<lambda>st.
         deferE (coC (csStmt_Close S (Some st)))
           (tryE (bind_prepared S ctx (Some st) args) (\<lambda>_.
            tryE (contextError ctx) (\<lambda>_.
            tryE (coE (csStmt_Exec S (Some st))) (\<lambda>_. do {
              res \<leftarrow> resultForContext S ctx (Some a);
              ok res })))))))
     (\<lambda>r y. traced (db_at (cowire w) a) (\<lambda>d v. EVmExecute v # vm_events v args @ [EVmPrepare d (c_string query)]) (isl r)
        (cowire w) (cowire y)) w"
  (is "wp ?m (\<lambda>r y. ?P r (cowire y)) w")
proof -
  let ?T = "\<lambda>d v. EVmExecute v # vm_events v args @ [EVmPrepare d (c_string query)]"
  have P: "traced (db_at (cowire w) a) ?T True (cowire w) y"
    if "db_at (cowire w) a = Some d" "db_at y = db_at (cowire w)" "sent y = vm_events v (take n args) @ EVmPrepare d (c_string query) # sent (cowire w)"
    for d v n y
    using that prefix_suffix [of v n args "[EVmPrepare d (c_string query)]"] by (fastforce simp: traced_def)
  have body: "wp (tryE (bind_prepared S ctx (Some st) args) (\<lambda>_. tryE (contextError ctx) (\<lambda>_.
      tryE (coE (csStmt_Exec S (Some st))) (\<lambda>_. do {
        res \<leftarrow> resultForContext S ctx (Some a); ok res })))) (\<lambda>r y. \<forall>z. idle (cowire y) (cowire z) \<longrightarrow> ?P r (cowire z)) u"
    if u: "db_at (cowire w) a = Some d" "db_at (cowire u) = db_at (cowire w)" "vm_at (cowire u) st = Some v"
      "sent (cowire u) = EVmPrepare d (c_string query) # sent (cowire w)" for st u v d
    unfolding wp_tryE [of "bind_prepared S ctx (Some st) args"]
  proof (rule wp_mono [OF bind_prepared_wire [OF u(3)]], goal_cases)
    case (1 r x)
    show ?case
    proof (cases r)
      case (Inl e)
      with 1 obtain n where "sent (cowire x) = vm_events v (take n args) @ sent (cowire u)"
          "db_at (cowire x) = db_at (cowire u)" by auto
      with u have "traced (db_at (cowire w) a) ?T True (cowire w) (cowire z)" if "idle (cowire x) (cowire z)" for z
        using that by (intro P [of d _ v n]) (simp_all add: idle_def)
      with Inl show ?thesis by simp
    next
      case (Inr _)
      then have x: "sent (cowire x) = vm_events v args @ sent (cowire u)" "vm_at (cowire x) st = Some v"
          "db_at (cowire x) = db_at (cowire u)"
        using 1 by simp_all
      have "wp (tryE (contextError ctx) (\<lambda>_. tryE (coE (csStmt_Exec S (Some st))) (\<lambda>_. do {
          res \<leftarrow> resultForContext S ctx (Some a); ok res })))
        (\<lambda>r y. sends (Some v) EVmExecute (isl r) (cowire x) (cowire y)) x"
      proof (rule last_call_wire, rule sends_coE)
        fix y assume "cowire y = cowire x"
        then show "wp (csStmt_Exec S (Some st)) (\<lambda>r z. sends (Some v) EVmExecute (isl r) (cowire y) (cwire z)) (csdk_of y)"
          using csStmt_wires(6) [of st S, unfolded stmt_call_sends_def, rule_format, of "csdk_of y"] x(2)
          by (simp add: cowire_def)
      qed
      then have "wp (tryE (contextError ctx) (\<lambda>_. tryE (coE (csStmt_Exec S (Some st))) (\<lambda>_. do {
          res \<leftarrow> resultForContext S ctx (Some a); ok res }))) (\<lambda>r y. \<forall>z. idle (cowire y) (cowire z) \<longrightarrow> ?P r (cowire z)) x"
      proof (rule wp_mono, goal_cases)
        case (1 q y)
        have sofar: "?P q (cowire z)" if "idle (cowire x) (cowire z)" "isl q" for z
          using that x u P [of d _ v "length args"] by (simp add: idle_def)
        have all: "?P q (cowire z)" if "sent (cowire z) = EVmExecute v # sent (cowire x)" "db_at (cowire z) = db_at (cowire x)" for z
          using that x u by (auto simp: traced_def)
        from 1 show ?case using sofar all by (auto simp: sends_def idle_def)
      qed
      with Inr show ?thesis by simp
    qed
  qed
  have prep: "wp (coE (csConn_Prepare S (Some a) query)) (\<lambda>r y. db_at (cowire y) = db_at (cowire x) \<and> (case r of
      Inl _ \<Rightarrow> sent (cowire y) = sent (cowire x) \<or>
          (\<exists>d. db_at (cowire x) a = Some d \<and> sent (cowire y) = EVmPrepare d (c_string query) # sent (cowire x))
    | Inr s \<Rightarrow> \<exists>d v. db_at (cowire x) a = Some d \<and> vm_at (cowire y) s = Some v \<and>
          sent (cowire y) = EVmPrepare d (c_string query) # sent (cowire x))) x" for x
    by (rule wp_coE_wire [where P = "\<lambda>r y. db_at y = db_at (cowire x) \<and> (case r of
      Inl _ \<Rightarrow> sent y = sent (cowire x) \<or>
          (\<exists>d. db_at (cowire x) a = Some d \<and> sent y = EVmPrepare d (c_string query) # sent (cowire x))
    | Inr s \<Rightarrow> \<exists>d v. db_at (cowire x) a = Some d \<and> vm_at y s = Some v \<and>
          sent y = EVmPrepare d (c_string query) # sent (cowire x))"], rule wp_mono [OF Prepare_wire])
      (auto simp: cowire_def split: sum.splits)
  show ?thesis
    unfolding wp_tryE [of "contextError ctx" "\<lambda>_. tryE (coE (csConn_Prepare S (Some a) query)) k" for k]
  proof (rule wp_contextError_wire, goal_cases)
    case (1 r v)
    have "wp (tryE (coE (csConn_Prepare S (Some a) query)) (\<lambda>st. deferE (coC (csStmt_Close S (Some st)))
           (tryE (bind_prepared S ctx (Some st) args) (\<lambda>_. tryE (contextError ctx) (\<lambda>_.
            tryE (coE (csStmt_Exec S (Some st))) (\<lambda>_. do {
              res \<leftarrow> resultForContext S ctx (Some a); ok res })))))) (\<lambda>r y. ?P r (cowire y)) v"
      unfolding wp_tryE [of "coE (csConn_Prepare S (Some a) query)"]
    proof (rule wp_mono [OF prep], goal_cases)
      case (1 q u)
      then show ?case
      proof (cases q)
        case (Inr st)
        then obtain d h where "db_at (cowire w) a = Some d" "db_at (cowire u) = db_at (cowire w)" "vm_at (cowire u) st = Some h"
            "sent (cowire u) = EVmPrepare d (c_string query) # sent (cowire w)"
          using 1 \<open>cowire v = cowire w\<close> by auto
        then show ?thesis using Inr wp_deferE_idle [OF body close_idle(1)] by simp
      next
        case (Inl e)
        then show ?thesis
          using 1 \<open>cowire v = cowire w\<close> P [of _ _ undefined 0] by (auto intro: traced_idle simp: vm_events_def idle_def)
      qed
    qed
    with 1 show ?case by (cases r) (auto intro: traced_idle)
  qed
qed

section \<open>What Exec sends\<close>

text \<open>The calls so far that acted on a session, newest first, and the SDK handle of a public connection.\<close>

definition actions :: "core \<Rightarrow> event list" where
  "actions w = filter acts (hist (native_of (csdk_of w)))"

definition sdk_db :: "core \<Rightarrow> nat \<Rightarrow> nat option" where
  "sdk_db w c = through (\<lambda>c. conn_native (conns w c)) (db_at (cowire w)) c"

lemma sent_actions: "sent (cowire w) = actions w"
  by (simp add: cowire_def cwire_def nwire_def actions_def)

lemma sdk_db_simps:
  "conn_native (conns w c) = Some a \<Longrightarrow> sdk_db w c = db_at (cowire w) a"
  by (simp add: sdk_db_def through_def)

lemma Exec_traced:
  "wp (Conn_ExecContext S ctx (Some c) query args)
     (\<lambda>r y. traced (sdk_db w c) (exec_trace S query args) (isl r) (cowire w) (cowire y)) w"
proof -
  have body: "wp (if args = [] then
         tryE (contextError ctx) (\<lambda>_. tryE (coE (csConn_Exec S (Some a) query)) (\<lambda>_. do {
           res \<leftarrow> resultForContext S ctx (Some a); ok res }))
       else if hasEmptyBlob args then
         tryE (contextError ctx) (\<lambda>_. tryE (coE (csConn_Prepare S (Some a) query)) (\<lambda>st.
         deferE (coC (csStmt_Close S (Some st)))
           (tryE (bind_prepared S ctx (Some st) args) (\<lambda>_. tryE (contextError ctx) (\<lambda>_.
            tryE (coE (csStmt_Exec S (Some st))) (\<lambda>_. do { res \<leftarrow> resultForContext S ctx (Some a); ok res }))))))
       else
         tryE (contextError ctx) (\<lambda>_. tryE (coE (cs_NewBind S (int (length args)))) (\<lambda>b.
         deferE (coC (csBind_Close (Some b)))
           (tryE (bind_one_shot S ctx (Some b) args) (\<lambda>_. tryE (contextError ctx) (\<lambda>_.
            tryE (coE (csConn_ExecBind S (Some a) query (Some b))) (\<lambda>_. do {
              res \<leftarrow> resultForContext S ctx (Some a); ok res })))))))
     (\<lambda>r y. traced (db_at (cowire v) a) (exec_trace S query args) (isl r) (cowire v) (cowire y)) v" for a v
    using exec_bound_wire [of ctx S args a query v] exec_prepared_wire [of ctx S a query args v]
      wp_mono [OF exec_plain_wire [of ctx S a query v] traced_sends [OF _ idle_simps(1) idle_simps(1)]]
    by (simp add: exec_trace_def [abs_def])
  show ?thesis
    unfolding Conn_ExecContext_def wp_tryE [of "contextError ctx"]
  proof (rule wp_contextError_wire, goal_cases)
    case (1 r v)
    have "wp (with_conn_locked (Some c) (\<lambda>x. children x \<noteq> 0) body)
       (\<lambda>r y. traced (sdk_db w c) (exec_trace S query args) (isl r) (cowire w) (cowire y)) v"
      if b: "\<And>a u. wp (body c (Some a))
        (\<lambda>r y. traced (db_at (cowire u) a) (exec_trace S query args) (isl r) (cowire u) (cowire y)) u" for body
    proof (rule wp_with_conn_wire)
      fix u a assume u: "cowire u = cowire v" "conn_native (conns v c) = Some a"
      then have "sdk_db w c = db_at (cowire u) a" "cowire w = cowire u"
        using 1 by (simp_all add: sdk_db_simps)
      with b [of a u] show "wp (body c (Some a)) (\<lambda>r v'. \<forall>u. cowire u = cowire v' \<longrightarrow>
          traced (sdk_db w c) (exec_trace S query args) (isl r) (cowire w) (cowire u)) u"
        by (auto elim!: wp_mono)
    qed (use 1 in \<open>auto intro: traced_idle\<close>)
    from this [OF body] show ?case
      using 1 by (cases r) (auto simp: wp_basic intro!: traced_idle wp_ifI)
  qed
qed

text \<open>A method that makes one call on the locked connection, checking the context before.\<close>

lemma guarded_call_traced:
  assumes call: "\<And>v a. wp (m (Some a)) (\<lambda>r y. sends (db_at (cowire v) a) E (isl r) (cowire v) (cowire y)) v"
  shows "wp (tryE (contextError ctx) (\<lambda>_. with_conn_locked (Some c) busy (\<lambda>c native. tryE (contextError ctx) (\<lambda>_. m native))))
     (\<lambda>r y. traced (sdk_db w c) (\<lambda>d _. [E d]) (isl r) (cowire w) (cowire y)) w"
  unfolding wp_tryE [of "contextError ctx" "\<lambda>_. with_conn_locked x b k" for x b k]
proof (rule wp_contextError_wire, goal_cases)
  case (1 r v)
  have "wp (with_conn_locked (Some c) busy (\<lambda>c native. tryE (contextError ctx) (\<lambda>_. m native)))
     (\<lambda>r y. traced (sdk_db w c) (\<lambda>d _. [E d]) (isl r) (cowire w) (cowire y)) v"
  proof (rule wp_with_conn_wire)
    fix u a assume u: "cowire u = cowire v" "conn_native (conns v c) = Some a"
    then have d: "sdk_db w c = db_at (cowire u) a" "cowire w = cowire u"
      using 1 by (simp_all add: sdk_db_simps)
    show "wp (tryE (contextError ctx) (\<lambda>_. m (Some a))) (\<lambda>r v'. \<forall>u. cowire u = cowire v' \<longrightarrow>
        traced (sdk_db w c) (\<lambda>d _. [E d]) (isl r) (cowire w) (cowire u)) u"
      unfolding wp_tryE
    proof (rule wp_contextError_wire, goal_cases)
      case (1 r x)
      have "wp (m (Some a)) (\<lambda>r v'. \<forall>u. cowire u = cowire v' \<longrightarrow>
        traced (sdk_db w c) (\<lambda>d _. [E d]) (isl r) (cowire w) (cowire u)) x"
        by (rule wp_mono [OF call]) (auto simp: d 1 intro: traced_sends [OF _ idle_simps(1) idle_simps(1)])
      then show ?case using 1 d by (cases r) (auto intro: traced_idle)
    qed
  qed (use 1 in \<open>auto intro: traced_idle\<close>)
  then show ?case using 1 by (cases r) (auto intro: traced_idle)
qed

lemma finishImplicit_traced:
  "wp (finishImplicit S ctx (Some c) b)
     (\<lambda>r y. traced (sdk_db w c) (\<lambda>d _. [if b then ECommit d else ERollback d]) (isl r) (cowire w) (cowire y)) w"
  unfolding finishImplicit_def
proof (rule guarded_call_traced)
  show "wp (if b then coE (csConn_Commit S (Some a)) else coE (csConn_Rollback S (Some a)))
      (\<lambda>r y. sends (db_at (cowire v) a) (\<lambda>d. if b then ECommit d else ERollback d) (isl r) (cowire v) (cowire y)) v" for v a
    using csConn_sends(2,3) [of S a "csdk_of v"] by (auto simp: cowire_def intro!: sends_coE [unfolded cowire_def])
qed

lemma SetDatabase_traced:
  "wp (Conn_SetDatabaseContext S ctx (Some c) name)
     (\<lambda>r y. traced (sdk_db w c) (\<lambda>d _. [ESetDatabase d (if name \<noteq> [] then Some (c_string name) else None)]) (isl r)
       (cowire w) (cowire y)) w"
  unfolding Conn_SetDatabaseContext_def
proof (rule guarded_call_traced)
  let ?E = "\<lambda>d. ESetDatabase d (if name \<noteq> [] then Some (c_string name) else None)"
  show "wp (coE (csConn_SetDatabase S (Some a) name))
      (\<lambda>r y. sends (db_at (cowire v) a) ?E (isl r) (cowire v) (cowire y)) v" for v a
    unfolding csConn_SetDatabase_def Let_def
    by (rule sends_coE, rule wp_mono [OF csConn_call_wire [OF conn_senders(2)]]) (simp add: cowire_def)
qed

text \<open>None of these calls assigns to a connection.\<close>

lemma same_conns_calls: "stays (\<lambda>w. conns w = C) (coC m)" "stays (\<lambda>w. conns w = C) (coE m')"
  by (simp_all add: stays_def wp_run coE_def mapE_def coC_def split: prod.split)

lemma same_conns_control:
  "stays (\<lambda>w. conns w = C) body \<Longrightarrow> stays (\<lambda>w. conns w = C) (co_locked l body)"
  "stays (\<lambda>w. conns w = C) c \<Longrightarrow> stays (\<lambda>w. conns w = C) body \<Longrightarrow> stays (\<lambda>w. conns w = C) (deferE c body)"
  "stays (\<lambda>w. conns w = C) (contextError ctx)"
  unfolding co_locked_def deferE_def
  by (intro stays_control same_conns_calls, assumption) (intro stays_control, assumption+,
    auto simp: stays_def intro: wp_contextError_wire)

lemma Exec_same_conns:
  "stays (\<lambda>w. conns w = C) (Conn_ExecContext S ctx conn query args)"
  "stays (\<lambda>w. conns w = C) (finishImplicit S ctx conn b)"
  "stays (\<lambda>w. conns w = C) (Conn_SetDatabaseContext S ctx conn name)"
proof -
  have each: "stays I (eachE f i xs)" if "\<And>i x. stays I (f i x)" for I :: "core \<Rightarrow> bool" and f i and xs :: "any list"
    using that by (induction xs arbitrary: i) (simp_all add: stays_basic stays_tryE)
  have set: "stays (\<lambda>w. conns w = C) (setOneShot S bnd i v)" "stays (\<lambda>w. conns w = C) (setPrepared S st i v)" for bnd st i v
    unfolding setOneShot_def setPrepared_def
    by (auto intro!: stays_control same_conns_calls split: any.split)
  have res: "stays (\<lambda>w. conns w = C) (resultForContext S ctx native)" for ctx native
    unfolding resultForContext_def by (intro stays_control same_conns_calls same_conns_control)
  show "stays (\<lambda>w. conns w = C) (Conn_ExecContext S ctx conn query args)" "stays (\<lambda>w. conns w = C) (finishImplicit S ctx conn b)"
    "stays (\<lambda>w. conns w = C) (Conn_SetDatabaseContext S ctx conn name)"
    unfolding Conn_ExecContext_def finishImplicit_def Conn_SetDatabaseContext_def with_conn_locked_def bind_prepared_def bind_one_shot_def
    by (intro stays_control same_conns_control same_conns_calls each set res)+
qed

text \<open>C3: \<^verbatim>\<open>Exec\<close> sends its statement once, with exactly its arguments in order. From any state, when it
  reports success, the calls it made that act on the session are: one \<^verbatim>\<open>cubesql_execute\<close> of the statement
  when there are no arguments; one \<^verbatim>\<open>cubesql_bind\<close> of the statement whose rows are those of the arguments, one
  per argument; or, when an argument is an empty BLOB, one prepare, one bind per argument and one execute of
  the same VM. They all go to the SDK handle of its own connection. When it reports an error it has made
  the first few of these calls, possibly none, and no other.\<close>

theorem exec_wire:
  "let (r, w') = run_state (Conn_ExecContext S ctx (Some c) query args) w in
   case r of
     Inr res \<Rightarrow> \<exists>d v. sdk_db w c = Some d \<and> actions w' = exec_trace S query args d v @ actions w
   | Inl e \<Rightarrow> actions w' = actions w \<or>
       (\<exists>d v es. sdk_db w c = Some d \<and> suffix es (exec_trace S query args d v) \<and> actions w' = es @ actions w)"
proof -
  obtain r w' where run: "run_state (Conn_ExecContext S ctx (Some c) query args) w = (r, w')"
    by (metis prod.exhaust)
  from wpD [OF Exec_traced run] show ?thesis
    by (cases r) (auto simp: run traced_def sent_actions)
qed

text \<open>What the bytes of a row mean: text of an integer, text, BLOB or NULL, of which the SDK reads \<open>size\<close> bytes.\<close>

fun row_value :: "bind_row \<Rightarrow> any option" where
  "row_value (ty, size', buffer) =
     (case buffer of
        None \<Rightarrow> (if ty = BIND_NULL then Some ANil else None)
      | Some bytes \<Rightarrow> (let s = take (nat size') bytes in
          if ty = BIND_INT64 then (case parse_int64 s of None \<Rightarrow> None | Some i \<Rightarrow> Some (AInt64 i))
          else if ty = BIND_TEXT then Some (AString s)
          else if ty = BIND_BLOB then Some (ABytes (Some s))
          else None))"

text \<open>The arguments of which a row holds the value itself: all but floats, which go as decimal text.\<close>

fun carried :: "any \<Rightarrow> bool" where
  "carried ANil \<longleftrightarrow> True"
| "carried (AInt64 i) \<longleftrightarrow> in_int64 i"
| "carried (AString s) \<longleftrightarrow> int (length s) < 2 ^ 31"
| "carried (ABytes (Some b)) \<longleftrightarrow> int (length b) < 2 ^ 31"
| "carried _ \<longleftrightarrow> False"

lemma carried_row: "carried v \<Longrightarrow> row_value (bind_row_of S v) = Some v"
  by (induction v rule: carried.induct)
    (simp_all add: slot_row_def bind_buffer_def Let_def slice_bytes_def c_int_id parse_show_int)

text \<open>C27: What \<^verbatim>\<open>setOneShot\<close> puts in a bind graph says what the argument said. From any state, through the Go
  setter and the C function it calls, success means that the graph is open, that the position is in its
  bounds, and that exactly the row of this position is replaced, by one that reads back, by its type and
  size, as the argument: nil, a 64-bit integer, or a text or BLOB of less than 2 GiB, NUL bytes included.
  Whether it succeeds or not, it sends nothing.\<close>

theorem bind_row_roundtrip:
  "let (r, w') = run_state (setOneShot S (Some b) i v) w in
   actions w' = actions w \<and>
   (case r of
      Inl _ \<Rightarrow> True
    | Inr _ \<Rightarrow> \<exists>g g' row. graph_at (cowire w) b = Some g \<and> graph_at (cowire w') b = Some g' \<and>
        0 < c_int i \<and> c_int i \<le> bind_count g \<and> bind_count g' = bind_count g \<and>
        bind_rows g' = (bind_rows g)[nat (c_int i - 1) := row] \<and> row_value row \<in> (if carried v then {Some v} else UNIV))"
proof -
  obtain r w' where run: "run_state (setOneShot S (Some b) i v) w = (r, w')" by fastforce
  have post: "set_result b (c_int i) (bind_row_of S v) (cowire w) r (cowire w')" by (rule wpD [OF setOneShot_wire run])
  show ?thesis
  proof (cases r)
    case (Inl e)
    with post show ?thesis by (simp add: run set_result_def idle_def sent_actions)
  next
    case (Inr u)
    with post have "puts b (c_int i) (bind_row_of S v) (cowire w) (cowire w')" by (simp add: set_result_def)
    then obtain g g' where "actions w' = actions w" and "graph_at (cowire w) b = Some g" "graph_at (cowire w') b = Some g'"
        "0 < c_int i" "c_int i \<le> bind_count g" "bind_count g' = bind_count g"
        "bind_rows g' = (bind_rows g)[nat (c_int i - 1) := bind_row_of S v]"
      by (auto simp: puts_def idle_def sent_actions simp del: row_value.simps bind_row_of.simps)
    with Inr show ?thesis
      unfolding run Let_def prod.case by (auto simp del: split_paired_Ex row_value.simps bind_row_of.simps
        intro!: exI [of _ "bind_row_of S v"] carried_row)
  qed
qed

end
