(* ===== verification/Cube_Adapter_Health.thy ===== *)
theory Cube_Adapter_Health
  imports Cube_Adapter_Run Cube_Wire_Exec Cube_Error_Classes
begin

text \<open>
  The health of pooled connections: an unusable connection stays unusable, whatever is called on it
  afterwards, and nothing is sent on it any more.
\<close>

section \<open>Unusable connections stay unusable\<close>

definition unusable :: "adconn \<Rightarrow> bool" where
  "unusable x \<longleftrightarrow> closed x \<or> ad_native x = None \<or> broken x"

definition dead_at :: "nat \<Rightarrow> adapter \<Rightarrow> bool" where
  "dead_at a w \<longleftrightarrow> a < ad_next w \<and> unusable (adconns w a)"

lemma dead_adC: "stays (dead_at a) (adC m)"
  by (simp add: stays_def dead_at_def adC_def wp_simps wp_run)

lemma dead_upd:
  "(\<And>x. unusable x \<Longrightarrow> unusable (f x)) \<Longrightarrow> stays (dead_at a) (upd_adconn b f)"
  "stays (dead_at a) (upd_adstmt s g)" "stays (dead_at a) (upd_adtx t h)" "stays (dead_at a) (upd_adrows r k)"
  "stays (dead_at a) ad_new"
  by (auto simp: stays_def dead_at_def upd_adconn_def upd_adstmt_def upd_adtx_def upd_adrows_def ad_new_def wp_simps)

lemma dead_new: "(\<And>p. stays (dead_at a) (k p)) \<Longrightarrow>
    stays (dead_at a) (ad_new \<bind> (\<lambda>p. upd_adconn p (\<lambda>_. x) \<bind> (\<lambda>_. k p)))"
  by (auto simp: stays_def dead_at_def upd_adconn_def ad_new_def wp_simps)

lemma dead_locked: "stays (dead_at a) body \<Longrightarrow> stays (dead_at a) (ad_locked l body)"
  unfolding ad_locked_def by (intro stays_control dead_adC)

lemmas dead_control = dead_new dead_locked dead_adC dead_upd stays_control

lemma dead_helpers:
  "stays (dead_at a) (usableLocked b)" "stays (dead_at a) (observeLocked b e)" "stays (dead_at a) (safeRetryErrorLocked b err)"
  "stays (dead_at a) (observed b err)" "stays (dead_at a) (observed_retry b err)" "stays (dead_at a) (observe c e)"
  "stays (dead_at a) (finishTransaction b n p q)"
  unfolding usableLocked_def observed_def observed_retry_def observeLocked_def safeRetryErrorLocked_def observe_def
    finishTransaction_def
  by (intro dead_control; simp add: unusable_def)+

lemma dead_conn:
  "stays (dead_at a) (conn_PrepareContext S ctx b query)" "stays (dead_at a) (conn_Close S c)"
  "stays (dead_at a) (conn_BeginTx S ctx b ro lvl)" "stays (dead_at a) (conn_Ping S ctx b)"
  "stays (dead_at a) (conn_IsValid c)" "stays (dead_at a) (conn_ResetSession S ctx b)"
  "stays (dead_at a) (conn_ExecContext S ctx b query args)" "stays (dead_at a) (conn_QueryContext S ctx b query args)"
  "stays (dead_at a) (Connect S ctx cfg)"
  unfolding conn_PrepareContext_def conn_Close_def conn_BeginTx_def conn_Ping_def conn_IsValid_def
    conn_ResetSession_def conn_ExecContext_def conn_QueryContext_def ad_newRows_def Let_def Connect_def
  by (intro dead_control dead_helpers; simp add: unusable_def)+

lemma dead_next_columns: "stays (dead_at a) (next_columns G S b native column ds)"
  by (induction ds arbitrary: column)
    (auto intro!: stays_control dead_adC dead_helpers split: sum.split)

lemma dead_others:
  "stays (dead_at a) (stmt_Close st)" "stays (dead_at a) (stmt_ExecContext S ctx s args)"
  "stays (dead_at a) (stmt_QueryContext S ctx s args)" "stays (dead_at a) (tx_Commit S t)" "stays (dead_at a) (tx_Rollback S t)"
  "stays (dead_at a) (rows_Close S r)" "stays (dead_at a) (rows_Next G S r ds)" "stays (dead_at a) (Driver_Open G S name)"
  unfolding stmt_Close_def stmt_ExecContext_def stmt_QueryContext_def with_adstmt_def tx_Commit_def tx_Rollback_def
    with_adtx_def rows_Close_def rows_Next_def Driver_Open_def
  by (intro dead_control dead_helpers dead_conn dead_next_columns; simp)+

lemma dead_step: "stays (dead_at a) (ad_step G S op)"
  by (cases op; simp only: ad_step.simps; intro stays_unit dead_conn dead_others)

lemma dead_run: "dead_at a w \<Longrightarrow> dead_at a (run_ops (ad_step G S) ops w)"
proof (induction ops arbitrary: w)
  case (Cons op ops)
  then show ?case using dead_step [of a G S op] by (simp add: run_ops_def stays_def wp_run)
qed (simp add: run_ops_def)

lemma IsValid_iff: "fst (run_state (conn_IsValid (Some a)) w) \<longleftrightarrow> \<not> unusable (adconns w a)"
proof -
  have "wp (conn_IsValid (Some a)) (\<lambda>r _. r \<longleftrightarrow> \<not> unusable (adconns w a)) w"
    by (simp add: conn_IsValid_def ad_locked_def adC_def wp_simps wp_run) (auto simp: unusable_def)
  then show ?thesis by (simp add: wp_run)
qed

text \<open>C22: A connection that has become unusable never recovers. Over any further calls, the set of
  connections that are closed, without native connection or broken only grows, and \<^verbatim>\<open>IsValid\<close> is false for
  all of them, so \<^verbatim>\<open>database/sql\<close> discards every one it asks about.\<close>

theorem broken_sticky:
  "let w = run_ops (ad_step G S) ops adapter_init; w' = run_ops (ad_step G S) ops' w in
   {a. a < ad_next w \<and> unusable (adconns w a)} \<subseteq> {a. a < ad_next w' \<and> unusable (adconns w' a)} \<and>
   {a. fst (run_state (conn_IsValid (Some a)) w')} = {a. \<not> unusable (adconns w' a)}"
  using dead_run [of _ "ad_run G S ops" G S ops'] by (auto simp: Let_def dead_at_def IsValid_iff)

section \<open>An unusable connection is not used\<close>

lemma lock_round:
  assumes "held (native_of (csdk_of (core_of w))) = []"
    and "\<And>v. adconns v = adconns w \<Longrightarrow> run_state body v = (r, v)"
  shows "run_state (ad_locked l body) w = (r, w)"
proof -
  have "w\<lparr>core_of := (core_of w)\<lparr>csdk_of := (csdk_of (core_of w))\<lparr>native_of := (native_of (csdk_of (core_of w)))
      \<lparr>held := [], stuck := stuck (native_of (csdk_of (core_of w)))\<rparr>\<rparr>\<rparr>\<rparr> = w"
    using assms(1) by (cases w; cases "core_of w"; cases "csdk_of (core_of w)"; cases "native_of (csdk_of (core_of w))") simp
  then show ?thesis
    using assms by (simp add: ad_locked_def adC_def coC_def csN_def acquire_def release_def)
qed

lemma refused:
  assumes "held (native_of (csdk_of (core_of w))) = []" and "unusable (adconns w a)"
  shows "run_state (ad_locked l (tryE (usableLocked a) k)) w = (Inl ErrBadConn, w)"
  by (rule lock_round [OF assms(1)]) (use assms(2) in \<open>auto simp: usableLocked_def tryE_def unusable_def\<close>)

text \<open>C23: Nothing is done on an unusable connection. In any reachable state, \<^verbatim>\<open>Ping\<close>, \<^verbatim>\<open>PrepareContext\<close>,
  \<^verbatim>\<open>BeginTx\<close>, \<^verbatim>\<open>ExecContext\<close>, \<^verbatim>\<open>QueryContext\<close> and \<^verbatim>\<open>ResetSession\<close> of a connection that is closed or broken return
  \<^verbatim>\<open>driver.ErrBadConn\<close> (or, before looking at the connection, the error of an argument or option they do not
  support) and leave the whole state, the server's history included, exactly as it was.\<close>

theorem unusable_refused:
  "let w = run_ops (ad_step G S) ops adapter_init in
   if unusable (adconns w a) then
     run_state (conn_Ping S ctx a) w = (Inl ErrBadConn, w) \<and>
     run_state (conn_PrepareContext S ctx a query) w = (Inl ErrBadConn, w) \<and>
     run_state (conn_ResetSession S ctx a) w = (Inl ErrBadConn, w) \<and>
     run_state (conn_BeginTx S ctx a readOnly isolation) w =
       (Inl (if readOnly then ErrReadOnlyTransaction else if isolation \<noteq> 0 then ErrTransactionIsolation else ErrBadConn), w) \<and>
     run_state (conn_ExecContext S ctx a query args) w =
       (Inl (case namedValues args of Inl e \<Rightarrow> e | Inr _ \<Rightarrow> ErrBadConn), w) \<and>
     run_state (conn_QueryContext S ctx a query args) w =
       (Inl (case namedValues args of Inl e \<Rightarrow> e | Inr _ \<Rightarrow> ErrBadConn), w)
   else fst (run_state (conn_IsValid (Some a)) w)"
proof -
  let ?w = "ad_run G S ops"
  have h: "held (native_of (csdk_of (core_of ?w))) = []"
    using core_at_hinv(3) [OF ad_run_safe] .
  show ?thesis
  proof (cases "unusable (adconns ?w a)")
    case True
    have "run_state (conn_ResetSession S ctx a) ?w = (Inl ErrBadConn, ?w)"
      unfolding conn_ResetSession_def Let_def
      by (rule lock_round [OF h]) (use True in \<open>auto simp: unusable_def\<close>)
    with True show ?thesis
      by (simp add: refused [OF h True] Let_def conn_Ping_def conn_PrepareContext_def conn_BeginTx_def conn_ExecContext_def
          conn_QueryContext_def split: sum.split)
  next
    case False
    then show ?thesis by (simp add: Let_def IsValid_iff)
  qed
qed

end
