(* ===== verification/Cube_Adapter_Session.thy ===== *)
theory Cube_Adapter_Session
  imports Cube_Adapter_Health
begin

text \<open>
  The contracts of the pooled connection that span the packages: when \<^verbatim>\<open>database/sql\<close> may retry, what an
  execution commits, how a transaction ends, and one state from which \<^verbatim>\<open>Close\<close> cannot recover.
\<close>

section \<open>Retries\<close>

text \<open>An error class without \<^verbatim>\<open>driver.ErrBadConn\<close>; the contexts of callers, whose errors are the two of the
  \<^verbatim>\<open>context\<close> package.\<close>

definition no_retry :: "gerror \<Rightarrow> bool" where
  "no_retry e \<longleftrightarrow> \<not> err_is e ErrBadConn"

definition caller_contexts :: "nat \<Rightarrow> ctx list" where
  "caller_contexts n = [NilCtx, Background, CancelAt n CtxCanceled, CancelAt n CtxDeadlineExceeded]"

definition bad_conn :: "gerror + 'a \<Rightarrow> bool" where
  "bad_conn r \<longleftrightarrow> (case r of Inl e \<Rightarrow> err_is e ErrBadConn | Inr _ \<Rightarrow> False)"

lemma core_no_retry: "core_error e \<Longrightarrow> no_retry e"
  by (simp add: no_retry_def core_error_hides)

lemma ctx_no_retry: "ctx \<in> set (caller_contexts n) \<Longrightarrow> ctx_error ctx e \<Longrightarrow> no_retry e"
  by (auto simp: caller_contexts_def ctx_error_def no_retry_def core_error_hides)

lemma core_fails:
  "fails_in core_error m \<Longrightarrow> fails_in no_retry (adC m)"
  "ctx \<in> set (caller_contexts n) \<Longrightarrow> fails_in (ctx_error ctx) m' \<Longrightarrow> fails_in no_retry (adC m')"
  unfolding adC_def by (rule fails_zoom, erule fails_mono, auto intro: core_no_retry ctx_no_retry)+

lemma retry_locked: "fails_in no_retry body \<Longrightarrow> fails_in no_retry (ad_locked l body)"
  unfolding ad_locked_def by (rule fails_bind, erule fails_then_return)

lemma retry_observed: "no_retry e \<Longrightarrow> fails_in no_retry (observed a e)"
  unfolding observed_def by (intro fails_bind fails_basic)

lemma retry_catch:
  "fails_in no_retry m \<Longrightarrow> (\<And>v. fails_in no_retry (k v)) \<Longrightarrow> fails_in no_retry (catchE m (observed a) k)"
  by (rule fails_catchE [where D = no_retry]) (auto intro: retry_observed)

lemmas retry_control = fails_tryE retry_catch retry_locked fails_if fails_basic fails_bind

lemma bad_conn_in: "fails_in no_retry m \<Longrightarrow> \<not> bad_conn (fst (run_state m w))"
  by (auto simp: bad_conn_def no_retry_def dest: fails_inD split: sum.split)

text \<open>A method that only fails with \<^verbatim>\<open>driver.ErrBadConn\<close> because the connection was unusable.\<close>

lemma bad_conn_guarded:
  assumes "\<And>u. fails_in no_retry (k u)"
  shows "bad_conn (fst (run_state (ad_locked l (tryE (usableLocked a) k)) w)) \<longleftrightarrow> unusable (adconns w a)"
proof -
  have "wp (ad_locked l (tryE (usableLocked a) k)) (\<lambda>r _. bad_conn r \<longleftrightarrow> unusable (adconns w a)) w"
    using bad_conn_in [OF assms, unfolded bad_conn_def]
    by (auto simp: ad_locked_def adC_def usableLocked_def unusable_def bad_conn_def wp_simps wp_run)
  then show ?thesis by (simp add: wp_run)
qed

lemma retry_methods:
  assumes "ctx \<in> set (caller_contexts n)"
  shows "bad_conn (fst (run_state (conn_ExecContext S ctx a query args) w)) =
      (case namedValues args of Inl e \<Rightarrow> err_is e ErrBadConn | Inr _ \<Rightarrow> unusable (adconns w a))"
    "bad_conn (fst (run_state (conn_QueryContext S ctx a query args) w)) =
      (case namedValues args of Inl e \<Rightarrow> err_is e ErrBadConn | Inr _ \<Rightarrow> unusable (adconns w a))"
    "bad_conn (fst (run_state (conn_BeginTx S ctx a readOnly isolation) w)) =
      (\<not> readOnly \<and> isolation = 0 \<and> unusable (adconns w a))"
proof -
  note calls = core_fails(2) [OF assms] core_fails(2) [of Background n] fails_core
  show "bad_conn (fst (run_state (conn_ExecContext S ctx a query args) w)) =
      (case namedValues args of Inl e \<Rightarrow> err_is e ErrBadConn | Inr _ \<Rightarrow> unusable (adconns w a))"
    unfolding conn_ExecContext_def Conn_CommitContext_def
    by (cases "namedValues args"; simp only: sum.case; (rule bad_conn_guarded)?)
      (simp add: bad_conn_def, intro retry_control calls, simp_all add: caller_contexts_def)
  show "bad_conn (fst (run_state (conn_QueryContext S ctx a query args) w)) =
      (case namedValues args of Inl e \<Rightarrow> err_is e ErrBadConn | Inr _ \<Rightarrow> unusable (adconns w a))"
    unfolding conn_QueryContext_def
    by (cases "namedValues args"; simp only: sum.case; (rule bad_conn_guarded)?)
      (simp add: bad_conn_def, intro retry_control calls)
  have "bad_conn (fst (run_state (conn_BeginTx S ctx a False 0) w)) = unusable (adconns w a)"
    unfolding conn_BeginTx_def by (simp, rule bad_conn_guarded, intro retry_control calls)
      (simp_all add: no_retry_def)
  then show "bad_conn (fst (run_state (conn_BeginTx S ctx a readOnly isolation) w)) =
      (\<not> readOnly \<and> isolation = 0 \<and> unusable (adconns w a))"
    by (cases readOnly; cases "isolation = 0") (simp_all add: conn_BeginTx_def bad_conn_def)
qed

lemma retry_tx: "fails_in no_retry (tx_Commit S t)" "fails_in no_retry (tx_Rollback S t)"
proof -
  have fin: "fails_in no_retry (adC (Tx_RollbackContext S Background x))" "fails_in no_retry (adC (Tx_CommitContext S Background x))" for x
    unfolding Tx_RollbackContext_def Tx_CommitContext_def
    by (rule core_fails(2) [of Background 0], simp add: caller_contexts_def, rule fails_core)+
  have with_tx: "fails_in no_retry (with_adtx t body)" if "\<And>a n. fails_in no_retry (body a n)" for body
    unfolding with_adtx_def
    by (intro retry_control) (auto intro!: fails_if fails_basic that simp: no_retry_def split: option.split)
  have join: "fails_in no_retry (case join_errors (Some e) (error_of r) of None \<Rightarrow> ok () | Some e \<Rightarrow> throw e)"
    if "no_retry e" "\<And>e. r = Inl e \<Longrightarrow> no_retry e" for e and r :: "gerror + unit"
    using that by (cases r) (auto simp: join_errors_def error_of_def no_retry_def intro!: fails_basic)
  show "fails_in no_retry (tx_Rollback S t)"
    unfolding tx_Rollback_def by (intro with_tx fails_result [OF fin(1)] fails_bind fails_return)
  show "fails_in no_retry (tx_Commit S t)"
    unfolding tx_Commit_def
    by (intro with_tx fails_catchE [OF fin(2)] fails_result [OF fin(1)] fails_bind fails_basic join)
qed

text \<open>C5: \<^verbatim>\<open>driver.ErrBadConn\<close>, on which \<^verbatim>\<open>database/sql\<close> repeats an operation on another connection, is
  returned only when nothing has been done. From any state and with any context, \<^verbatim>\<open>ExecContext\<close>, \<^verbatim>\<open>QueryContext\<close>
  and \<^verbatim>\<open>BeginTx\<close> return it exactly when the connection was unusable before the call (or the caller's own
  \<^verbatim>\<open>Valuer\<close> returned it); \<^verbatim>\<open>Commit\<close> and \<^verbatim>\<open>Rollback\<close> never return it, whatever happened to the network while
  they ran.\<close>

theorem retry_safe:
  "list_all (\<lambda>ctx.
     bad_conn (fst (run_state (conn_ExecContext S ctx a query args) w)) =
       (case namedValues args of Inl e \<Rightarrow> err_is e ErrBadConn | Inr _ \<Rightarrow> unusable (adconns w a)) \<and>
     bad_conn (fst (run_state (conn_QueryContext S ctx a query args) w)) =
       (case namedValues args of Inl e \<Rightarrow> err_is e ErrBadConn | Inr _ \<Rightarrow> unusable (adconns w a)) \<and>
     bad_conn (fst (run_state (conn_BeginTx S ctx a readOnly isolation) w)) =
       (\<not> readOnly \<and> isolation = 0 \<and> unusable (adconns w a)))
     [NilCtx, Background, CancelAt n CtxCanceled, CancelAt n CtxDeadlineExceeded] \<and>
   \<not> bad_conn (fst (run_state (tx_Commit S t) w)) \<and> \<not> bad_conn (fst (run_state (tx_Rollback S t) w))"
  using retry_methods [of _ n] retry_tx [THEN bad_conn_in]
  by (simp only: list_all_iff caller_contexts_def) blast

section \<open>Autocommit\<close>

text \<open>The SDK handle of a pooled connection.\<close>

definition session :: "adapter \<Rightarrow> nat \<Rightarrow> nat option" where
  "session w a = (case ad_native (adconns w a) of None \<Rightarrow> None | Some c \<Rightarrow> sdk_db (core_of w) c)"

lemma sdk_db_same:
  "conns y = conns w \<Longrightarrow> db_at (cowire y) = db_at (cowire w) \<Longrightarrow> sdk_db y c = sdk_db w c"
  by (simp add: sdk_db_def)

lemma traced_outcome:
  "traced d T (isl r) x y \<Longrightarrow> (case r of
     Inr _ \<Rightarrow> \<exists>k v. d = Some k \<and> sent y = T k v @ sent x
   | Inl _ \<Rightarrow> sent y = sent x \<or> (\<exists>k v es. d = Some k \<and> suffix es (T k v) \<and> sent y = es @ sent x))"
  by (cases r) (auto simp: traced_def)

text \<open>A core call that traces \<open>T\<close> and assigns to no connection, run by the adapter.\<close>

lemma traced_adC:
  assumes "wp m (\<lambda>r y. traced (sdk_db (core_of w) c) T (isl r) (cowire (core_of w)) (cowire y)) (core_of w)"
    and "\<And>C. stays (\<lambda>w. conns w = C) m"
  shows "wp (adC m) (\<lambda>r y. traced (sdk_db (core_of w) c) T (isl r) (cowire (core_of w)) (cowire (core_of y)) \<and>
     adconns y = adconns w \<and> sdk_db (core_of y) c = sdk_db (core_of w) c) w"
proof -
  have "wp m (\<lambda>_ y. conns y = conns (core_of w)) (core_of w)"
    using assms(2) by (simp add: stays_def)
  from wp_conj [OF assms(1) this] show ?thesis
    unfolding adC_def wp_zoom by (rule wp_mono) (auto simp: traced_def intro: sdk_db_same)
qed

lemma traced_append:
  assumes "traced d T False x y" and "traced d (\<lambda>k _. es k) bad y z"
  shows "traced d (\<lambda>k v. es k @ T k v) bad x z"
proof -
  obtain k v where x: "d = Some k" "sent y = T k v @ sent x" "db_at y = db_at x" "db_at z = db_at y"
    using assms by (auto simp: traced_def)
  have "suffix (T k v) (es k @ T k v)" by (simp add: suffix_def)
  moreover have "suffix fs (es k) \<Longrightarrow> suffix (fs @ T k v) (es k @ T k v)" for fs
    by (auto simp: suffix_def)
  ultimately show ?thesis
    using x assms(2) unfolding traced_def by (fastforce simp: x)
qed

lemma traced_more: "traced d T b x y \<Longrightarrow> traced d (\<lambda>k v. es k @ T k v) True x y"
  unfolding traced_def by (metis suffix_appendI)

text \<open>Postconditions that only depend on the wire and on the pooled connections and transactions are not affected by the mutex.\<close>

definition same_session :: "adapter \<Rightarrow> adapter \<Rightarrow> bool" where
  "same_session v u \<longleftrightarrow> cowire (core_of u) = cowire (core_of v) \<and> adconns u = adconns v \<and>
     adtxs u = adtxs v"

lemma wp_ad_locked_wire:
  assumes stable: "\<And>r v u. Q r v \<Longrightarrow> same_session v u \<Longrightarrow> Q r u"
    and body: "\<And>v. same_session w v \<Longrightarrow> conns (core_of v) = conns (core_of w) \<Longrightarrow> wp body Q v"
  shows "wp (ad_locked l body) Q w"
proof -
  have lock: "wp (adC (coC (csN m))) (\<lambda>_ v. same_session w v \<and> conns (core_of v) = conns (core_of w)) w"
    if "silent (csN m)" for m :: "(native, unit) state" and w
    unfolding adC_def wp_zoom by (rule wp_coC_silent [OF that]) (simp add: same_session_def)
  show ?thesis
    unfolding ad_locked_def wp_bind wp_basic
  proof (rule wp_mono [OF lock [OF silent_locks(1)]], goal_cases)
    case (1 r v)
    then have "wp body Q v" by (intro body) simp_all
    then show ?case
      by (rule wp_mono) (rule wp_mono [OF lock [OF silent_locks(2)]], auto intro: stable)
  qed
qed

text \<open>\<open>breaks\<close> marks the connection.\<close>

definition mark :: "gerror + 'a \<Rightarrow> adconn \<Rightarrow> adconn" where
  "mark r x = (case r of Inl e \<Rightarrow> x\<lparr>broken := broken x \<or> breaks e\<rparr> | Inr _ \<Rightarrow> x)"

lemma mark_simps [simp]: "mark (Inr v) x = x" "mark (Inl ErrBadConn) x = x"
  by (simp_all add: mark_def breaks_def)

lemma wp_observed:
  assumes "Q (Inl e) (w\<lparr>adconns := (adconns w)(a := mark (Inl e :: gerror + unit) (adconns w a))\<rparr>)"
  shows "wp (observed a e) Q w"
proof -
  have "w\<lparr>adconns := adconns w\<rparr> = w" by simp
  then show ?thesis
    using assms unfolding observed_def observeLocked_def upd_adconn_def
    by (auto simp: wp_simps mark_def split: if_splits)
qed

lemma wp_guarded_wire:
  assumes stable: "\<And>r v u. Q r v \<Longrightarrow> same_session v u \<Longrightarrow> Q r u"
    and ok: "\<And>v c. same_session w v \<Longrightarrow> conns (core_of v) = conns (core_of w) \<Longrightarrow>
      ad_native (adconns w a) = Some c \<Longrightarrow> wp (k ()) Q v"
    and bad: "\<And>u. same_session w u \<Longrightarrow> Q (Inl ErrBadConn) u"
  shows "wp (ad_locked l (tryE (usableLocked a) k)) Q w"
proof (rule wp_ad_locked_wire [OF stable])
  fix v assume v: "same_session w v" "conns (core_of v) = conns (core_of w)"
  then have "adconns v = adconns w" by (simp add: same_session_def)
  with v show "wp (tryE (usableLocked a) k) Q v"
    by (auto simp: usableLocked_def wp_tryE wp_bind wp_basic wp_if intro: ok bad)
qed

text \<open>What an execution on \<open>a\<close> that started in \<open>w\<close> has done when it returns \<open>r\<close>.\<close>

definition commits :: "adapter \<Rightarrow> nat \<Rightarrow> nat \<Rightarrow> event list" where
  "commits w a d = (if activeTx (adconns w a) = None then [ECommit d] else [])"

definition exec_post :: "sdk \<Rightarrow> adapter \<Rightarrow> nat \<Rightarrow> string \<Rightarrow> any list \<Rightarrow> gerror + 'a \<Rightarrow> adapter \<Rightarrow> bool" where
  "exec_post S w a query vs r y \<longleftrightarrow> adconns y = (adconns w)(a := mark r (adconns w a)) \<and>
     traced (session w a) (\<lambda>d v. commits w a d @ exec_trace S query vs d v) (isl r) (cowire (core_of w)) (cowire (core_of y))"

lemma exec_post_stable: "exec_post S w a query vs r v \<Longrightarrow> same_session v u \<Longrightarrow> exec_post S w a query vs r u"
  by (simp add: exec_post_def same_session_def)

lemma exec_post_observed:
  assumes "adconns y = adconns w"
    and "traced (session w a) (\<lambda>d v. commits w a d @ exec_trace S query vs d v) True (cowire (core_of w)) (cowire (core_of y))"
  shows "wp (observed a e) (exec_post S w a query vs) y"
  by (rule wp_observed) (use assms in \<open>simp add: exec_post_def mark_def\<close>)

lemma exec_commit:
  assumes y: "traced (session w a) (exec_trace S query vs) False (cowire (core_of w)) (cowire (core_of y))"
    and same: "adconns y = adconns w" "sdk_db (core_of y) c = session w a"
    and tx: "activeTx (adconns w a) = None"
  shows "wp (catchE (adC (finishImplicit S Background (Some c) True)) (observed a) (\<lambda>_. ok x)) (exec_post S w a query vs) y"
proof -
  have "wp (adC (finishImplicit S Background (Some c) True)) (\<lambda>r z. adconns z = adconns w \<and>
      traced (session w a) (\<lambda>d v. commits w a d @ exec_trace S query vs d v) (isl r) (cowire (core_of w)) (cowire (core_of z))) y"
    by (rule wp_mono [OF traced_adC [OF finishImplicit_traced [of S Background c True "core_of y"] Exec_same_conns(2)]])
      (use traced_append [OF y, of "commits w a"] same tx in \<open>auto simp: commits_def\<close>)
  then show ?thesis
    unfolding wp_catchE wp_basic
    by (rule wp_mono) (auto split: sum.split intro: exec_post_observed simp: exec_post_def)
qed

lemma exec_body:
  assumes v: "same_session w v" "conns (core_of v) = conns (core_of w)" and n: "ad_native (adconns w a) = Some c"
  shows "wp (catchE (adC (Conn_ExecContext S ctx (Some c) query vs)) (observed a) (\<lambda>result. do {
      tx \<leftarrow> gets (\<lambda>w. activeTx (adconns w a));
      (if tx = None then catchE (adC (finishImplicit S Background (Some c) True)) (observed a) (\<lambda>_. ok \<lparr>er_native = result\<rparr>)
       else ok \<lparr>er_native = result\<rparr>) })) (exec_post S w a query vs) v"
proof -
  have s: "sdk_db (core_of v) c = session w a" "cowire (core_of v) = cowire (core_of w)" "adconns v = adconns w"
    using v n by (simp_all add: session_def sdk_db_def same_session_def)
  have "wp (adC (Conn_ExecContext S ctx (Some c) query vs)) (\<lambda>r y. traced (session w a) (exec_trace S query vs) (isl r)
      (cowire (core_of w)) (cowire (core_of y)) \<and> adconns y = adconns w \<and> sdk_db (core_of y) c = session w a) v"
    using traced_adC [OF Exec_traced [of S ctx c query vs "core_of v"] Exec_same_conns(1)] by (simp add: s)
  then show ?thesis
    unfolding wp_catchE [where m = "adC (Conn_ExecContext S ctx (Some c) query vs)"]
  proof (rule wp_mono, goal_cases)
    case (1 r y)
    then show ?case
      by (cases r) (auto simp: wp_bind wp_basic wp_if commits_def exec_post_def
          intro!: exec_post_observed exec_commit traced_more)
  qed
qed

text \<open>C4: Outside a transaction every successful execution is committed, inside one none is. From any
  state, \<^verbatim>\<open>ExecContext\<close> of a pooled connection that succeeds has sent its statement once with exactly its
  (converted) arguments on the connection's own SDK session and, when the connection has no active
  transaction, one commit after it, and nothing else. A failure has sent a prefix of these calls: the
  commit never without the whole statement. Of the pooled connections only this one may change, and only
  by being marked broken, which happens exactly for a closed, network, protocol or timeout error.\<close>

theorem autocommit:
  "let (r, w') = run_state (conn_ExecContext S ctx a query args) w; before = actions (core_of w);
       commit = (\<lambda>d. if activeTx (adconns w a) = None then [ECommit d] else []) in
   case namedValues args of
     Inl e \<Rightarrow> r = Inl e \<and> w' = w
   | Inr vs \<Rightarrow> adconns w' = (adconns w)(a := mark r (adconns w a)) \<and>
      (case r of
         Inr _ \<Rightarrow> \<exists>d v. session w a = Some d \<and> actions (core_of w') = commit d @ exec_trace S query vs d v @ before
       | Inl e \<Rightarrow> actions (core_of w') = before \<or> (\<exists>d v es. session w a = Some d \<and>
           suffix es (commit d @ exec_trace S query vs d v) \<and> actions (core_of w') = es @ before))"
proof (cases "namedValues args")
  case (Inl e)
  then show ?thesis by (simp add: conn_ExecContext_def)
next
  case (Inr vs)
  have "wp (conn_ExecContext S ctx a query args) (exec_post S w a query vs) w"
    unfolding conn_ExecContext_def Inr sum.case Conn_CommitContext_def
  proof (rule wp_guarded_wire [OF exec_post_stable], assumption, assumption, goal_cases)
    case (1 v c)
    then have n: "ad_native (adconns v a) = Some c" by (simp add: same_session_def)
    show ?case unfolding wp_bind [of "gets (\<lambda>w. ad_native (adconns w a))"] wp_basic n by (rule exec_body [OF 1])
  next
    case (2 u)
    then show ?case by (simp add: exec_post_def same_session_def traced_idle idle_def)
  qed
  then obtain r w' where run: "run_state (conn_ExecContext S ctx a query args) w = (r, w')"
      and post: "exec_post S w a query vs r w'"
    by (auto simp: wp_def split: prod.splits)
  have c: "(\<lambda>d. if activeTx (adconns w a) = None then [ECommit d] else []) = commits w a"
    by (simp add: commits_def fun_eq_iff)
  show ?thesis
    using post [unfolded exec_post_def] traced_outcome [OF conjunct2 [OF post [unfolded exec_post_def]]]
    unfolding run c Let_def Inr by (auto simp: sent_actions split: sum.splits)
qed

section \<open>Ending a transaction\<close>

lemma wp_adC_any:
  "(\<And>r v. adconns v = adconns w \<Longrightarrow> adtxs v = adtxs w \<Longrightarrow> Q r v) \<Longrightarrow> wp (adC m) Q w"
  by (simp add: adC_def wp_simps wp_run)

lemma wp_ad_locked_any:
  assumes "\<And>v. adconns v = adconns w \<Longrightarrow> adtxs v = adtxs w \<Longrightarrow>
    wp body (\<lambda>r v'. \<forall>u. adconns u = adconns v' \<longrightarrow> adtxs u = adtxs v' \<longrightarrow> Q r u) v"
  shows "wp (ad_locked l body) Q w"
  unfolding ad_locked_def wp_bind wp_basic
  by (rule wp_adC_any, rule wp_mono [OF assms]) (auto intro!: wp_adC_any)

lemma wp_finishTransaction:
  assumes "\<And>v. adtxs v = adtxs w \<Longrightarrow> adconns v = (adconns w)(a := (adconns w a)\<lparr>
      activeTx := if activeTx (adconns w a) = Some n \<and> clear then None else activeTx (adconns w a),
      broken := broken (adconns w a) \<or> bad\<rparr>) \<Longrightarrow> Q () v"
  shows "wp (finishTransaction a n bad clear) Q w"
proof -
  have same: "x\<lparr>activeTx := activeTx x, broken := broken x\<rparr> = x" "x\<lparr>activeTx := activeTx x, broken := True\<rparr> = x\<lparr>broken := True\<rparr>"
    "x\<lparr>activeTx := y, broken := broken x\<rparr> = x\<lparr>activeTx := y\<rparr>" for x y
    by (cases x; simp)+
  show ?thesis
    unfolding finishTransaction_def
    by (rule wp_ad_locked_any) (auto simp: wp_simps upd_adconn_def same intro!: assms)
qed

text \<open>How \<^verbatim>\<open>Commit\<close> or \<^verbatim>\<open>Rollback\<close> of the open transaction object \<open>t\<close> ends.\<close>

definition tx_ended :: "adapter \<Rightarrow> nat \<Rightarrow> nat \<Rightarrow> nat \<Rightarrow> gerror + unit \<Rightarrow> adapter \<Rightarrow> bool" where
  "tx_ended w t a n r y \<longleftrightarrow> adtxs y = (adtxs w)(t := (adtxs w t)\<lparr>at_done := True\<rparr>) \<and>
     (let x = adconns y a in adconns y = (adconns w)(a := x) \<and> broken x = (broken (adconns w a) \<or> isl r) \<and>
        ad_native x = ad_native (adconns w a) \<and> closed x = closed (adconns w a) \<and>
        (activeTx x = activeTx (adconns w a) \<and> (isl r \<or> activeTx x \<noteq> Some n) \<or> activeTx x = None))"

lemma tx_ends:
  assumes "at_connection (adtxs w t) = Some a" "at_native (adtxs w t) = Some n" "\<not> at_done (adtxs w t)"
  shows "wp (tx_Commit S t) (tx_ended w t a n) w" "wp (tx_Rollback S t) (tx_ended w t a n) w"
proof -
  have body: "wp (with_adtx t body) (tx_ended w t a n) w"
    if "\<And>v. adconns v = adconns w \<Longrightarrow> adtxs v = adtxs w \<Longrightarrow> wp (body a n) (tx_ended w t a n) v" for body
    unfolding with_adtx_def
  proof (rule wp_ad_locked_any, goal_cases)
    case (1 v)
    show ?case
      using that [OF 1] assms 1 by (auto simp: wp_simps tx_ended_def elim!: wp_mono)
  qed
  show "wp (tx_Rollback S t) (tx_ended w t a n) w"
    unfolding tx_Rollback_def
    by (rule body, unfold wp_bind wp_basic, rule wp_adC_any, rule wp_finishTransaction)
      (auto simp: wp_simps upd_adtx_def tx_ended_def Let_def error_of_def split: sum.splits)
  show "wp (tx_Commit S t) (tx_ended w t a n) w"
    unfolding tx_Commit_def
  proof (rule body, unfold wp_catchE, rule wp_adC_any, goal_cases)
    case (1 v r u)
    show ?case
    proof (cases r)
      case (Inl e)
      show ?thesis
        unfolding Inl sum.case wp_bind
        by (rule wp_adC_any, rule wp_finishTransaction)
          (use 1 in \<open>auto simp: wp_simps upd_adtx_def tx_ended_def Let_def join_errors_def split: option.splits\<close>)
    next
      case (Inr x)
      show ?thesis
        unfolding Inr sum.case wp_bind
        by (rule wp_finishTransaction) (use 1 in \<open>auto simp: wp_simps upd_adtx_def tx_ended_def Let_def\<close>)
    qed
  qed
qed

lemma tx_over:
  assumes "at_done (adtxs w t) \<or> at_connection (adtxs w t) = None \<or> at_native (adtxs w t) = None"
  shows "wp (tx_Commit S t) (\<lambda>r y. r = Inl ErrTxDone \<and> same_session w y) w"
    "wp (tx_Rollback S t) (\<lambda>r y. r = Inl ErrTxDone \<and> same_session w y) w"
proof -
  have "wp (with_adtx t body) (\<lambda>r y. r = Inl ErrTxDone \<and> same_session w y) w" for body
    unfolding with_adtx_def
  proof (rule wp_ad_locked_wire, goal_cases)
    case (2 v)
    then have "adtxs v = adtxs w" by (simp add: same_session_def)
    with assms 2(1) show ?case by (auto simp: wp_simps split: option.split)
  qed (simp add: same_session_def)
  then show "wp (tx_Commit S t) (\<lambda>r y. r = Inl ErrTxDone \<and> same_session w y) w"
    "wp (tx_Rollback S t) (\<lambda>r y. r = Inl ErrTxDone \<and> same_session w y) w"
    by (simp_all add: tx_Commit_def tx_Rollback_def)
qed

text \<open>C19: A pooled transaction ends exactly once, and a connection on which ending it failed is not used
  again. From any state, the first \<^verbatim>\<open>Commit\<close> or \<^verbatim>\<open>Rollback\<close> of a transaction object marks it done, marks its
  connection broken exactly when it reports an error, and takes it off the connection when it succeeds;
  it changes no other pooled connection. A call on a transaction that is already over changes nothing. In
  either case every later \<^verbatim>\<open>Commit\<close> and \<^verbatim>\<open>Rollback\<close> fails with \<^verbatim>\<open>ErrTxDone\<close> and sends nothing.\<close>

theorem tx_ends_once:
  "let x = adtxs w t; (r, w') = run_state (if commit then tx_Commit S t else tx_Rollback S t) w in
   (case (at_connection x, at_native x, at_done x) of
      (Some a, Some n, False) \<Rightarrow>
        adtxs w' = (adtxs w)(t := x\<lparr>at_done := True\<rparr>) \<and> adconns w' = (adconns w)(a := adconns w' a) \<and>
        broken (adconns w' a) = (broken (adconns w a) \<or> isl r) \<and>
        (if isl r then activeTx (adconns w' a) \<in> {activeTx (adconns w a), None} else activeTx (adconns w' a) \<noteq> Some n)
    | _ \<Rightarrow> r = Inl ErrTxDone \<and> adtxs w' = adtxs w \<and> adconns w' = adconns w \<and> actions (core_of w') = actions (core_of w)) \<and>
   (let (r1, w1) = run_state (tx_Commit S t) w'; (r2, w2) = run_state (tx_Rollback S t) w' in
    r1 = Inl ErrTxDone \<and> r2 = Inl ErrTxDone \<and> actions (core_of w1) = actions (core_of w') \<and>
    actions (core_of w2) = actions (core_of w'))"
proof -
  let ?over = "\<lambda>w. at_done (adtxs w t) \<or> at_connection (adtxs w t) = None \<or> at_native (adtxs w t) = None"
  obtain r w' where run: "run_state (if commit then tx_Commit S t else tx_Rollback S t) w = (r, w')" by fastforce
  have over: "r = Inl ErrTxDone \<and> same_session w w'" if "?over w"
    using tx_over [OF that, of S] run by (cases commit) (simp_all add: wp_def)
  have ends: "tx_ended w t a n r w'" if "at_connection (adtxs w t) = Some a" "at_native (adtxs w t) = Some n" "\<not> at_done (adtxs w t)"
    for a n
    using tx_ends [OF that, of S] run by (cases commit) (simp_all add: wp_def)
  have "?over w'"
  proof (cases "?over w")
    case True
    with over show ?thesis by (simp add: same_session_def)
  next
    case False
    with ends show ?thesis by (auto simp: tx_ended_def)
  qed
  note again = tx_over [OF this, of S]
  then have "let (r1, w1) = run_state (tx_Commit S t) w'; (r2, w2) = run_state (tx_Rollback S t) w' in
    r1 = Inl ErrTxDone \<and> r2 = Inl ErrTxDone \<and> actions (core_of w1) = actions (core_of w') \<and>
    actions (core_of w2) = actions (core_of w')"
    by (auto simp: wp_def Let_def same_session_def simp flip: sent_actions split: prod.splits)
  note later = this
  show ?thesis
  proof (cases "?over w")
    case True
    with over [OF True] later show ?thesis
      unfolding run Let_def prod.case by (auto simp: same_session_def simp flip: sent_actions split: option.split bool.split)
  next
    case False
    then obtain a n where open': "at_connection (adtxs w t) = Some a" "at_native (adtxs w t) = Some n" "at_done (adtxs w t) = False"
      by auto
    then have "tx_ended w t a n r w'" by (intro ends) simp_all
    with later show ?thesis
      unfolding run Let_def prod.case open' by (auto simp: tx_ended_def Let_def)
  qed
qed

section \<open>A connection that cannot be closed\<close>

text \<open>
  \<^verbatim>\<open>Close\<close> forgets the active transaction even when its rollback failed, while the public connection stays in
  it. From then on every \<^verbatim>\<open>Close\<close> fails with \<^verbatim>\<open>ErrBusy\<close> and changes nothing: the native connection stays
  open for good.
\<close>

lemma wp_core_locked_conns:
  assumes "\<And>v. conns v = conns w \<Longrightarrow> wp body (\<lambda>r u. \<forall>u'. conns u' = conns u \<longrightarrow> Q r u') v"
  shows "wp (co_locked l body) Q w"
proof -
  have lock: "wp (coC m) (\<lambda>_ v. conns v = conns w) w" for m :: "(csdk, unit) state" and w
    by (simp add: coC_def wp_simps wp_run)
  show ?thesis
    unfolding co_locked_def wp_bind wp_basic
    by (rule wp_mono [OF lock], rule wp_mono [OF assms], assumption) (auto intro: wp_mono [OF lock])
qed

lemma close_stuck:
  assumes "\<not> closed (adconns w a)" "activeTx (adconns w a) = None" "ad_native (adconns w a) = Some c"
    and "conn_native (conns (core_of w) c) \<noteq> None" "txActive (conns (core_of w) c)"
  shows "wp (conn_Close S (Some a)) (\<lambda>r y. r = Inl (Joined [ErrBusy]) \<and> adconns y = adconns w \<and>
    conns (core_of y) = conns (core_of w)) w"
proof -
  have close: "wp (Conn_Close (Some c)) (\<lambda>r u. r = Inl ErrBusy \<and> conns u = conns k) k"
    if "conn_native (conns k c) \<noteq> None" "txActive (conns k c)" for k
    unfolding Conn_Close_def option.case
    by (rule wp_core_locked_conns) (use that in \<open>auto simp: wp_simps\<close>)
  have lock: "wp (adC (coC m)) (\<lambda>_ v. conns (core_of v) = conns (core_of w) \<and> adconns v = adconns w) w"
    for m :: "(csdk, unit) state" and w
    by (simp add: adC_def coC_def wp_simps wp_run)
  have body: "wp (adC (Conn_Close (Some c))) (\<lambda>r u. r = Inl ErrBusy \<and> conns (core_of u) = conns (core_of w) \<and>
      adconns u = adconns w) v" if "conns (core_of v) = conns (core_of w)" "adconns v = adconns w" for v
    unfolding adC_def wp_zoom by (rule wp_mono [OF close]) (use assms that in auto)
  show ?thesis
    unfolding conn_Close_def option.case ad_locked_def wp_bind wp_basic
  proof (rule wp_mono [OF lock], goal_cases)
    case (1 r v)
    then have v: "\<not> closed (adconns v a)" "activeTx (adconns v a) = None" "ad_native (adconns v a) = Some c"
      using assms by simp_all
    show ?case
      by (simp add: v wp_if wp_bind wp_basic, rule wp_mono [OF body])
        (use 1 in \<open>auto simp: error_of_def join_errors_def wp_basic intro!: wp_mono [OF lock]\<close>)
  qed
qed

end
