(* ===== verification/Cube_Reply.thy ===== *)
theory Cube_Reply
  imports Cube_Adapter_Health
begin

text \<open>
  What the server answered to the calls that act on a session, as the driver learns it: the calls of the
  history with their codes. A call on a connection and its code determine the error its caller gets.
\<close>

section \<open>Answers\<close>

text \<open>
  The code the driver takes from the newest call of \<open>h\<close>, made on the database handle \<open>d\<close>: the result, or the
  code \<^verbatim>\<open>cubesql_errcode\<close> gives when asked right after a failure, unless that one says nothing.
\<close>

definition reported :: "sdk \<Rightarrow> nat \<Rightarrow> event list \<Rightarrow> int" where
  "reported S d h = (let c = r_int S (EErrcode d # h) in
     if r_int S h = 0 then 0 else if c = 0 \<or> c = CSQLGO_ERR_INVALID then r_int S h else c)"

text \<open>The calls of a history that act on a session, newest first, each with its code\<close>

fun replies :: "sdk \<Rightarrow> nat \<Rightarrow> event list \<Rightarrow> (event \<times> int) list" where
  "replies S d [] = []"
| "replies S d (e # h) = (if acts e then (e, reported S d (e # h)) # replies S d h else replies S d h)"

lemma map_fst_replies: "map fst (replies S d h) = filter acts h"
  by (induction h) simp_all

definition heard :: "sdk \<Rightarrow> core \<Rightarrow> nat \<Rightarrow> (event \<times> int) list" where
  "heard S w d = replies S d (hist (native_of (csdk_of w)))"

section \<open>Calls that hear nothing\<close>

definition nanswers :: "sdk \<Rightarrow> native \<Rightarrow> (nat \<Rightarrow> (event \<times> int) list) \<times> (nat \<Rightarrow> nat option)" where
  "nanswers S n = (\<lambda>d. replies S d (hist n), db_at (nwire n))"

definition canswers :: "sdk \<Rightarrow> csdk \<Rightarrow> (nat \<Rightarrow> (event \<times> int) list) \<times> (nat \<Rightarrow> nat option)" where
  "canswers S w = (fst (nanswers S (native_of w)), through (\<lambda>a. conn_ptr (gconns w a)) (snd (nanswers S (native_of w))))"

definition nhush :: "sdk \<Rightarrow> (native, 'a) state \<Rightarrow> bool" where
  "nhush S m \<longleftrightarrow> (\<forall>x. stays (\<lambda>n. nanswers S n = x) m)"

lemma nhush_control:
  "nhush S (State_Monad.return v)" "nhush S (gets f)"
  "nhush S m \<Longrightarrow> (\<And>v. nhush S (k v)) \<Longrightarrow> nhush S (State_Monad.bind m k)"
  "(b \<Longrightarrow> nhush S m1) \<Longrightarrow> (\<not> b \<Longrightarrow> nhush S m2) \<Longrightarrow> nhush S (if b then m1 else m2)"
  "nhush S m1 \<Longrightarrow> (\<And>v. nhush S (g v)) \<Longrightarrow> nhush S (case y of None \<Rightarrow> m1 | Some v \<Rightarrow> g v)"
  unfolding nhush_def by (auto intro!: stays_control split: option.split)

lemma nhush_modify: "(\<And>n. nanswers S (f n) = nanswers S n) \<Longrightarrow> nhush S (modify f)"
  by (simp add: nhush_def stays_def wp_simps)

lemma nhush_calls:
  "nhush S (acquire l)" "nhush S (release l)" "nhush S (fail_ub v)" "\<not> acts e \<Longrightarrow> nhush S (log_call e)"
  "nhush S (modify (\<lambda>n. n\<lparr>clock := g n\<rparr>))"
  unfolding acquire_def release_def fail_ub_def log_call_def
  by (intro nhush_control nhush_modify; simp add: nanswers_def nwire_def)+

lemma nhush_errors: "nhush S (csqlgo_conn_error_code S p)" "nhush S (csqlgo_conn_error_message_copy S p)"
  unfolding csqlgo_conn_error_code_def csqlgo_conn_error_message_copy_def with_conn_def csqlgo_copy_string_def malloc_ok_def
    db_int_def db_call_def
  by (intro nhush_control nhush_calls; simp)+

text \<open>In the public package: the same answers, and each connection on the handle it had\<close>

definition undisturbed :: "sdk \<Rightarrow> core \<Rightarrow> core \<Rightarrow> bool" where
  "undisturbed S w v \<longleftrightarrow> heard S v = heard S w \<and> sdk_db v = sdk_db w"

lemma undisturbed_refl [simp]: "undisturbed S w w"
  by (simp add: undisturbed_def)

lemma undisturbed_trans: "undisturbed S w v \<Longrightarrow> undisturbed S v u \<Longrightarrow> undisturbed S w u"
  by (simp add: undisturbed_def)

lemma core_view: "heard S w = fst (canswers S (csdk_of w))" "sdk_db w c = through (\<lambda>c. conn_native (conns w c)) (snd (canswers S (csdk_of w))) c"
  by (simp_all add: heard_def [abs_def] canswers_def nanswers_def sdk_db_def cowire_def cwire_def)

lemma wp_coC_undisturbed:
  assumes "nhush S m"
  shows "wp (coC (csN m)) (\<lambda>_ v. undisturbed S w v \<and> conns v = conns w \<and> txs v = txs w) w"
proof -
  have "wp m (\<lambda>_ n. nanswers S n = nanswers S (native_of (csdk_of w))) (native_of (csdk_of w))"
    using assms unfolding nhush_def stays_def by blast
  then show ?thesis
    unfolding coC_def csN_def wp_zoom
    by (rule wp_mono) (simp add: undisturbed_def fun_eq_iff core_view [where S = S] canswers_def)
qed

lemma wp_contextError_undisturbed:
  assumes "\<And>r v. undisturbed S w v \<Longrightarrow> conns v = conns w \<Longrightarrow> txs v = txs w \<Longrightarrow>
      (\<And>e. r = Inl e \<Longrightarrow> e = ErrInvalidArgument \<or> (\<exists>n. ctx = CancelAt n e)) \<Longrightarrow> Q r v"
  shows "wp (contextError ctx) Q w"
  unfolding contextError_def tick_clock_def
  by (cases ctx) (auto simp: wp_bind wp_basic wp_if intro!: assms wp_mono [OF wp_coC_undisturbed [OF nhush_calls(5), where S = S]])

lemma wp_co_locked_undisturbed:
  assumes "\<And>v. undisturbed S w v \<Longrightarrow> conns v = conns w \<Longrightarrow> txs v = txs w \<Longrightarrow>
      wp body (\<lambda>r u. \<forall>z. undisturbed S u z \<longrightarrow> Q r z) v"
  shows "wp (co_locked l body) Q w"
  unfolding co_locked_def wp_bind wp_basic
proof (rule wp_mono [OF wp_coC_undisturbed [OF nhush_calls(1), where S = S]], goal_cases)
  case (1 r v)
  then have "wp body (\<lambda>r u. \<forall>z. undisturbed S u z \<longrightarrow> Q r z) v" by (intro assms) simp_all
  then show ?case
    by (rule wp_mono) (rule wp_mono [OF wp_coC_undisturbed [OF nhush_calls(2), where S = S]], simp)
qed

section \<open>Calls on a connection\<close>

text \<open>A failed call asks for the code at once.\<close>

lemma wp_check_result:
  assumes p: "conn_ptr (gconns w a) = Some p" and d: "db_at (nwire (native_of w)) p = d"
  shows "wp (check_result S a r) (\<lambda>x v. canswers S v = canswers S w \<and>
     (if r = 0 then x = Inr ()
      else \<exists>m. x = Inl (CsError (case d of None \<Rightarrow> r
        | Some d \<Rightarrow> let c = r_int S (EErrcode d # hist (native_of w)) in if c = 0 \<or> c = - 10000 then r else c) m))) w"
proof -
  have code: "wp (csqlgo_conn_error_code S (Some p)) (\<lambda>c n. nanswers S n = nanswers S (native_of w) \<and>
      c = (case d of None \<Rightarrow> - 10000 | Some d \<Rightarrow> r_int S (EErrcode d # hist (native_of w)))) (native_of w)"
    unfolding csqlgo_conn_error_code_def with_conn_def db_int_def db_call_def log_call_def fail_ub_def
    using d by (auto simp: wp_simps nanswers_def nwire_def split: option.split)
  have msg: "wp (csqlgo_conn_error_message_copy S q) (\<lambda>_ n. nanswers S n = nanswers S n0) n0" for q n0
    using nhush_errors(2) unfolding nhush_def stays_def by blast
  have lift: "canswers S (w\<lparr>native_of := n\<rparr>) = canswers S w" if "nanswers S n = nanswers S (native_of w)" for n
    using that by (simp add: canswers_def)
  have "wp (nativeErrorLocked S a r) (\<lambda>e v. canswers S v = canswers S w \<and> (\<exists>m. e = CsError (case d of None \<Rightarrow> r
        | Some d \<Rightarrow> let c = r_int S (EErrcode d # hist (native_of w)) in if c = 0 \<or> c = - 10000 then r else c) m)) w"
    unfolding nativeErrorLocked_def Let_def csN_def wp_bind wp_basic wp_zoom p
    by (rule wp_mono [OF code], rule wp_mono [OF msg]) (auto simp: canswers_def split: option.splits)
  then show ?thesis by (simp add: check_result_def wp_bind wp_basic wp_if)
qed

text \<open>
  \<open>told S d E r x y\<close>: the call ended with \<open>r\<close>; when \<open>r\<close> is a success or an error of some code other than the
  bridge's own, it was sent on \<open>d\<close> and answered with that code.
\<close>

definition told :: "sdk \<Rightarrow> nat option \<Rightarrow> (nat \<Rightarrow> event) \<Rightarrow> gerror + unit \<Rightarrow>
    (nat \<Rightarrow> (event \<times> int) list) \<Rightarrow> (nat \<Rightarrow> (event \<times> int) list) \<Rightarrow> bool" where
  "told S dopt E r x y \<longleftrightarrow> r = Inl CsClosed \<or> (\<exists>m. r = Inl (CsError CSQLGO_ERR_INVALID m)) \<or>
     (\<exists>d c. dopt = Some d \<and> y d = (E d, c) # x d \<and> (case r of Inr _ \<Rightarrow> c = 0 | Inl e \<Rightarrow> \<exists>m. e = CsError c m))"

definition connection_call :: "sdk \<Rightarrow> (nat option \<Rightarrow> (native, int) state) \<Rightarrow> (nat \<Rightarrow> event) \<Rightarrow> bool" where
  "connection_call S f E \<longleftrightarrow> (\<forall>p. f p = with_conn p CSQLGO_ERR_INVALID (\<lambda>d. db_int S d (E d))) \<and> (\<forall>d. acts (E d))"

lemma connection_calls:
  "connection_call S (\<lambda>p. csqlgo_conn_set_database S p name) (\<lambda>d. ESetDatabase d name)"
  "connection_call S (csqlgo_conn_rollback S) ERollback"
  by (simp_all add: connection_call_def csqlgo_conn_set_database_def csqlgo_conn_rollback_def)

lemma wp_call_told:
  assumes "connection_call S f E" and p: "conn_ptr (gconns w a) = Some p"
  shows "wp (do { result \<leftarrow> csN (f (Some p)); check_result S a result })
    (\<lambda>r v. snd (canswers S v) = snd (canswers S w) \<and> told S (snd (canswers S w) a) E r (fst (canswers S w)) (fst (canswers S v))) w"
proof -
  let ?d = "db_at (nwire (native_of w)) p"
  have da: "snd (canswers S w) a = ?d" using p by (simp add: canswers_def nanswers_def through_def)
  have f: "wp (f (Some p)) (\<lambda>r n. db_at (nwire n) = db_at (nwire (native_of w)) \<and>
      (case ?d of None \<Rightarrow> r = - 10000 | Some d \<Rightarrow> hist n = E d # hist (native_of w) \<and> r = r_int S (hist n))) (native_of w)"
    using assms(1) unfolding connection_call_def with_conn_def db_int_def db_call_def log_call_def fail_ub_def
    by (auto simp: wp_simps nwire_def split: option.split)
  show ?thesis
    unfolding wp_bind csN_def wp_zoom
  proof (rule wp_mono [OF f], goal_cases)
    case (1 r n)
    let ?u = "w\<lparr>native_of := n\<rparr>"
    have u: "conn_ptr (gconns ?u a) = Some p" "db_at (nwire (native_of ?u)) p = ?d"
      using p 1 by simp_all
    have same: "snd (canswers S ?u) = snd (canswers S w)"
      using 1 by (simp add: canswers_def nanswers_def)
    have heard: "fst (canswers S ?u) d = (E d, reported S d (hist n)) # fst (canswers S w) d" if "?d = Some d" for d
      using 1 that assms(1) by (simp add: canswers_def nanswers_def connection_call_def)
    show ?case
      by (rule wp_mono [OF wp_check_result [OF u]])
        (use 1 same heard da in \<open>auto simp: told_def reported_def Let_def split: option.splits if_splits\<close>)
  qed
qed

lemma wp_csN_undisturbed:
  assumes "nhush S m"
  shows "wp (csN m) (\<lambda>_ v. canswers S v = canswers S w \<and> gconns v = gconns w) w"
proof -
  have "wp m (\<lambda>_ n. nanswers S n = nanswers S (native_of w)) (native_of w)"
    using assms unfolding nhush_def stays_def by blast
  then show ?thesis
    unfolding csN_def wp_zoom by (rule wp_mono) (simp add: canswers_def)
qed

lemma wp_csConn_call:
  assumes "connection_call S f E"
  shows "wp (csConn_call S (Some a) f) (\<lambda>r v. snd (canswers S v) = snd (canswers S w) \<and>
    told S (snd (canswers S w) a) E r (fst (canswers S w)) (fst (canswers S v))) w"
  unfolding csConn_call_def with_open_conn_def option.case cs_locked_def wp_bind [of "csN (acquire l)" for l]
proof (rule wp_mono [OF wp_csN_undisturbed [OF nhush_calls(1), where S = S]], goal_cases)
  case (1 x v)
  let ?Q = "\<lambda>r u. snd (canswers S u) = snd (canswers S w) \<and>
    told S (snd (canswers S w) a) E r (fst (canswers S w)) (fst (canswers S u))"
  have unlock: "wp (csN (release (LCsConn a)) \<bind> (\<lambda>_. State_Monad.return r)) ?Q u" if "?Q r u" for r u
    unfolding wp_bind wp_basic by (rule wp_mono [OF wp_csN_undisturbed [OF nhush_calls(2), where S = S]]) (use that in simp)
  have "wp (gets (\<lambda>w. conn_ptr (gconns w a)) \<bind> (\<lambda>p. if p = None then throw CsClosed else csN (f p) \<bind> check_result S a))
      (\<lambda>r. wp (csN (release (LCsConn a)) \<bind> (\<lambda>_. State_Monad.return r)) ?Q) v"
  proof (cases "conn_ptr (gconns v a)")
    case None
    have "?Q (Inl CsClosed) v" using 1 by (simp add: told_def)
    then show ?thesis using unlock by (simp add: None wp_bind [where m = "gets g" for g] wp_basic)
  next
    case (Some p)
    have "wp (csN (f (Some p)) \<bind> check_result S a) ?Q v"
      by (rule wp_mono [OF wp_call_told [OF assms Some]]) (use 1 in simp)
    then show ?thesis
      by (simp add: Some wp_bind [where m = "gets g" for g] wp_basic) (erule wp_mono, rule unlock)
  qed
  then show ?case unfolding wp_bind .
qed

section \<open>Calls of the public package\<close>

text \<open>
  \<open>replied S d E r x y\<close>: between \<open>x\<close> and \<open>y\<close> no connection changed its handle, and when the call succeeded, or
  failed because no database is selected, it was the one call made on the session, sent on \<open>d\<close> and answered
  with 0 or 7030.
\<close>

definition replied :: "sdk \<Rightarrow> nat option \<Rightarrow> (nat \<Rightarrow> event) \<Rightarrow> gerror + unit \<Rightarrow> core \<Rightarrow> core \<Rightarrow> bool" where
  "replied S dopt E r x y \<longleftrightarrow> sdk_db y = sdk_db x \<and>
     (case r of
        Inl e \<Rightarrow> isNoDatabaseSelected e \<longrightarrow> (\<exists>d. dopt = Some d \<and> heard S y d = (E d, 7030) # heard S x d)
      | Inr _ \<Rightarrow> \<exists>d. dopt = Some d \<and> heard S y d = (E d, 0) # heard S x d)"

lemma replied_undisturbed: "undisturbed S w v \<Longrightarrow> undisturbed S y z \<Longrightarrow> replied S d E r v y \<Longrightarrow> replied S d E r w z"
  by (auto simp: replied_def undisturbed_def split: sum.splits)

lemma replied_refuse: "undisturbed S w v \<Longrightarrow> \<not> isNoDatabaseSelected e \<Longrightarrow> replied S d E (Inl e) w v"
  by (simp add: replied_def undisturbed_def)

lemma not_no_database [simp]:
  "\<not> isNoDatabaseSelected ErrInvalidArgument" "\<not> isNoDatabaseSelected ErrClosed" "\<not> isNoDatabaseSelected ErrBusy"
  "\<not> isNoDatabaseSelected ErrTxDone" "\<not> isNoDatabaseSelected CtxCanceled" "\<not> isNoDatabaseSelected CtxDeadlineExceeded"
  by (simp_all add: isNoDatabaseSelected_def)

text \<open>A context whose error is not the server's\<close>

definition own_error :: "ctx \<Rightarrow> bool" where
  "own_error ctx \<longleftrightarrow> (\<forall>n e. ctx = CancelAt n e \<longrightarrow> \<not> isNoDatabaseSelected e)"

lemma wp_coE_replied:
  assumes f: "connection_call S f E"
  shows "wp (coE (csConn_call S (Some a) f))
    (\<lambda>r y. replied S (snd (canswers S (csdk_of w)) a) E r w y \<and> conns y = conns w \<and> txs y = txs w) w"
proof -
  let ?d = "snd (canswers S (csdk_of w)) a"
  have told: "replied S ?d E (case r of Inl e \<Rightarrow> Inl (publicError e) | Inr v \<Rightarrow> Inr v) w (w\<lparr>csdk_of := v\<rparr>)"
    if "snd (canswers S v) = snd (canswers S (csdk_of w))" "told S ?d E r (fst (canswers S (csdk_of w))) (fst (canswers S v))" for r v
  proof -
    have "sdk_db (w\<lparr>csdk_of := v\<rparr>) = sdk_db w"
      by (rule ext) (simp add: core_view(2) [where S = S] that(1))
    then show ?thesis
      using that(2) by (auto simp: replied_def told_def core_view(1) isNoDatabaseSelected_def split: sum.splits)
  qed
  show ?thesis
    unfolding coE_def wp_mapE coC_def wp_zoom
    by (rule wp_mono [OF wp_csConn_call [OF f]]) (use told in simp)
qed

lemma wp_guarded_replied:
  assumes ctx: "own_error ctx"
    and call: "\<And>a v. wp (k (Some a)) (\<lambda>r y. replied S (snd (canswers S (csdk_of v)) a) E r v y) v"
  shows "wp (tryE (contextError ctx) (\<lambda>_. with_conn_locked (Some c) busy (\<lambda>_ native. tryE (contextError ctx) (\<lambda>_. k native))))
    (\<lambda>r y. replied S (sdk_db w c) E r w y) w"
proof -
  have own: "\<not> isNoDatabaseSelected e" if "e = ErrInvalidArgument \<or> (\<exists>n. ctx = CancelAt n e)" for e
    using that ctx by (auto simp: own_error_def)
  have body: "wp (tryE (contextError ctx) (\<lambda>_. k (Some a))) (\<lambda>r y. \<forall>z. undisturbed S y z \<longrightarrow> replied S (sdk_db w c) E r w z) v"
    if v: "undisturbed S w v" "conns v = conns w" and a: "conn_native (conns w c) = Some a" for v a
    unfolding wp_tryE
  proof (rule wp_contextError_undisturbed [where S = S], goal_cases)
    case (1 r u)
    have wu: "undisturbed S w u" "conns u = conns w" using v 1 by (auto intro: undisturbed_trans)
    have d: "snd (canswers S (csdk_of u)) a = sdk_db w c"
      using wu a core_view(2) [of u c S] by (simp add: undisturbed_def through_def)
    show ?case
    proof (cases r)
      case (Inl e)
      with 1 wu own show ?thesis by (auto intro: replied_refuse undisturbed_trans)
    next
      case (Inr x)
      have "wp (k (Some a)) (\<lambda>r y. \<forall>z. undisturbed S y z \<longrightarrow> replied S (sdk_db w c) E r w z) u"
        by (rule wp_mono [OF call]) (use wu d in \<open>auto intro: replied_undisturbed\<close>)
      with Inr show ?thesis by simp
    qed
  qed
  show ?thesis
    unfolding wp_tryE
  proof (rule wp_contextError_undisturbed [where S = S], goal_cases)
    case (1 r v)
    show ?case
    proof (cases r)
      case (Inl e)
      with 1 own show ?thesis by (auto intro: replied_refuse)
    next
      case (Inr x)
      have "wp (with_conn_locked (Some c) busy (\<lambda>_ native. tryE (contextError ctx) (\<lambda>_. k native)))
          (\<lambda>r y. replied S (sdk_db w c) E r w y) v"
        unfolding with_conn_locked_def option.case
      proof (rule wp_co_locked_undisturbed [where S = S], goal_cases)
        case (1 u)
        with \<open>undisturbed S w v\<close> \<open>conns v = conns w\<close> have u: "undisturbed S w u" "conns u = conns w" by (auto intro: undisturbed_trans)
        show ?case
          by (cases "conn_native (conns w c)")
            (use u body in \<open>auto simp: wp_bind wp_basic wp_if intro: replied_refuse undisturbed_trans\<close>)
      qed
      with Inr show ?thesis by simp
    qed
  qed
qed

lemma rollback_replied:
  assumes "own_error ctx"
  shows "wp (Conn_RollbackContext S ctx (Some c)) (\<lambda>r y. replied S (sdk_db w c) ERollback r w y) w"
  unfolding Conn_RollbackContext_def finishImplicit_def if_False csConn_Rollback_def
  by (rule wp_guarded_replied [OF assms]) (rule wp_mono [OF wp_coE_replied [OF connection_calls(2)]], simp)

lemma set_database_replied:
  assumes "own_error ctx"
  shows "wp (Conn_SetDatabaseContext S ctx (Some c) name)
    (\<lambda>r y. replied S (sdk_db w c) (\<lambda>d. ESetDatabase d (if name \<noteq> [] then Some (c_string name) else None)) r w y) w"
  unfolding Conn_SetDatabaseContext_def csConn_SetDatabase_def Let_def
  by (rule wp_guarded_replied [OF assms]) (rule wp_mono [OF wp_coE_replied [OF connection_calls(1)]], simp)

text \<open>The rollback of a transaction goes to the session of the connection it was begun on.\<close>

definition tx_replied :: "sdk \<Rightarrow> nat \<Rightarrow> gerror + unit \<Rightarrow> core \<Rightarrow> core \<Rightarrow> bool" where
  "tx_replied S t r x y \<longleftrightarrow> sdk_db y = sdk_db x \<and>
     (case r of Inl _ \<Rightarrow> True | Inr _ \<Rightarrow> \<exists>c d. tx_conn (txs x t) = Some c \<and> sdk_db x c = Some d \<and>
        heard S y d = (ERollback d, 0) # heard S x d)"

lemma tx_replied_undisturbed:
  "undisturbed S w v \<Longrightarrow> txs v = txs w \<Longrightarrow> undisturbed S y z \<Longrightarrow> tx_replied S t r v y \<Longrightarrow> tx_replied S t r w z"
  by (auto simp: tx_replied_def undisturbed_def split: sum.splits)

lemma tx_replied_refuse: "undisturbed S w v \<Longrightarrow> tx_replied S t (Inl e) w v"
  by (simp add: tx_replied_def undisturbed_def)

lemma tx_done_undisturbed: "undisturbed S y (y\<lparr>conns := (conns y)(c := (conns y c)\<lparr>txActive := False\<rparr>), txs := X\<rparr>)"
  by (simp add: undisturbed_def heard_def fun_eq_iff core_view(2) [where S = S] through_def)

lemma wp_tx_call:
  assumes a: "conn_native (conns w c) = Some a" and t: "tx_conn (txs w t) = Some c"
  shows "wp (tryE (coE (csConn_Rollback S (Some a))) (\<lambda>_. do {
      _ \<leftarrow> upd_conn c (\<lambda>z. z\<lparr>txActive := False\<rparr>);
      _ \<leftarrow> upd_tx t (\<lambda>_. \<lparr>tx_conn = None, tx_done = True\<rparr>);
      ok () })) (\<lambda>r y. tx_replied S t r w y) w"
proof -
  have d: "snd (canswers S (csdk_of w)) a = sdk_db w c"
    using a by (simp add: core_view(2) [where S = S] through_def)
  have told: "tx_replied S t (Inr ()) w y" if "replied S (sdk_db w c) ERollback (Inr ()) w y" for y
    using that t by (auto simp: replied_def tx_replied_def)
  show ?thesis
    unfolding wp_tryE csConn_Rollback_def
  proof (rule wp_mono [OF wp_coE_replied [OF connection_calls(2)]], goal_cases)
    case (1 r y)
    then have y: "replied S (sdk_db w c) ERollback r w y" by (simp add: d)
    show ?case
    proof (cases r)
      case (Inl e)
      with y show ?thesis by (simp add: replied_def tx_replied_def)
    next
      case (Inr u)
      with y have "tx_replied S t (Inr ()) w y" by (intro told) simp
      then have "tx_replied S t (Inr ()) w (y\<lparr>conns := (conns y)(c := (conns y c)\<lparr>txActive := False\<rparr>), txs := X\<rparr>)" for X
        by (rule tx_replied_undisturbed [OF undisturbed_refl refl tx_done_undisturbed])
      then show ?thesis
        by (simp add: Inr upd_conn_def upd_tx_def wp_bind wp_basic wp_simps)
    qed
  qed
qed

lemma tx_rollback_replied: "wp (Tx_RollbackContext S ctx (Some t)) (\<lambda>r y. tx_replied S t r w y) w"
proof -
  have call: "wp (tryE (contextError ctx) (\<lambda>_. tryE (coE (csConn_Rollback S (Some a))) (\<lambda>_. do {
      _ \<leftarrow> upd_conn c (\<lambda>z. z\<lparr>txActive := False\<rparr>);
      _ \<leftarrow> upd_tx t (\<lambda>_. \<lparr>tx_conn = None, tx_done = True\<rparr>);
      ok () }))) (\<lambda>r y. tx_replied S t r v y) v"
    if "conn_native (conns v c) = Some a" "tx_conn (txs v t) = Some c" for v c a
    unfolding wp_tryE [of "contextError ctx"]
  proof (rule wp_contextError_undisturbed [where S = S], goal_cases)
    case (1 r u)
    have "conn_native (conns u c) = Some a" "tx_conn (txs u t) = Some c" using that 1 by simp_all
    from wp_tx_call [OF this, of S] 1 show ?case
      by (cases r) (auto intro: tx_replied_refuse tx_replied_undisturbed [OF _ _ undisturbed_refl] elim!: wp_mono)
  qed
  have conn: "wp (co_locked (LConn c) (do {
        y \<leftarrow> gets (\<lambda>w. conns w c);
        (if conn_native y = None then throw ErrClosed
         else if \<not> txActive y then throw ErrTxDone
         else if children y \<noteq> 0 then throw ErrBusy
         else tryE (contextError ctx) (\<lambda>_.
           tryE (coE (csConn_Rollback S (conn_native y))) (\<lambda>_. do {
             _ \<leftarrow> upd_conn c (\<lambda>z. z\<lparr>txActive := False\<rparr>);
             _ \<leftarrow> upd_tx t (\<lambda>_. \<lparr>tx_conn = None, tx_done = True\<rparr>);
             ok () }))) })) (\<lambda>r y. tx_replied S t r v y) v"
    if "tx_conn (txs v t) = Some c" for v c
  proof (rule wp_co_locked_undisturbed [where S = S], goal_cases)
    case (1 u)
    with call [of u c] that show ?case
      by (auto simp: wp_bind wp_basic wp_if intro: tx_replied_refuse undisturbed_trans tx_replied_undisturbed elim!: wp_mono)
  qed
  show ?thesis
    unfolding Tx_RollbackContext_def Tx_finish_def if_False option.case wp_tryE [of "contextError ctx" "\<lambda>_. co_locked l b" for l b]
  proof (rule wp_contextError_undisturbed [where S = S], goal_cases)
    case (1 r v)
    have "wp (co_locked (LTx t) (do {
          x \<leftarrow> gets (\<lambda>w. txs w t);
          (case tx_conn x of
             None \<Rightarrow> throw ErrTxDone
           | Some c \<Rightarrow>
               (if tx_done x then throw ErrTxDone
                else co_locked (LConn c) (do {
                  y \<leftarrow> gets (\<lambda>w. conns w c);
                  (if conn_native y = None then throw ErrClosed
                   else if \<not> txActive y then throw ErrTxDone
                   else if children y \<noteq> 0 then throw ErrBusy
                   else tryE (contextError ctx) (\<lambda>_.
                     tryE (coE (csConn_Rollback S (conn_native y))) (\<lambda>_. do {
                       _ \<leftarrow> upd_conn c (\<lambda>z. z\<lparr>txActive := False\<rparr>);
                       _ \<leftarrow> upd_tx t (\<lambda>_. \<lparr>tx_conn = None, tx_done = True\<rparr>);
                       ok () }))) }))) })) (\<lambda>r y. tx_replied S t r w y) v"
    proof (rule wp_co_locked_undisturbed [where S = S], goal_cases)
      case (1 u)
      with \<open>undisturbed S w v\<close> \<open>txs v = txs w\<close> have u: "undisturbed S w u" "txs u = txs w"
        by (auto intro: undisturbed_trans)
      with conn [of u] show ?case
        by (auto simp: wp_bind wp_basic wp_if split: option.split
            intro: tx_replied_refuse undisturbed_trans tx_replied_undisturbed [OF u] elim!: wp_mono)
    qed
    with 1 show ?case by (cases r) (auto intro: tx_replied_refuse)
  qed
qed

end
