(* ===== verification/Cube_Adapter_Reset.thy ===== *)
theory Cube_Adapter_Reset
  imports Cube_Adapter_Session Cube_Core_Identity Cube_Reply
begin

text \<open>
  Resetting a pooled connection before it is reused: what is sent on which session, what the server answered,
  and what is left. The transaction a connection is in was begun on that connection, in every reachable state.
\<close>

section \<open>A connection's transaction is its own\<close>

text \<open>With the pooled connections \<open>A\<close>: the active transaction of each exists and, unless over, is on its connection.\<close>

definition tied_to :: "(nat \<Rightarrow> adconn) \<Rightarrow> objects \<Rightarrow> bool" where
  "tied_to A = (\<lambda>(C, R, T, X, n). \<forall>a t. activeTx (A a) = Some t \<longrightarrow>
     t < n \<and> (tx_conn (X t) = None \<or> ad_native (A a) = None \<or> tx_conn (X t) = ad_native (A a)))"

interpretation tie: object_frame "\<lambda>_. True" "tied_to A" for A
  by unfold_locales (auto simp: tied_to_def intro: less_SucI)

definition tied :: "adapter \<Rightarrow> bool" where
  "tied w \<longleftrightarrow> tie.inv (adconns w) (core_of w)"

lemma tied_adC:
  assumes "\<And>A. stays (tie.inv A) m"
  shows "stays tied (adC m)"
proof (rule staysI)
  fix w assume "tied w"
  with assms have "wp m (\<lambda>_. tie.inv (adconns w)) (core_of w)" by (simp add: tied_def stays_def)
  then show "wp (adC m) (\<lambda>_. tied) w"
    unfolding adC_def wp_zoom by (rule wp_mono) (simp add: tied_def)
qed

text \<open>Assignments to a pooled connection that keep this: a transaction or a handle may only be dropped.\<close>

definition drops :: "adconn \<Rightarrow> adconn \<Rightarrow> bool" where
  "drops x y \<longleftrightarrow> activeTx y = None \<or>
     activeTx y = activeTx x \<and> (ad_native y = ad_native x \<or> ad_native y = None)"

lemma tied_to_drops:
  assumes "tied_to A w" "drops (A a) y"
  shows "tied_to (A(a := y)) w"
proof -
  obtain C R T X n where w: "w = (C, R, T, X, n)" by (cases w)
  have old: "t < n \<and> (tx_conn (X t) = None \<or> ad_native (A b) = None \<or> tx_conn (X t) = ad_native (A b))"
    if "activeTx (A b) = Some t" for b t
    using assms(1) that by (simp add: w tied_to_def)
  show ?thesis
    unfolding w tied_to_def prod.case
  proof (intro allI impI)
    fix b t assume "activeTx ((A(a := y)) b) = Some t"
    then show "t < n \<and> (tx_conn (X t) = None \<or> ad_native ((A(a := y)) b) = None \<or> tx_conn (X t) = ad_native ((A(a := y)) b))"
      using assms(2) old [of b t] by (auto simp: drops_def split: if_splits)
  qed
qed

lemma tied_upd:
  "(\<And>x. drops x (f x)) \<Longrightarrow> stays tied (upd_adconn a f)" "stays tied (upd_adstmt s g)" "stays tied (upd_adtx t h)"
  "stays tied (upd_adrows r k)" "stays tied ad_new"
  by (simp_all add: stays_def upd_adconn_def upd_adstmt_def upd_adtx_def upd_adrows_def ad_new_def wp_simps tied_def
      tie.inv_def tied_to_drops)

lemma tied_locked: "stays tied body \<Longrightarrow> stays tied (ad_locked l body)"
  unfolding ad_locked_def by (intro stays_control tied_adC tie.stays_coC)

lemmas tied_control = tied_locked tied_upd tied_adC stays_control

lemma tied_helpers:
  "stays tied (usableLocked b)" "stays tied (observeLocked b e)" "stays tied (safeRetryErrorLocked b err)"
  "stays tied (observed b err)" "stays tied (observed_retry b err)" "stays tied (observe c e)"
  "stays tied (finishTransaction b n p q)"
  unfolding usableLocked_def observed_def observed_retry_def observeLocked_def safeRetryErrorLocked_def observe_def
    finishTransaction_def
  by (intro tied_control; simp add: drops_def)+

lemma tied_next: "stays (tie.inv A) (Rows_NextContext S ctx r)"
  by (rule tie.stays_next) simp

lemma tied_conn:
  "stays tied (conn_PrepareContext S ctx b query)" "stays tied (conn_Close S c)" "stays tied (conn_Ping S ctx b)"
  "stays tied (conn_IsValid c)" "stays tied (conn_ResetSession S ctx b)"
  "stays tied (conn_ExecContext S ctx b query args)" "stays tied (conn_QueryContext S ctx b query args)"
  "stays tied (Connect S ctx cfg)"
  unfolding conn_PrepareContext_def conn_Close_def conn_Ping_def conn_IsValid_def
    conn_ResetSession_def conn_ExecContext_def conn_QueryContext_def ad_newRows_def Let_def Connect_def
    Tx_RollbackContext_def Conn_RollbackContext_def Conn_CommitContext_def
  by (intro tied_control tied_helpers tie.frame_methods; simp add: drops_def)+

lemma tied_next_columns: "stays tied (next_columns G S b native column ds)"
  by (induction ds arbitrary: column)
    (auto intro!: stays_control tied_adC tied_helpers tie.frame_methods simp: Rows_Value_def split: sum.split)

text \<open>Only \<^verbatim>\<open>BeginTx\<close> gives a connection a transaction: one that was just begun on it.\<close>

definition begun_on :: "nat option \<Rightarrow> gerror + nat \<Rightarrow> core \<Rightarrow> bool" where
  "begun_on conn r w \<longleftrightarrow> (case r of Inl _ \<Rightarrow> True | Inr t \<Rightarrow> t < co_next w \<and> tx_conn (txs w t) = conn)"

lemma wp_begun: "wp (Conn_BeginContext S ctx conn) (begun_on conn) w"
proof -
  have lock: "wp (co_locked l body) (begun_on conn) w" if "\<And>w. wp body (begun_on conn) w" for l body conn w
  proof -
    have coC: "wp (coC m) (\<lambda>_ v. txs v = txs w \<and> co_next v = co_next w) w" for m :: "(csdk, unit) state" and w
      by (simp add: coC_def wp_simps wp_run)
    show ?thesis
      unfolding co_locked_def wp_bind wp_basic
      by (rule wp_mono [OF coC], rule wp_mono [OF that], rule wp_mono [OF coC]) (auto simp: begun_on_def split: sum.splits)
  qed
  have tries: "wp (tryE m k) (begun_on conn) w" if "\<And>v w. wp (k v) (begun_on conn) w"
    for m :: "(core, gerror + unit) state" and k conn w
    unfolding wp_tryE by (subst wp_run) (simp add: begun_on_def that split: sum.split)
  have new: "wp (do { _ \<leftarrow> upd_conn c f; t \<leftarrow> co_new; _ \<leftarrow> upd_tx t (\<lambda>_. \<lparr>tx_conn = conn, tx_done = False\<rparr>); ok t }) (begun_on conn) w"
    for c f conn w
    by (simp add: upd_conn_def co_new_def upd_tx_def wp_bind wp_basic wp_simps begun_on_def)
  show ?thesis
    unfolding Conn_BeginContext_def with_conn_locked_def
    by (cases conn) (auto simp: wp_bind [where m = "gets f" for f] wp_basic wp_if begun_on_def intro!: tries lock new [simplified])
qed

lemma tied_Begin: "stays tied (conn_BeginTx S ctx a ro lvl)"
proof -
  let ?enter = "\<lambda>native. do {
      _ \<leftarrow> upd_adconn a (\<lambda>y. y\<lparr>activeTx := Some native\<rparr>);
      t \<leftarrow> ad_new;
      _ \<leftarrow> upd_adtx t (\<lambda>_. \<lparr>at_connection = Some a, at_native = Some native, at_done = False\<rparr>);
      ok t }"
  have entered: "wp (?enter t) (\<lambda>_. tied) v"
    if "tied v" "begun_on (ad_native (adconns v a)) (Inr t) (core_of v)" for t v
  proof -
    obtain C R T X n where o: "objects_of (core_of v) = (C, R, T, X, n)" by (cases "objects_of (core_of v)")
    then have "X = txs (core_of v)" "n = co_next (core_of v)" by (simp_all add: objects_of_def)
    moreover have "tied_to (adconns v) (C, R, T, X, n)" using that(1) by (simp only: tied_def tie.inv_def o)
    ultimately have "tied_to ((adconns v)(a := (adconns v a)\<lparr>activeTx := Some t\<rparr>)) (objects_of (core_of v))"
      using that(2) unfolding o by (auto simp: tied_to_def begun_on_def)
    then show ?thesis
      by (simp add: upd_adconn_def ad_new_def upd_adtx_def wp_simps tied_def tie.inv_def)
  qed
  have start: "stays tied (do {
      x \<leftarrow> gets (\<lambda>w. adconns w a);
      (if activeTx x \<noteq> None then throw ErrBusy
       else catchE (adC (Conn_BeginContext S ctx (ad_native x))) (observed a) ?enter) })"
  proof (rule staysI)
    fix w assume w: "tied w"
    then have "wp (Conn_BeginContext S ctx (ad_native (adconns w a))) (\<lambda>r v. tie.inv (adconns w) v \<and>
        begun_on (ad_native (adconns w a)) r v) (core_of w)"
      using tie.stays_conn(7) by (intro wp_conj wp_begun) (simp add: tied_def stays_def)
    then have "wp (adC (Conn_BeginContext S ctx (ad_native (adconns w a)))) (\<lambda>r v. tied v \<and>
        begun_on (ad_native (adconns v a)) r (core_of v)) w"
      unfolding adC_def wp_zoom by (rule wp_mono) (simp add: tied_def)
    then have "wp (catchE (adC (Conn_BeginContext S ctx (ad_native (adconns w a)))) (observed a) ?enter) (\<lambda>_. tied) w"
      unfolding wp_catchE
      by (rule wp_mono) (use tied_helpers(4) entered in \<open>auto simp: stays_def split: sum.split\<close>)
    then show "wp (do {
      x \<leftarrow> gets (\<lambda>w. adconns w a);
      (if activeTx x \<noteq> None then throw ErrBusy
       else catchE (adC (Conn_BeginContext S ctx (ad_native x))) (observed a) ?enter) }) (\<lambda>_. tied) w"
      using w by (simp add: wp_bind [where m = "gets f" for f] wp_basic)
  qed
  show ?thesis
    unfolding conn_BeginTx_def by (intro tied_locked stays_if stays_basic stays_tryE tied_helpers start)
qed

lemma tied_others:
  "stays tied (stmt_Close st)" "stays tied (stmt_ExecContext S ctx s args)"
  "stays tied (stmt_QueryContext S ctx s args)" "stays tied (tx_Commit S t)" "stays tied (tx_Rollback S t)"
  "stays tied (rows_Close S r)" "stays tied (rows_Next G S r ds)" "stays tied (Driver_Open G S name)"
  unfolding stmt_Close_def stmt_ExecContext_def stmt_QueryContext_def with_adstmt_def tx_Commit_def tx_Rollback_def
    with_adtx_def rows_Close_def rows_Next_def Driver_Open_def Rows_Next_def Tx_RollbackContext_def Tx_CommitContext_def
  by (intro tied_control tied_helpers tied_conn tied_next_columns tied_next tie.frame_methods; simp)+

lemma tied_step: "stays tied (ad_step G S op)"
  by (cases op; simp only: ad_step.simps; intro stays_unit tied_conn tied_Begin tied_others)

lemma tied_run: "tied (run_ops (ad_step G S) ops adapter_init)"
proof -
  have "tied (run_ops (ad_step G S) ops w)" if "tied w" for w
    using that
  proof (induction ops arbitrary: w)
    case (Cons op ops)
    then show ?case using tied_step [of G S op] by (simp add: run_ops_def stays_def wp_run)
  qed (simp add: run_ops_def)
  moreover have "tied adapter_init"
    by (simp add: tied_def tie.inv_def objects_of_def adapter_init_def) (simp add: tied_to_def)
  ultimately show ?thesis .
qed

lemma tied_tx:
  assumes "tied w" "activeTx (adconns w a) = Some t" "tx_conn (txs (core_of w) t) = Some c'" "ad_native (adconns w a) = Some c"
  shows "c' = c"
proof -
  have "tied_to (adconns w) (objects_of (core_of w))" using assms(1) by (simp add: tied_def tie.inv_def)
  with assms(2-4) show ?thesis by (fastforce simp: tied_to_def objects_of_def)
qed

section \<open>What a reset hears\<close>

lemma wp_adC_core: "wp m (\<lambda>r y. \<forall>v. adconns v = adconns w \<longrightarrow> core_of v = y \<longrightarrow> Q r v) (core_of w) \<Longrightarrow> wp (adC m) Q w"
  unfolding adC_def wp_zoom by (erule wp_mono) simp

lemma wp_ad_locked_heard:
  assumes stable: "\<And>r v u. Q r v \<Longrightarrow> undisturbed S (core_of v) (core_of u) \<Longrightarrow> adconns u = adconns v \<Longrightarrow> Q r u"
    and body: "\<And>v. undisturbed S (core_of w) (core_of v) \<Longrightarrow> adconns v = adconns w \<Longrightarrow> txs (core_of v) = txs (core_of w) \<Longrightarrow> wp body Q v"
  shows "wp (ad_locked l body) Q w"
proof -
  have lock: "wp (adC (coC (csN m))) (\<lambda>_ v. undisturbed S (core_of w) (core_of v) \<and> adconns v = adconns w \<and>
      txs (core_of v) = txs (core_of w)) w" if "nhush S m" for m :: "(native, unit) state" and w
    by (rule wp_adC_core, rule wp_mono [OF wp_coC_undisturbed [OF that]]) simp
  show ?thesis
    unfolding ad_locked_def wp_bind wp_basic
  proof (rule wp_mono [OF lock [OF nhush_calls(1)]], goal_cases)
    case (1 r v)
    then have "wp body Q v" by (intro body) simp_all
    then show ?case
      by (rule wp_mono) (rule wp_mono [OF lock [OF nhush_calls(2)]], auto intro: stable)
  qed
qed

definition reset_name :: "adconn \<Rightarrow> string option" where
  "reset_name x = (if database x \<noteq> [] then Some (c_string (database x)) else None)"

text \<open>After the rollback of the transaction, if there was one\<close>

definition tx_gone :: "sdk \<Rightarrow> adapter \<Rightarrow> nat \<Rightarrow> adapter \<Rightarrow> bool" where
  "tx_gone S w a y \<longleftrightarrow> adconns y = (adconns w)(a := (adconns w a)\<lparr>activeTx := None\<rparr>) \<and>
     sdk_db (core_of y) = sdk_db (core_of w) \<and>
     (\<forall>d. session w a = Some d \<longrightarrow> heard S (core_of y) d =
        (if activeTx (adconns w a) = None then [] else [(ERollback d, 0)]) @ heard S (core_of w) d)"

definition reset_post :: "sdk \<Rightarrow> adapter \<Rightarrow> nat \<Rightarrow> gerror + unit \<Rightarrow> adapter \<Rightarrow> bool" where
  "reset_post S w a r y \<longleftrightarrow> (case r of
     Inl e \<Rightarrow> e = ErrBadConn \<and> (\<exists>x. adconns y = (adconns w)(a := x) \<and> unusable x)
   | Inr _ \<Rightarrow> \<not> unusable (adconns w a) \<and> adconns y = (adconns w)(a := (adconns w a)\<lparr>activeTx := None\<rparr>) \<and>
       (\<exists>d c. session w a = Some d \<and> c \<in> {0, 7030} \<and>
          heard S (core_of y) d = [(ESetDatabase d (reset_name (adconns w a)), 0), (ERollback d, c)] @
            (if activeTx (adconns w a) = None then [] else [(ERollback d, 0)]) @ heard S (core_of w) d))"

lemma reset_post_stable:
  "reset_post S w a r v \<Longrightarrow> undisturbed S (core_of v) (core_of u) \<Longrightarrow> adconns u = adconns v \<Longrightarrow> reset_post S w a r u"
  by (auto simp: reset_post_def undisturbed_def split: sum.splits)

lemma reset_broken:
  assumes "\<exists>x. adconns v = (adconns w)(a := x)"
  shows "wp (do { _ \<leftarrow> upd_adconn a (\<lambda>y. y\<lparr>broken := True\<rparr>); throw ErrBadConn }) (reset_post S w a) v"
  using assms by (auto simp: upd_adconn_def wp_bind wp_basic reset_post_def unusable_def)

lemma reset_tx:
  assumes w: "tied w" "ad_native (adconns w a) = Some c"
    and v: "undisturbed S (core_of w) (core_of v)" "adconns v = adconns w" "txs (core_of v) = txs (core_of w)"
  shows "wp (case activeTx (adconns w a) of
      None \<Rightarrow> ok ()
    | Some t \<Rightarrow> tryE (adC (Tx_RollbackContext S ctx (Some t))) (\<lambda>_. do { _ \<leftarrow> upd_adconn a (\<lambda>y. y\<lparr>activeTx := None\<rparr>); ok () }))
    (\<lambda>r y. case r of Inl _ \<Rightarrow> adconns y = adconns w | Inr _ \<Rightarrow> tx_gone S w a y) v"
proof (cases "activeTx (adconns w a)")
  case None
  then have "(adconns w a)\<lparr>activeTx := None\<rparr> = adconns w a" by (cases "adconns w a") simp
  then have "(adconns w)(a := (adconns w a)\<lparr>activeTx := None\<rparr>) = adconns w" by (simp only: fun_upd_triv)
  with None v show ?thesis by (simp add: wp_basic tx_gone_def undisturbed_def)
next
  case (Some t)
  have s: "session w a = sdk_db (core_of w) c" using w(2) by (simp add: session_def)
  have "wp (adC (Tx_RollbackContext S ctx (Some t))) (\<lambda>r y. adconns y = adconns w \<and> tx_replied S t r (core_of v) (core_of y)) v"
    by (rule wp_adC_core, rule wp_mono [OF tx_rollback_replied]) (simp add: v)
  then show ?thesis
    unfolding Some option.case wp_tryE
  proof (rule wp_mono, goal_cases)
    case (1 r y)
    show ?case
    proof (cases r)
      case (Inl e)
      with 1 show ?thesis by simp
    next
      case (Inr u)
      with 1 v obtain c' d where "tx_conn (txs (core_of w) t) = Some c'" "sdk_db (core_of w) c' = Some d"
          "heard S (core_of y) d = (ERollback d, 0) # heard S (core_of w) d" "sdk_db (core_of y) = sdk_db (core_of w)"
        by (auto simp: tx_replied_def undisturbed_def)
      moreover have "c' = c" using tied_tx [OF w(1) Some _ w(2)] calculation(1) .
      ultimately show ?thesis
        using 1 by (simp add: Inr wp_bind wp_basic upd_adconn_def tx_gone_def s Some)
    qed
  qed
qed

lemma reset_rest:
  assumes ctx: "own_error ctx" and x: "\<not> unusable (adconns w a)" "ad_native (adconns w a) = Some c"
    and v: "tx_gone S w a v"
  shows "wp (catchE (adC (Conn_RollbackContext S ctx (Some c))) (\<lambda>e. if isNoDatabaseSelected e then ok () else throw e) ok
     \<bind> (\<lambda>r. case r of Inl _ \<Rightarrow> do { _ \<leftarrow> upd_adconn a (\<lambda>y. y\<lparr>broken := True\<rparr>); throw ErrBadConn }
       | Inr _ \<Rightarrow> catchE (adC (Conn_SetDatabaseContext S ctx (Some c) (database (adconns w a))))
           (\<lambda>_. do { _ \<leftarrow> upd_adconn a (\<lambda>y. y\<lparr>broken := True\<rparr>); throw ErrBadConn }) ok)) (reset_post S w a) v"
proof -
  let ?C = "(adconns w)(a := (adconns w a)\<lparr>activeTx := None\<rparr>)"
  let ?break = "do { _ \<leftarrow> upd_adconn a (\<lambda>y. y\<lparr>broken := True\<rparr>); throw ErrBadConn } :: (adapter, gerror + unit) state"
  let ?set = "catchE (adC (Conn_SetDatabaseContext S ctx (Some c) (database (adconns w a)))) (\<lambda>_. ?break) ok"
  have d: "sdk_db (core_of w) c = session w a" using x(2) by (simp add: session_def)
  have broken: "wp ?break (reset_post S w a) y" if "adconns y = ?C" for y
    by (rule reset_broken) (use that in blast)
  have set: "wp ?set (reset_post S w a) u"
    if u: "adconns u = ?C" "sdk_db (core_of u) = sdk_db (core_of w)"
      and heard: "session w a = Some d" "b \<in> {0, 7030}" "heard S (core_of u) d = (ERollback d, b) #
        (if activeTx (adconns w a) = None then [] else [(ERollback d, 0)]) @ heard S (core_of w) d" for u d b
    unfolding wp_catchE
  proof (rule wp_adC_core, rule wp_mono [OF set_database_replied [OF ctx]], goal_cases)
    case (1 r y)
    then show ?case
      using u heard d x(1) broken by (cases r) (auto simp: wp_basic replied_def reset_post_def reset_name_def)
  qed
  have "wp (catchE (adC (Conn_RollbackContext S ctx (Some c))) (\<lambda>e. if isNoDatabaseSelected e then ok () else throw e) ok)
      (\<lambda>r y. adconns y = ?C \<and> (r = Inr () \<longrightarrow> sdk_db (core_of y) = sdk_db (core_of w) \<and>
        (\<exists>d b. session w a = Some d \<and> b \<in> {0, 7030} \<and> heard S (core_of y) d = (ERollback d, b) # heard S (core_of v) d))) v"
    unfolding wp_catchE
  proof (rule wp_adC_core, rule wp_mono [OF rollback_replied [OF ctx]], goal_cases)
    case (1 r y)
    then show ?case
      using v d by (cases r) (auto simp: wp_basic wp_if replied_def tx_gone_def)
  qed
  then show ?thesis
    unfolding wp_bind [where m = "catchE m h k" for m h k]
  proof (rule wp_mono, goal_cases)
    case (1 r y)
    show ?case
    proof (cases r)
      case (Inl e)
      with 1 broken show ?thesis by simp
    next
      case (Inr u)
      with 1 obtain d b where "session w a = Some d" "b \<in> {0, 7030}" "heard S (core_of y) d = (ERollback d, b) # heard S (core_of v) d"
          "adconns y = ?C" "sdk_db (core_of y) = sdk_db (core_of w)"
        by auto
      with v show ?thesis unfolding Inr sum.case by (intro set) (auto simp: tx_gone_def)
    qed
  qed
qed

lemma reset_posts:
  assumes w: "tied w" and ctx: "own_error ctx"
  shows "wp (conn_ResetSession S ctx a) (reset_post S w a) w"
  unfolding conn_ResetSession_def
proof (rule wp_ad_locked_heard [OF reset_post_stable], assumption, assumption, assumption, goal_cases)
  case (1 v)
  let ?break = "do { _ \<leftarrow> upd_adconn a (\<lambda>y. y\<lparr>broken := True\<rparr>); throw ErrBadConn } :: (adapter, gerror + unit) state"
  show ?case
  proof (cases "unusable (adconns w a)")
    case True
    then show ?thesis
      unfolding wp_bind wp_basic \<open>adconns v = adconns w\<close>
      by (auto simp: unusable_def Let_def wp_basic reset_post_def \<open>adconns v = adconns w\<close> intro!: exI [of _ "adconns w a"])
  next
    case False
    then obtain c where n: "ad_native (adconns w a) = Some c" by (auto simp: unusable_def)
    have u: "(closed (adconns w a) \<or> Some c = None \<or> broken (adconns w a)) = False"
      using False by (simp add: unusable_def)
    show ?thesis
      unfolding wp_bind [where m = "gets f" for f] wp_basic \<open>adconns v = adconns w\<close> n u if_False Let_def
        wp_catchE [where h = "\<lambda>_. ?break" and k = "\<lambda>_. State_Monad.bind m k" for m k]
    proof (rule wp_mono [OF reset_tx [OF w n 1]], goal_cases)
      case (1 r y)
      show ?case
      proof (cases r)
        case (Inl e)
        with 1 show ?thesis by (simp only: sum.case) (rule reset_broken, metis fun_upd_triv)
      next
        case (Inr u)
        with 1 show ?thesis unfolding Inr sum.case by (intro reset_rest [OF ctx False n]) simp
      qed
    qed
  qed
qed

text \<open>C8: What \<^verbatim>\<open>ResetSession\<close> guarantees before a pooled connection is reused. In every reachable state and with
  any context, when it succeeds the connection was usable and still is, it has no active transaction, and the calls
  made that act on its session, with the codes the server gave, are exactly: the rollback of its transaction,
  if it had one, answered with success; a rollback of any implicit work, answered with success or with 7030, no
  database selected; and the selection of the connector's own database, answered with success. So when a rollback
  or the selection is answered otherwise, or cannot be sent, it fails. When it fails, the error is
  \<^verbatim>\<open>driver.ErrBadConn\<close> and the connection is unusable from then on, whatever went wrong. In both cases no other
  pooled connection changes.\<close>

theorem reset_session:
  "let w = run_ops (ad_step G S) ops adapter_init; x = adconns w a;
       name = (if database x \<noteq> [] then Some (c_string (database x)) else None) in
   list_all (\<lambda>ctx. let (r, w') = run_state (conn_ResetSession S ctx a) w in
     case r of
       Inr _ \<Rightarrow> \<not> unusable x \<and> adconns w' = (adconns w)(a := x\<lparr>activeTx := None\<rparr>) \<and>
         (\<exists>d code. session w a = Some d \<and> code \<in> {0, 7030} \<and>
            heard S (core_of w') d = [(ESetDatabase d name, 0), (ERollback d, code)] @
              (if activeTx x = None then [] else [(ERollback d, 0)]) @ heard S (core_of w) d)
     | Inl e \<Rightarrow> e = ErrBadConn \<and> (\<exists>y. adconns w' = (adconns w)(a := y) \<and> unusable y))
     [NilCtx, Background, CancelAt n CtxCanceled, CancelAt n CtxDeadlineExceeded]"
proof -
  let ?w = "run_ops (ad_step G S) ops adapter_init"
  have post: "case run_state (conn_ResetSession S ctx a) ?w of (r, w') \<Rightarrow> reset_post S ?w a r w'"
    if "ctx \<in> set (caller_contexts n)" for ctx
    using reset_posts [OF tied_run, of ctx S a G S ops] that by (auto simp: own_error_def caller_contexts_def wp_def)
  show ?thesis
    unfolding Let_def list_all_iff caller_contexts_def [symmetric]
  proof (rule ballI, goal_cases)
    case (1 ctx)
    from post [OF this] show ?case
      unfolding reset_post_def reset_name_def by simp
  qed
qed

end
