(* ===== verification/Cube_Adapter_Connect.thy ===== *)
theory Cube_Adapter_Connect
  imports Cube_Adapter_Run Cube_Core_Effects
begin

text \<open>Opening a pooled connection: \<^verbatim>\<open>Connector.Connect\<close> opens one connection completely or leaves none behind.\<close>

section \<open>Opening and closing again in the public package\<close>

text \<open>The state after opening public connection \<open>c\<close> on native connection \<open>p\<close>.\<close>

definition dialled :: "acore \<Rightarrow> nat \<Rightarrow> nat \<Rightarrow> acore" where
  "dialled A c p = A\<lparr>a_view := (a_view A)\<lparr>kopen := (kopen (a_view A))(p := True)\<rparr>, a_next := Suc (a_next A),
     a_conns := (a_conns A)(c := \<lparr>conn_native = Some p, txActive = False, children = 0\<rparr>)\<rparr>"

lemma awp_OpenContext:
  "awp (OpenContext S ctx opts) (\<lambda>r B. case r of
     Inl _ \<Rightarrow> B = A | Inr c \<Rightarrow> c = a_next A \<and> (\<exists>p. \<not> kopen (a_view A) p \<and> B = dialled A c p)) A"
  unfolding OpenContext_def
  by (intro awp_simple awp_case_sum awp_cs_Open awp_new awp_upd) (auto simp: dialled_def)

lemma awp_SetDatabase:
  assumes "under_tx (a_held A)"
  shows "awp (Conn_SetDatabaseContext S ctx conn name) (\<lambda>_. (=) A) A"
  using frozen_conn(2) [of S ctx conn name] assms by (simp add: frozen_def keeps_def)

lemma hok_dialled: "hok A \<Longrightarrow> \<not> kopen (a_view A) p \<Longrightarrow> hok (dialled A (a_next A) p)"
  using hinv_conn_add [OF hinv_grow [OF hok_D], of A p "a_next A"] hinvD(9) [OF hok_D, of A]
  by (simp add: hok_def dialled_def fresh_objs_def)

text \<open>Failing after the connection was opened: it is closed, and only a dead object is left.\<close>

definition hung_up :: "acore \<Rightarrow> acore \<Rightarrow> bool" where
  "hung_up A B \<longleftrightarrow> a_view B = a_view A \<and> conn_native \<circ> a_conns B = conn_native \<circ> a_conns A"

lemma awp_close_dialled:
  assumes A: "hok A" "a_held A = []" "hok (dialled A (a_next A) p)" "\<not> kopen (a_view A) p"
  shows "awp (Conn_Close (Some (a_next A))) (\<lambda>_. hung_up A) (dialled A (a_next A) p)"
proof (rule awp_mono [OF awp_Conn_Close [OF A(3)]], goal_cases)
  case 1
  show ?case using A(2) by (simp add: dialled_def)
next
  case (2 r B)
  have "conn_native (a_conns A (a_next A)) = None"
    using hinvD(9) [OF hok_D [OF A(1)]] by (simp add: fresh_objs_def)
  moreover have "(kopen (a_view A))(p := False) = kopen (a_view A)" using A(4) by (simp add: fun_upd_idem)
  ultimately show ?case
    using 2 by (auto simp: dialled_def hung_up_def fun_eq_iff)
qed

section \<open>Connect\<close>

lemma wp_adC_awp:
  assumes "awp m Q A" and "csdk_ok (csdk_of (core_of w))" and "abs_core (core_of w) = A"
  shows "wp (adC m) (\<lambda>r v. csdk_ok (csdk_of (core_of v)) \<and> Q r (abs_core (core_of v)) \<and>
    adconns v = adconns w \<and> ad_next v = ad_next w) w"
  unfolding adC_def wp_zoom by (rule wp_mono [OF awpD [OF assms]]) simp

text \<open>The pooled connection a successful \<^verbatim>\<open>Connect\<close> returns.\<close>

definition fresh_conn :: "nat \<Rightarrow> config \<Rightarrow> adconn" where
  "fresh_conn c cfg = \<lparr>ad_native = Some c, database = cfg_Database cfg, activeTx = None, closed = False, broken = False\<rparr>"

definition connected :: "adapter \<Rightarrow> config \<Rightarrow> gerror + nat \<Rightarrow> adapter \<Rightarrow> bool" where
  "connected w cfg r v \<longleftrightarrow> (let A = abs_core (core_of w); B = abs_core (core_of v) in case r of
     Inl _ \<Rightarrow> adconns v = adconns w \<and> hung_up A B
   | Inr a \<Rightarrow> a = ad_next w \<and> adconns v = (adconns w)(a := fresh_conn (a_next A) cfg) \<and>
       (\<exists>p. \<not> kopen (a_view A) p \<and> B = dialled A (a_next A) p))"

lemma connect_new:
  assumes "adconns v = adconns w" "ad_next v = ad_next w" "abs_core (core_of v) = dialled (abs_core (core_of w)) c p"
    and "c = co_next (core_of w)" "\<not> kopen (cview (csdk_of (core_of w))) p"
  shows "wp (do { a \<leftarrow> ad_new; _ \<leftarrow> upd_adconn a (\<lambda>_. fresh_conn c cfg); ok a }) (connected w cfg) v"
  using assms by (auto simp: ad_new_def upd_adconn_def wp_bind wp_basic connected_def Let_def abs_core_def)

lemma connect_select:
  assumes w: "hok (abs_core (core_of w))" "held (native_of (csdk_of (core_of w))) = []"
    and v: "csdk_ok (csdk_of (core_of v))" "adconns v = adconns w" "ad_next v = ad_next w"
      "abs_core (core_of v) = dialled (abs_core (core_of w)) (co_next (core_of w)) p"
    and p: "\<not> kopen (cview (csdk_of (core_of w))) p"
  shows "wp (tryE (if cfg_Database cfg \<noteq> []
      then catchE (adC (Conn_SetDatabaseContext S ctx (Some (co_next (core_of w))) (cfg_Database cfg)))
        (\<lambda>e. do { _ \<leftarrow> adC (Conn_Close (Some (co_next (core_of w)))); throw e }) ok
      else ok ()) (\<lambda>_. do { a \<leftarrow> ad_new; _ \<leftarrow> upd_adconn a (\<lambda>_. fresh_conn (co_next (core_of w)) cfg); ok a }))
    (connected w cfg) v"
proof -
  let ?A = "abs_core (core_of w)" and ?c = "co_next (core_of w)"
  have A: "a_next ?A = ?c" "a_view ?A = cview (csdk_of (core_of w))" "a_held ?A = []"
    using w(2) by (simp_all add: abs_core_def)
  have hok: "hok (dialled ?A (a_next ?A) p)"
    by (rule hok_dialled [OF w(1)]) (use p in \<open>simp add: A\<close>)
  have new: "wp (do { a \<leftarrow> ad_new; _ \<leftarrow> upd_adconn a (\<lambda>_. fresh_conn ?c cfg); ok a }) (connected w cfg) u"
    if "adconns u = adconns w" "ad_next u = ad_next w" "abs_core (core_of u) = dialled ?A ?c p" for u
    by (rule connect_new [OF that refl p])
  have set: "wp (adC (Conn_SetDatabaseContext S ctx (Some ?c) (cfg_Database cfg))) (\<lambda>r u. csdk_ok (csdk_of (core_of u)) \<and>
      dialled ?A ?c p = abs_core (core_of u) \<and> adconns u = adconns v \<and> ad_next u = ad_next v) v"
    by (rule wp_adC_awp [OF awp_SetDatabase v(1) v(4)]) (simp add: dialled_def A)
  have close: "wp (adC (Conn_Close (Some ?c))) (\<lambda>_ u. connected w cfg (Inl e) u) u"
    if "csdk_ok (csdk_of (core_of u))" "abs_core (core_of u) = dialled ?A ?c p" "adconns u = adconns w" for u e
    by (rule wp_mono [OF wp_adC_awp [OF awp_close_dialled [OF w(1) A(3) hok], unfolded A, OF p that(1,2)]])
      (use that in \<open>simp add: connected_def\<close>)
  show ?thesis
  proof (cases "cfg_Database cfg = []")
    case True
    with new v show ?thesis by (simp add: wp_tryE wp_basic)
  next
    case False
    have "wp (catchE (adC (Conn_SetDatabaseContext S ctx (Some ?c) (cfg_Database cfg)))
        (\<lambda>e. do { _ \<leftarrow> adC (Conn_Close (Some ?c)); throw e }) ok)
      (\<lambda>r. case r of Inl e \<Rightarrow> connected w cfg (Inl e)
         | Inr _ \<Rightarrow> wp (do { a \<leftarrow> ad_new; _ \<leftarrow> upd_adconn a (\<lambda>_. fresh_conn ?c cfg); ok a }) (connected w cfg)) v"
      unfolding wp_catchE
    proof (rule wp_mono [OF set], goal_cases)
      case (1 r u)
      then show ?case using v close new by (cases r) (simp_all add: wp_bind wp_basic)
    qed
    with False show ?thesis by (simp add: wp_tryE)
  qed
qed

text \<open>C11: \<^verbatim>\<open>Connect\<close> is all or nothing. In any reachable state of the driver, a \<^verbatim>\<open>Connect\<close> that
  fails (a nil connector, invalid options, a refused connection, a database that cannot be selected, a
  cancellation) leaves the pooled connections, the open native objects and the open public connections as
  they were: a connection it had already opened is closed again. One that succeeds returns a new pooled
  connection, usable, without a transaction and with the configured database, that owns a new public
  connection on a native connection no one held before; nothing else changes.\<close>

theorem connect_all_or_nothing:
  "let w = run_ops (ad_step G S) ops adapter_init; k = core_of w; (r, w') = run_state (Connect S ctx connector) w;
       k' = core_of w' in
   case r of
     Inl _ \<Rightarrow> adconns w' = adconns w \<and> cview (csdk_of k') = cview (csdk_of k) \<and>
       conn_native \<circ> conns k' = conn_native \<circ> conns k
   | Inr a \<Rightarrow> \<exists>cfg p. connector = Some cfg \<and> a = ad_next w \<and>
       adconns w' = (adconns w)(a := \<lparr>ad_native = Some (co_next k), database = cfg_Database cfg, activeTx = None,
         closed = False, broken = False\<rparr>) \<and>
       conns k' = (conns k)(co_next k := \<lparr>conn_native = Some p, txActive = False, children = 0\<rparr>) \<and>
       \<not> kopen (cview (csdk_of k)) p \<and>
       cview (csdk_of k') = (cview (csdk_of k))\<lparr>kopen := (kopen (cview (csdk_of k)))(p := True)\<rparr> \<and>
       rowss k' = rowss k \<and> stmts k' = stmts k \<and> txs k' = txs k"
proof (cases connector)
  case None
  then show ?thesis by (simp add: Connect_def Let_def)
next
  case (Some cfg)
  let ?w = "ad_run G S ops"
  have w: "csdk_ok (csdk_of (core_of ?w))" "hok (abs_core (core_of ?w))" "held (native_of (csdk_of (core_of ?w))) = []"
    using core_at_hinv [OF ad_run_safe [of G S ops]] by (simp_all add: hok_def abs_core_def)
  have "wp (Connect S ctx connector) (connected ?w cfg) ?w"
    unfolding Connect_def Some option.case fresh_conn_def [symmetric] wp_tryE [of "adC (OpenContext S ctx opts)" for opts]
  proof (rule wp_mono [OF wp_adC_awp [OF awp_OpenContext w(1) refl]], goal_cases)
    case (1 r v)
    show ?case
    proof (cases r)
      case (Inl e)
      with 1 show ?thesis by (simp add: connected_def hung_up_def)
    next
      case (Inr c)
      with 1 obtain p where c: "c = co_next (core_of ?w)" and p: "\<not> kopen (cview (csdk_of (core_of ?w))) p"
          "abs_core (core_of v) = dialled (abs_core (core_of ?w)) (co_next (core_of ?w)) p"
        by (auto simp: abs_core_def)
      have "csdk_ok (csdk_of (core_of v))" "adconns v = adconns ?w" "ad_next v = ad_next ?w"
        using 1 by simp_all
      from connect_select [OF w(2,3) this p(2,1)] show ?thesis
        unfolding Inr sum.case c .
    qed
  qed
  then show ?thesis
    unfolding Some wp_def
    by (auto simp: Let_def connected_def hung_up_def abs_core_def fresh_conn_def dialled_def split: prod.splits sum.splits)
qed

end
