(* ===== verification/Cube_Values_Spec.thy ===== *)
theory Cube_Values_Spec
  imports Cube_Adapter
begin

text \<open>
  Properties of values: reading columns into Go values and destinations, the two conversions of the two
  public layers, and the parameters \<^verbatim>\<open>database/sql\<close> hands down.
\<close>

section \<open>Reading columns\<close>

text \<open>The type of a destination.\<close>

fun dest_kind :: "dest \<Rightarrow> nat" where
  "dest_kind DNil = 0"
| "dest_kind (DAny _) = 1"
| "dest_kind (DInt64 _) = 2"
| "dest_kind (DFloat64 _) = 3"
| "dest_kind (DString _) = 4"
| "dest_kind (DBytes _) = 5"
| "dest_kind (DNullInt64 _ _) = 6"
| "dest_kind (DNullFloat64 _ _) = 7"
| "dest_kind (DNullString _ _) = 8"
| "dest_kind (DNullBytes _ _) = 9"
| "dest_kind (DValue _) = 10"
| "dest_kind (DOther _) = 11"

text \<open>Destinations that can represent NULL, and what they hold after scanning it.\<close>

fun holds_null :: "val \<Rightarrow> dest \<Rightarrow> bool" where
  "holds_null v (DAny a) \<longleftrightarrow> a = ANil"
| "holds_null v (DBytes b) \<longleftrightarrow> b = None"
| "holds_null v (DNullInt64 i valid) \<longleftrightarrow> \<not> valid"
| "holds_null v (DNullFloat64 x valid) \<longleftrightarrow> \<not> valid"
| "holds_null v (DNullString s valid) \<longleftrightarrow> \<not> valid"
| "holds_null v (DNullBytes b valid) \<longleftrightarrow> \<not> valid"
| "holds_null v (DValue u) \<longleftrightarrow> u = v"
| "holds_null v _ \<longleftrightarrow> False"

definition nullable_kind :: "dest \<Rightarrow> bool" where
  "nullable_kind d \<longleftrightarrow> dest_kind d \<in> {1, 5, 6, 7, 8, 9, 10}"

text \<open>C32: Scanning NULL. A NULL column can be scanned exactly into the destinations that can represent
  it (\<^verbatim>\<open>*any\<close>, \<^verbatim>\<open>*[]byte\<close>, the four \<^verbatim>\<open>Null\<close> structs and \<^verbatim>\<open>*Value\<close>), which then hold NULL; every other
  destination, nil included, gets \<^verbatim>\<open>ErrScan\<close> and never a made-up zero.\<close>

theorem scan_null:
  "case scanValue pf \<lparr>val_Type = t, val_Raw = raw, val_Null = True\<rparr> d of
     Inl e \<Rightarrow> e = ErrScan \<and> \<not> nullable_kind d
   | Inr d' \<Rightarrow> nullable_kind d \<and> dest_kind d' = dest_kind d \<and>
       holds_null \<lparr>val_Type = t, val_Raw = raw, val_Null = True\<rparr> d'"
  by (cases d) (simp_all add: scanValue_def nullable_kind_def)

lemma scanValue_cases:
  "\<not> val_Null v \<Longrightarrow> scanValue pf v d = Inr d' \<Longrightarrow> dest_kind d' = dest_kind d"
  by (cases d) (auto simp: scanValue_def Let_def split: option.splits sum.splits)

text \<open>C33: Scanning keeps types apart. A successful scan leaves a destination of the type it was given,
  the \<^verbatim>\<open>Valid\<close> flag of a \<^verbatim>\<open>Null\<close> struct says whether the column was NULL, and the only error is
  \<^verbatim>\<open>ErrScan\<close>.\<close>

theorem scan_type:
  "case scanValue pf v d of
     Inl e \<Rightarrow> e = ErrScan
   | Inr d' \<Rightarrow> dest_kind d' = dest_kind d \<and> d \<noteq> DNil \<and>
       (case d' of DNullInt64 i valid \<Rightarrow> valid = (\<not> val_Null v) | DNullFloat64 x valid \<Rightarrow> valid = (\<not> val_Null v)
        | DNullString s valid \<Rightarrow> valid = (\<not> val_Null v) | DNullBytes b valid \<Rightarrow> valid = (\<not> val_Null v)
        | _ \<Rightarrow> True)"
  by (cases d; cases "val_Null v")
    (auto simp: scanValue_def valueInterface_def Let_def split: option.splits sum.splits if_splits)

text \<open>C26: A 64-bit integer survives the trip through the server's text protocol. The text the
  bridge binds for \<^verbatim>\<open>int64\<close> has no NUL, so all of it is sent; and a column with that text, of any column
  type, scans into \<^verbatim>\<open>*int64\<close> and \<^verbatim>\<open>*NullInt64\<close>, and for integer columns into \<^verbatim>\<open>*any\<close> and through
  \<^verbatim>\<open>database/sql\<close>, as exactly that integer.\<close>

theorem int64_roundtrip:
  assumes "in_int64 i"
  shows "c_string (show_int i) = show_int i \<and>
    scanValue pf \<lparr>val_Type = t, val_Raw = Some (show_int i), val_Null = False\<rparr> (DInt64 j) = Inr (DInt64 i) \<and>
    scanValue pf \<lparr>val_Type = t, val_Raw = Some (show_int i), val_Null = False\<rparr> (DNullInt64 j b)
      = Inr (DNullInt64 i True) \<and>
    scanValue pf \<lparr>val_Type = 1, val_Raw = Some (show_int i), val_Null = False\<rparr> (DAny a) = Inr (DAny (AInt64 i)) \<and>
    driverValue G \<lparr>val_Type = 1, val_Raw = Some (show_int i), val_Null = False\<rparr> = Inr (AInt64 i)"
  using int64_codec.dec_enc [OF assms] show_int_no_nul [of i]
  by (simp add: scanValue_def valueInterface_def driverValue_def slice_bytes_def)

theorem int64_roundtrip_witness:
  "in_int64 (- 42) \<and> show_int (- 42) = ''-42'' \<and>
   scanValue (\<lambda>_. None) \<lparr>val_Type = 1, val_Raw = Some ''-42'', val_Null = False\<rparr> (DInt64 0) = Inr (DInt64 (- 42))"
proof -
  have i: "in_int64 (- 42)" by (simp add: in_int64_def)
  have s: "show_int (- 42) = ''-42''" by code_simp
  from int64_roundtrip [OF i, of "\<lambda>_. None" 1 0] show ?thesis unfolding s using i by simp
qed

text \<open>C29: An integer is never rounded, truncated or wrapped on the way out. When a column scans into
  \<^verbatim>\<open>*int64\<close>, the result fits 64 bits and, printed by the bridge's own format, scans to itself again; a text
  that is not a decimal integer in range is refused with \<^verbatim>\<open>ErrScan\<close>.\<close>

theorem scan_int64_exact:
  "case scanValue pf v (DInt64 j) of
     Inl e \<Rightarrow> e = ErrScan \<and> (val_Null v \<or> parse_int64 (slice_bytes (val_Raw v)) = None)
   | Inr d \<Rightarrow> (case d of DInt64 i \<Rightarrow> in_int64 i \<and> parse_int64 (slice_bytes (val_Raw v)) = Some i \<and>
         scanValue pf (v\<lparr>val_Raw := Some (show_int i)\<rparr>) (DInt64 j) = Inr (DInt64 i)
       | _ \<Rightarrow> False)"
proof (cases "val_Null v")
  case True
  then show ?thesis by (simp add: scanValue_def)
next
  case False
  then show ?thesis
    by (auto simp: scanValue_def slice_bytes_def Let_def parse_show_int dest: parse_int64_range split: option.splits)
qed

section \<open>The two conversions of a column\<close>

text \<open>C30: The two layers read a column the same way. What the \<^verbatim>\<open>database/sql\<close> adapter returns for
  a column is what the core package's \<^verbatim>\<open>Scan\<close> stores into \<^verbatim>\<open>*any\<close>, with the same errors, except that a
  BLOB without bytes is an empty slice there and nil here.\<close>

theorem driver_value_agrees:
  "driverValue G v =
     (case scanValue (ParseFloat G) v (DAny ANil) of
        Inl e \<Rightarrow> Inl e
      | Inr d \<Rightarrow> (case d of
            DAny a \<Rightarrow> Inr (if val_Type v = 4 \<and> \<not> val_Null v then ABytes (Some (slice_bytes (val_Raw v))) else a)
          | _ \<Rightarrow> Inl ErrScan))"
  by (auto simp: driverValue_def scanValue_def valueInterface_def Let_def split: option.splits sum.splits)

text \<open>C31: What the adapter returns satisfies the contract of \<^verbatim>\<open>database/sql/driver\<close>: it is a
  \<^verbatim>\<open>driver.Value\<close>, nil exactly for NULL, and otherwise of the Go type that \<^verbatim>\<open>ColumnTypeScanType\<close> announces
  for the column, for each of the driver's column types.\<close>

theorem driver_value_type:
  "case driverValue G v of
     Inl e \<Rightarrow> e = ErrScan \<and> \<not> val_Null v
   | Inr x \<Rightarrow> is_driver_value x \<and> (x = ANil \<longleftrightarrow> val_Null v) \<and>
       (if val_Type v \<in> {1, 2, 3, 4, 5, 6, 7, 8, 9} \<and> x \<noteq> ANil then
        (case ColumnTypeScanType [val_Type v] 0 of
           int64Type \<Rightarrow> (\<exists>i. x = AInt64 i) | float64Type \<Rightarrow> (\<exists>f. x = AFloat64 f)
         | bytesType \<Rightarrow> (\<exists>b. x = ABytes (Some b)) | stringType \<Rightarrow> (\<exists>s. x = AString s)
         | anyType \<Rightarrow> False)
        else True)"
  by (auto simp: driverValue_def ColumnTypeScanType_def Let_def split: option.splits)

section \<open>Parameters\<close>

text \<open>The parameter values the core package binds.\<close>

fun core_value :: "any \<Rightarrow> bool" where
  "core_value ANil = True"
| "core_value (AInt64 _) = True"
| "core_value (AFloat64 _) = True"
| "core_value (AString _) = True"
| "core_value (ABytes _) = True"
| "core_value (AZeroBlob _) = True"
| "core_value _ = False"

lemma checkNamedValue_core:
  "checkNamedValue (Some nv) = Inr v \<Longrightarrow> nv_Name nv = [] \<and> core_value v"
  by (auto simp: checkNamedValue_def split: if_splits any.splits sum.splits; metis core_value.simps)

lemma checkNamedValue_id:
  "nv_Name nv = [] \<Longrightarrow> core_value (nv_Value nv) \<Longrightarrow> checkNamedValue (Some nv) = Inr (nv_Value nv)"
  by (cases "nv_Value nv") (simp_all add: checkNamedValue_def)

text \<open>C35: Every parameter the adapter accepts is one the core package can bind: nil, \<^verbatim>\<open>int64\<close>,
  \<^verbatim>\<open>float64\<close>, \<^verbatim>\<open>string\<close>, \<^verbatim>\<open>[]byte\<close> or \<^verbatim>\<open>ZeroBlob\<close>. Named parameters are refused whatever their value,
  checking an accepted value again accepts it unchanged, and a boolean becomes 0 or 1.\<close>

theorem check_named_value:
  "(case checkNamedValue (Some nv) of
      Inl e \<Rightarrow> (if nv_Name nv \<noteq> [] then e = ErrNamedParameters else \<not> core_value (nv_Value nv))
    | Inr v \<Rightarrow> nv_Name nv = [] \<and> core_value v \<and> checkNamedValue (Some (nv\<lparr>nv_Value := v\<rparr>)) = Inr v) \<and>
   checkNamedValue (Some \<lparr>nv_Name = [], nv_Ordinal = i, nv_Value = ABool b\<rparr>) = Inr (AInt64 (if b then 1 else 0))"
proof -
  have "checkNamedValue (Some (nv\<lparr>nv_Value := v\<rparr>)) = Inr v" if "checkNamedValue (Some nv) = Inr v" for v
    using checkNamedValue_core [OF that] checkNamedValue_id [of "nv\<lparr>nv_Value := v\<rparr>"] by simp
  moreover have "\<not> core_value (nv_Value nv)" if "checkNamedValue (Some nv) = Inl e" "nv_Name nv = []" for e
    using that checkNamedValue_id [of nv] by auto
  moreover have "e = ErrNamedParameters" if "checkNamedValue (Some nv) = Inl e" "nv_Name nv \<noteq> []" for e
    using that by (simp add: checkNamedValue_def)
  moreover have "checkNamedValue (Some \<lparr>nv_Name = [], nv_Ordinal = i, nv_Value = ABool b\<rparr>) = Inr (AInt64 (if b then 1 else 0))"
    by (simp add: checkNamedValue_def)
  ultimately show ?thesis
    by (cases "checkNamedValue (Some nv)") (simp_all add: checkNamedValue_core)
qed

lemma namedValues_map:
  "namedValues as = Inr vs \<longleftrightarrow> map (\<lambda>a. checkNamedValue (Some a)) as = map Inr vs"
proof (induction as arbitrary: vs)
  case (Cons a as)
  then show ?case by (cases vs) (auto simp flip: Cons.IH split: sum.splits)
qed auto

lemma positional_core:
  "list_all core_value vs \<Longrightarrow> map (\<lambda>a. checkNamedValue (Some a)) (positionalValues vs) = map Inr vs"
  by (rule nth_equalityI)
    (auto simp: positionalValues_def nth_enumerate_eq list_all_length checkNamedValue_id [of "\<lparr>nv_Name = [], nv_Ordinal = _, nv_Value = _\<rparr>", simplified])

text \<open>C36: Positional arguments reach the core package unchanged and in order: for values the core
  package binds, \<^verbatim>\<open>namedValues\<close> gives back exactly what \<^verbatim>\<open>positionalValues\<close> was given, with ordinals 1, 2,
  ...; and whatever list \<^verbatim>\<open>namedValues\<close> accepts, its result has one bindable value per argument.\<close>

theorem positional_roundtrip:
  "(if list_all core_value vs then namedValues (positionalValues vs) = Inr vs else True) \<and>
   map nv_Ordinal (positionalValues vs) = map int [1..<length vs + 1] \<and>
   (case namedValues as of Inl _ \<Rightarrow> True | Inr us \<Rightarrow> length us = length as \<and> list_all core_value us)"
proof -
  have "length us = length as \<and> list_all core_value us" if "namedValues as = Inr us" for us
  proof -
    have m: "map (\<lambda>a. checkNamedValue (Some a)) as = map Inr us" using that by (simp add: namedValues_map)
    then have l: "length us = length as" by (metis length_map)
    moreover have "core_value (us ! i)" if "i < length us" for i
      using arg_cong [OF m, of "\<lambda>xs. xs ! i"] that l checkNamedValue_core by auto
    ultimately show ?thesis by (simp add: list_all_length)
  qed
  moreover have "map nv_Ordinal (positionalValues vs) = map int [1..<length vs + 1]"
    by (rule nth_equalityI) (simp_all add: positionalValues_def nth_enumerate_eq del: upt_Suc)
  ultimately show ?thesis
    using positional_core [of vs] by (auto simp: namedValues_map split: sum.split)
qed

end
