(* ===== verification/Cube_URL.thy ===== *)
theory Cube_URL
  imports Cube_Config
begin

text \<open>
  The part of Go's \<^verbatim>\<open>net/url\<close> that \<^verbatim>\<open>config.go\<close> relies on: \<^verbatim>\<open>url.Parse\<close> with \<^verbatim>\<open>URL.Query\<close> as an executable
  function, the percent encoding of a component, and the round trip between the two. Hosts with a bracket or
  with several colons, which Go's releases treat differently, are left to a parameter \<open>H\<close>.
\<close>

section \<open>Cutting\<close>

text \<open>\<^verbatim>\<open>strings.Cut(s, sep)\<close> for a one-byte separator, without its third result\<close>

definition cut_at :: "char \<Rightarrow> string \<Rightarrow> string \<times> string" where
  "cut_at c s = (takeWhile (\<lambda>x. x \<noteq> c) s, drop 1 (dropWhile (\<lambda>x. x \<noteq> c) s))"

lemma cut_at_found [simp]: "c \<notin> set a \<Longrightarrow> cut_at c (a @ c # b) = (a, b)"
  by (induction a) (auto simp: cut_at_def)

lemma cut_at_absent [simp]: "c \<notin> set a \<Longrightarrow> cut_at c a = (a, [])"
proof -
  assume "c \<notin> set a"
  then have "takeWhile (\<lambda>x. x \<noteq> c) a = a" "dropWhile (\<lambda>x. x \<noteq> c) a = []" by auto
  then show ?thesis unfolding cut_at_def by (simp only: drop_Nil)
qed

lemma cut_at_shorter: "s \<noteq> [] \<Longrightarrow> length (snd (cut_at c s)) < length s"
  using length_dropWhile_le [of "\<lambda>x. x \<noteq> c" s] by (cases s) (auto simp: cut_at_def le_imp_less_Suc)

section \<open>Percent encoding\<close>

datatype encoding = EncodePath | EncodeUserPassword | EncodeHost | EncodeQueryComponent | EncodeFragment

definition unhex :: "char \<Rightarrow> nat option" where
  "unhex c = (let n = of_char c :: nat in
     if 48 \<le> n \<and> n \<le> 57 then Some (n - 48)
     else if 97 \<le> n \<and> n \<le> 102 then Some (n - 87)
     else if 65 \<le> n \<and> n \<le> 70 then Some (n - 55)
     else None)"

definition alnum :: "char \<Rightarrow> bool" where
  "alnum c = (let n = of_char c :: nat in
     48 \<le> n \<and> n \<le> 57 \<or> 65 \<le> n \<and> n \<le> 90 \<or> 97 \<le> n \<and> n \<le> 122)"

definition unreserved :: "char \<Rightarrow> bool" where
  "unreserved c \<longleftrightarrow> alnum c \<or> List.member ''-_.~'' c"

text \<open>The ASCII bytes a host may hold as they are: \<^verbatim>\<open>!shouldEscape(c, encodeHost)\<close>\<close>

definition host_literal :: "char \<Rightarrow> bool" where
  "host_literal c \<longleftrightarrow> unreserved c \<or> List.member (CHR 0x27 # CHR 0x22 # ''!$&()*+,;=:[]<>'') c"

text \<open>\<^verbatim>\<open>unescape(s, mode)\<close>\<close>

fun unescape :: "encoding \<Rightarrow> string \<Rightarrow> string option" where
  "unescape m [] = Some []"
| "unescape m (c # cs) =
     (if c = CHR ''%'' then
        (case cs of
           a # b # rest \<Rightarrow>
             (case (unhex a, unhex b) of
                (Some x, Some y) \<Rightarrow>
                  if m = EncodeHost \<and> x < 8 \<and> \<not> (a = CHR ''2'' \<and> b = CHR ''5'') then None
                  else map_option ((#) (char_of (16 * x + y))) (unescape m rest)
              | _ \<Rightarrow> None)
         | _ \<Rightarrow> None)
      else if c = CHR ''+'' \<and> m = EncodeQueryComponent then map_option ((#) (CHR '' '')) (unescape m cs)
      else if m = EncodeHost \<and> (of_char c :: nat) < 128 \<and> \<not> host_literal c then None
      else map_option ((#) c) (unescape m cs))"

text \<open>A component with every byte but the unreserved ones percent-encoded\<close>

definition hex_char :: "nat \<Rightarrow> char" where
  "hex_char d = (if d < 10 then char_of (48 + d) else char_of (55 + d))"

definition escape_char :: "char \<Rightarrow> string" where
  "escape_char c = (if unreserved c then [c]
     else [CHR ''%'', hex_char (of_char c div 16), hex_char (of_char c mod 16)])"

definition escape :: "string \<Rightarrow> string" where
  "escape s = concat (map escape_char s)"

lemma hex_digits [simp]: "of_char c div 16 < (16 :: nat)" "of_char c mod 16 < (16 :: nat)"
  using less_mult_imp_div_less [of "of_char c" 16 16] by simp_all

lemma unhex_hex_char: "d < 16 \<Longrightarrow> unhex (hex_char d) = Some d"
  by (auto simp: unhex_def hex_char_def Let_def)

lemma unescape_escape_char:
  assumes "m \<noteq> EncodeHost"
  shows "unescape m (escape_char c @ s) = map_option ((#) c) (unescape m s)"
proof (cases "unreserved c")
  case True
  then have "c \<noteq> CHR ''%''" "c \<noteq> CHR ''+''" by (auto simp: unreserved_def alnum_def)
  with True assms show ?thesis by (simp add: escape_char_def)
next
  case False
  have "char_of (16 * (of_char c div 16) + of_char c mod 16 :: nat) = c"
    by simp
  then show ?thesis using False assms by (simp add: escape_char_def unhex_hex_char)
qed

lemma unescape_escape: "m \<noteq> EncodeHost \<Longrightarrow> unescape m (escape s) = Some s"
  by (induction s) (simp_all add: escape_def unescape_escape_char)

lemma unescape_literal:
  "list_all (\<lambda>c. c \<noteq> CHR ''%'' \<and> c \<noteq> CHR ''+'' \<or> m = EncodeHost \<and> c \<noteq> CHR ''%'') s \<Longrightarrow>
   list_all (\<lambda>c. 128 \<le> (of_char c :: nat) \<or> host_literal c) s \<Longrightarrow> unescape m s = Some s"
  by (induction s) auto

text \<open>The bytes of an encoded component\<close>

lemma hex_char_alnum: "d < 16 \<Longrightarrow> alnum (hex_char d)"
  by (auto simp: alnum_def hex_char_def Let_def)

lemma escape_bytes: "x \<in> set (escape s) \<Longrightarrow> unreserved x \<or> x = CHR ''%''"
proof -
  have "unreserved (hex_char (of_char c div 16))" "unreserved (hex_char (of_char c mod 16))" for c :: char
    by (simp_all add: unreserved_def hex_char_alnum)
  then show "x \<in> set (escape s) \<Longrightarrow> unreserved x \<or> x = CHR ''%''"
    by (auto simp: escape_def escape_char_def split: if_splits)
qed

section \<open>Parsing\<close>

definition ctl :: "char \<Rightarrow> bool" where
  "ctl c \<longleftrightarrow> (of_char c :: nat) < 32 \<or> (of_char c :: nat) = 127"

text \<open>\<^verbatim>\<open>getScheme(rawURL)\<close>, \<open>i\<close> bytes into \<open>raw\<close>\<close>

fun get_scheme :: "string \<Rightarrow> nat \<Rightarrow> string \<Rightarrow> (string \<times> string) option" where
  "get_scheme raw i [] = Some ([], raw)"
| "get_scheme raw i (c # cs) =
     (if alnum c \<and> digit_value c = None then get_scheme raw (Suc i) cs
      else if alnum c \<or> List.member ''+-.'' c then (if i = 0 then Some ([], raw) else get_scheme raw (Suc i) cs)
      else if c = CHR '':'' then (if i = 0 then None else Some (take i raw, cs))
      else Some ([], raw))"

text \<open>\<^verbatim>\<open>parseHost(host)\<close>; \<open>H\<close> for a bracket or more than one colon\<close>

definition parse_host :: "(string \<Rightarrow> string option) \<Rightarrow> string \<Rightarrow> string option" where
  "parse_host H host =
     (if List.member host (CHR ''['') \<or> 1 < length (filter (\<lambda>c. c = CHR '':'') host) then H host
      else (case split_last (CHR '':'') host of
              Some (_, port) \<Rightarrow> if list_all (\<lambda>c. digit_value c \<noteq> None) port then unescape EncodeHost host else None
            | None \<Rightarrow> unescape EncodeHost host))"

definition userinfo_ok :: "char \<Rightarrow> bool" where
  "userinfo_ok c \<longleftrightarrow> alnum c \<or> List.member (CHR 0x27 # ''-._:~!$&()*+,;=%@'') c"

text \<open>\<^verbatim>\<open>parseAuthority(authority)\<close>\<close>

definition parse_authority :: "(string \<Rightarrow> string option) \<Rightarrow> string \<Rightarrow> ((string \<times> string option) option \<times> string) option" where
  "parse_authority H authority =
     (case split_last (CHR ''@'') authority of
        None \<Rightarrow> map_option (Pair None) (parse_host H authority)
      | Some (userinfo, hostport) \<Rightarrow>
          (case parse_host H hostport of
             None \<Rightarrow> None
           | Some host \<Rightarrow>
               if \<not> list_all userinfo_ok userinfo then None
               else if \<not> List.member userinfo (CHR '':'') then
                 map_option (\<lambda>u. (Some (u, None), host)) (unescape EncodeUserPassword userinfo)
               else (let (username, password) = cut_at (CHR '':'') userinfo in
                 (case (unescape EncodeUserPassword username, unescape EncodeUserPassword password) of
                    (Some u, Some p) \<Rightarrow> Some (Some (u, Some p), host)
                  | _ \<Rightarrow> None))))"

text \<open>\<^verbatim>\<open>ParseQuery(query)\<close>, keys in the order of their first appearance\<close>

fun add_value :: "string \<Rightarrow> string \<Rightarrow> (string \<times> string list) list \<Rightarrow> (string \<times> string list) list" where
  "add_value k v [] = [(k, [v])]"
| "add_value k v ((k', vs) # q) = (if k = k' then (k', vs @ [v]) # q else (k', vs) # add_value k v q)"

definition add_pair :: "string \<Rightarrow> (string \<times> string list) list \<Rightarrow> (string \<times> string list) list" where
  "add_pair s q =
     (if List.member s (CHR '';'') \<or> s = [] then q
      else (case (unescape EncodeQueryComponent (fst (cut_at (CHR ''='') s)),
                  unescape EncodeQueryComponent (snd (cut_at (CHR ''='') s))) of
              (Some k, Some v) \<Rightarrow> add_value k v q
            | _ \<Rightarrow> q))"

function parse_query :: "(string \<times> string list) list \<Rightarrow> string \<Rightarrow> (string \<times> string list) list" where
  "parse_query m query =
     (if query = [] then m
      else parse_query (add_pair (fst (cut_at (CHR ''&'') query)) m) (snd (cut_at (CHR ''&'') query)))"
  by auto
termination
  by (relation "measure (length \<circ> snd)") (simp_all add: cut_at_shorter)

declare parse_query.simps [simp del]

text \<open>\<^verbatim>\<open>parse(rawURL, false)\<close>, with \<^verbatim>\<open>Query()\<close> of its result\<close>

definition rooted :: "string \<Rightarrow> bool" where
  "rooted rest \<longleftrightarrow> rest \<noteq> [] \<and> hd rest = CHR ''/''"

definition url_parts :: "(string \<Rightarrow> string option) \<Rightarrow> string \<Rightarrow> url option" where
  "url_parts H raw =
     (let u = \<lparr> url_Scheme = [], url_Opaque = [], url_User = None, url_Host = [], url_Path = [], url_Fragment = [],
                url_Query = [] \<rparr> in
      if raw = ''*'' then Some (u\<lparr>url_Path := ''*''\<rparr>)
      else (case get_scheme raw 0 raw of
         None \<Rightarrow> None
       | Some (scheme, rest') \<Rightarrow>
           let (rest, query) = cut_at (CHR ''?'') rest';
               u = u\<lparr>url_Scheme := to_lower scheme, url_Query := parse_query [] query\<rparr> in
           if \<not> rooted rest \<and> scheme \<noteq> [] then Some (u\<lparr>url_Opaque := rest\<rparr>)
           else if \<not> rooted rest \<and> List.member (fst (cut_at (CHR ''/'') rest)) (CHR '':'') then None
           else if take 2 rest = ''//'' \<and> (scheme \<noteq> [] \<or> take 3 rest \<noteq> ''///'') then
             (case parse_authority H (takeWhile (\<lambda>c. c \<noteq> CHR ''/'') (drop 2 rest)) of
                None \<Rightarrow> None
              | Some (user, host) \<Rightarrow> map_option (\<lambda>p. u\<lparr>url_User := user, url_Host := host, url_Path := p\<rparr>)
                  (unescape EncodePath (dropWhile (\<lambda>c. c \<noteq> CHR ''/'') (drop 2 rest))))
           else map_option (\<lambda>p. u\<lparr>url_Path := p\<rparr>) (unescape EncodePath rest)))"

text \<open>\<^verbatim>\<open>Parse(rawURL)\<close>\<close>

definition url_parse :: "(string \<Rightarrow> string option) \<Rightarrow> string \<Rightarrow> url option" where
  "url_parse H text =
     (let (raw, frag) = cut_at (CHR ''#'') text in
      if list_ex ctl raw then None
      else (case url_parts H raw of
              None \<Rightarrow> None
            | Some u \<Rightarrow> if frag = [] then Some u
                else map_option (\<lambda>f. u\<lparr>url_Fragment := f\<rparr>) (unescape EncodeFragment frag)))"

end
