(* ===== verification/Spec2Isabelle.thy ===== *)
theory Spec2Isabelle
  imports Cube_Csdk_Run Cube_Core_Effects Cube_Core_Errors Cube_Rows_Loop Cube_Adapter_Reset Cube_Adapter_Connect
    Cube_Values_Spec Cube_Config_Spec
begin

text \<open>
  The CubeSQL driver for Go: a model of its own code, from the C bridge to the \<^verbatim>\<open>database/sql\<close> driver, and the
  theorems that make it correct.

  \<^bold>\<open>The program.\<close> Four layers, each on top of the one before. \<^verbatim>\<open>internal/csdk/bridge.c\<close> wraps the
  vendored C SDK in structs it allocates. \<^verbatim>\<open>internal/csdk\<close> (\<^verbatim>\<open>csdk.go\<close>, \<^verbatim>\<open>errors.go\<close>) is a private Go
  package with one mutex per connection around these structs. \<^verbatim>\<open>cubesql\<close> (\<^verbatim>\<open>conn.go\<close>, \<^verbatim>\<open>stmt.go\<close>,
  \<^verbatim>\<open>rows.go\<close>, \<^verbatim>\<open>tx.go\<close>, \<^verbatim>\<open>bind.go\<close>, \<^verbatim>\<open>context.go\<close>, \<^verbatim>\<open>result.go\<close>, \<^verbatim>\<open>options.go\<close>, \<^verbatim>\<open>errors.go\<close>) is the
  public package: connections, statements, result sets and transactions with reference counts, contexts
  and translated errors. \<^verbatim>\<open>database/cubesql\<close> (\<^verbatim>\<open>config.go\<close>, \<^verbatim>\<open>driver.go\<close>, \<^verbatim>\<open>conn.go\<close>, \<^verbatim>\<open>stmt.go\<close>,
  \<^verbatim>\<open>tx.go\<close>, \<^verbatim>\<open>rows.go\<close>, \<^verbatim>\<open>result.go\<close>) is the driver that \<^verbatim>\<open>database/sql\<close> pools.

  \<^bold>\<open>The model.\<close> A method is a state-passing computation (\<open>('s, 'a) state\<close>) with the method's name; a Go
  error result is a sum (\<open>Inl\<close> the error). The four states are records, each holding the one below:
  \<open>native\<close> (heap of C structs, history of SDK calls, held mutexes), \<open>csdk\<close>, \<open>core\<close> and \<open>adapter\<close>
  (Go objects by address). A pointer receiver is an address, an option where the code tests it for nil.
  Calls of a lower layer are run on its part of the state (\<open>zoom\<close>: \<open>csN\<close>, \<open>coC\<close>, \<open>adC\<close>). \<open>tryE\<close> is
  \<^verbatim>\<open>if err != nil { return err }\<close>, \<open>catchE\<close> the same with a handler, \<open>deferE\<close> a deferred call,
  \<open>eachE\<close> a loop over a slice that stops at the first error. Every definition computes.

  What is not under \<^verbatim>\<open>src/\<close>'s own code is a parameter. \<open>S :: sdk\<close> is the vendored SDK with the server and
  \<^verbatim>\<open>malloc\<close>: each call is appended to the history, and its result is what \<open>S\<close> answers to that history; the
  theorems hold for every \<open>S\<close>, so for every behaviour of server, network and allocator. \<open>G :: golib\<close> (and
  \<open>pf\<close>, its \<^verbatim>\<open>ParseFloat\<close>) are \<^verbatim>\<open>url.Parse\<close>, \<^verbatim>\<open>time.ParseDuration\<close>, \<^verbatim>\<open>net.ParseIP\<close> and
  \<^verbatim>\<open>strconv.ParseFloat\<close>; \<^verbatim>\<open>Cube_URL\<close> models as much of \<^verbatim>\<open>url.Parse\<close> as writing names needs, with hosts in
  brackets left to a parameter \<open>H\<close>. A context is cancelled at an arbitrary reading of a clock that every check and
  every server call advances, so a cancellation can fall between any two steps. 64-bit integers are
  integers within \<open>in_int64\<close>, conversions to \<^verbatim>\<open>C.int\<close> wrap (\<open>c_int\<close>), column types are bytes and floats are
  their 64 bits.

  The model is sequential: one call runs to its end before the next begins. Mutexes are modelled for what
  they do in this setting: taking one that the same call already holds, which blocks forever, sets
  \<open>stuck\<close>. Use of freed or foreign C memory and of a destroyed SDK handle sets \<open>fault\<close>. There is no fuel:
  all recursion is structural on argument lists or on shorter texts; the one client loop (\<open>read_all\<close>, in
  \<^verbatim>\<open>Cube_Rows_Loop\<close>) takes a bound, and \<open>rows_loop\<close> proves that the rows that remain plus one is enough.

  \<^bold>\<open>Theories.\<close> Models: \<^verbatim>\<open>Cube_Text\<close> (the parts of \<^verbatim>\<open>strings\<close> and \<^verbatim>\<open>strconv\<close> in use, C strings),
  \<^verbatim>\<open>Cube_Errors\<close> (errors of all packages, \<^verbatim>\<open>publicError\<close>, \<^verbatim>\<open>classifyError\<close>), \<^verbatim>\<open>Cube_Native\<close> and
  \<^verbatim>\<open>Cube_Native_Bind\<close> (\<^verbatim>\<open>bridge.c\<close>), \<^verbatim>\<open>Cube_Csdk\<close> and \<^verbatim>\<open>Cube_Csdk_Handles\<close> (\<^verbatim>\<open>csdk.go\<close>),
  \<^verbatim>\<open>Cube_Options\<close>, \<^verbatim>\<open>Cube_Core\<close>, \<^verbatim>\<open>Cube_Rows\<close>, \<^verbatim>\<open>Cube_Stmt\<close>, \<^verbatim>\<open>Cube_Conn\<close> (the public package; the last
  also holds \<^verbatim>\<open>tx.go\<close>), \<^verbatim>\<open>Cube_Config\<close> and \<^verbatim>\<open>Cube_Adapter\<close> (\<^verbatim>\<open>database/cubesql\<close>). \<^verbatim>\<open>Cube_Prelude\<close> holds the
  combinators, their weakest preconditions (\<open>wp\<close>), \<open>stays\<close> (a computation keeps an invariant),
  \<open>fails_in\<close> (its errors are in a class) and the ownership and counting lemmas.

  Safety: \<^verbatim>\<open>Cube_Native_Safety\<close> and \<^verbatim>\<open>Cube_Native_Spec\<close> give each bridge function its effect on an abstract
  view (locale \<open>bridge_call\<close>, interpreted for every function that has none); \<^verbatim>\<open>Cube_Csdk_Safety\<close>,
  \<^verbatim>\<open>Cube_Csdk_Heap\<close>, \<^verbatim>\<open>Cube_Csdk_Methods\<close> (locale \<open>quiet_method\<close>) and \<^verbatim>\<open>Cube_Csdk_Lifecycle\<close> do the
  same for the private package, whose heap is refined by the view \<open>cview\<close> (what is open, and whose);
  \<^verbatim>\<open>Cube_Core_Abs\<close> builds a calculus (\<open>awp\<close>) for the public package over that view, \<^verbatim>\<open>Cube_Core_Heap\<close> its
  invariant \<open>hinv\<close>, \<^verbatim>\<open>Cube_Core_Safety\<close>, \<^verbatim>\<open>Cube_Core_Lifecycle\<close> and \<^verbatim>\<open>Cube_Core_Query\<close> its preservation.
  \<^verbatim>\<open>Cube_Csdk_Run\<close> (locale \<open>component\<close>), \<^verbatim>\<open>Cube_Core_Run\<close> and \<^verbatim>\<open>Cube_Adapter_Run\<close> turn the methods of a
  package into operations and prove the invariant for all sequences of them on all arguments.

  Contracts: \<^verbatim>\<open>Cube_Core_Effects\<close> (closing, transactions, what \<^verbatim>\<open>Exec\<close> leaves alone), \<^verbatim>\<open>Cube_Core_Identity\<close>
  (what no method ever changes in an object, locale \<open>object_frame\<close>), \<^verbatim>\<open>Cube_Error_Classes\<close> and
  \<^verbatim>\<open>Cube_Core_Errors\<close> (which errors a method returns, a result carries and a result set records),
  \<^verbatim>\<open>Cube_Rows_Loop\<close>, \<^verbatim>\<open>Cube_Wire\<close> and \<^verbatim>\<open>Cube_Wire_Exec\<close> (what is sent to the server), \<^verbatim>\<open>Cube_Reply\<close> (what the
  server answered), \<^verbatim>\<open>Cube_Adapter_Connect\<close>, \<^verbatim>\<open>Cube_Adapter_Health\<close>, \<^verbatim>\<open>Cube_Adapter_Session\<close> and
  \<^verbatim>\<open>Cube_Adapter_Reset\<close> (the pooled connection), \<^verbatim>\<open>Cube_Options\<close> and \<^verbatim>\<open>Cube_Errors\<close> (also the specifications of
  options and of error categories), \<^verbatim>\<open>Cube_Values_Spec\<close>, \<^verbatim>\<open>Cube_URL\<close> and \<^verbatim>\<open>Cube_Config_Spec\<close> (values,
  parameters, data source names).

  \<^bold>\<open>What the theorems show.\<close> Whatever methods are called in whatever order, with any answers of the SDK:
  no memory fault, no self-deadlock, no mutex left locked, no native object leaked or owned twice, exact
  child counters (\<open>adapter_safe\<close>, \<open>core_safe\<close>, \<open>csdk_safe\<close>, \<open>csdk_no_leak\<close>, \<open>core_children\<close>, \<open>core_tx\<close>,
  \<open>object_identity\<close>); failures undo what they began (\<open>query_failure_clean\<close>, \<open>exec_frame\<close>,
  \<open>connect_all_or_nothing\<close>, \<open>tx_finish_contract\<close>); statements reach the server once, unchanged and
  committed exactly when they should be (\<open>exec_wire\<close>, \<open>autocommit\<close>, \<open>bind_row_roundtrip\<close>); a retry never
  repeats work and a broken connection is never used (\<open>retry_safe\<close>, \<open>broken_sticky\<close>, \<open>unusable_refused\<close>,
  \<open>tx_ends_once\<close>); a session is rolled back before it is reused (\<open>reset_session\<close>); errors stay in their categories (\<open>core_errors\<close>,
  \<open>publicError_category\<close>, against a table of rules stated apart from the code); options reach the SDK exactly (\<open>options_lossless\<close>);
  values, options and data source names are neither lost nor altered (the round trips).

  \<^bold>\<open>Not modelled.\<close> Interleavings of concurrent goroutines (the mutexes serialise the calls on one object);
  the SDK, the server and \<^verbatim>\<open>database/sql\<close> itself; \<^verbatim>\<open>Version\<close> and the one-line wrappers of
  \<^verbatim>\<open>internal/topology\<close>, which return a constant of the SDK; \<^verbatim>\<open>OpenDB\<close> and the registration of the driver,
  which hand an object to \<^verbatim>\<open>database/sql\<close>; the interface assertions of \<^verbatim>\<open>interfaces.go\<close> and the package
  comments of \<^verbatim>\<open>doc.go\<close>; a cursor field that is not NULL but has a negative length, on which \<^verbatim>\<open>C.GoBytes\<close> would
  panic (the bytes of a field have the length they have); the buffer of a bind slot as an allocation of its own
  (it is freed exactly where the slot is overwritten); the texts of error messages, except where the code inspects them; tests, scripts and
  reports.
\<close>

end
